(* ===== verification/Soroban_Base.thy ===== *)
theory Soroban_Base
  imports Main "HOL-Library.Signed_Division"
begin

text \<open>
  Shared base of the development: what every contract of the workspace uses of Rust and of the
  Soroban host. It holds the result type of a contract call (a typed contract error or a trap),
  the checked, saturating and truncating integer operations of Rust at their machine widths, the
  ledger environment, and the lemmas on lists, sums and results that the component theories share.
  Nothing here is specific to one contract.
\<close>

section \<open>Results of contract calls\<close>

text \<open>
  A contract function either returns, returns a typed error (\<open>Result::Err\<close>), or traps
  (\<open>panic!\<close>, a failed \<open>assert!\<close> or \<open>expect\<close>, a failed \<open>require_auth\<close>, an arithmetic
  overflow under \<open>overflow-checks = true\<close>, an index out of range). The host rolls back every
  storage write of an invocation that ends in an error or a trap, so a failing operation has no
  resulting state.
\<close>

datatype 'e fault = Err 'e | Trap string

type_synonym ('e, 'a) result = "'e fault + 'a"

definition bindr :: "'f + 'a \<Rightarrow> ('a \<Rightarrow> 'f + 'b) \<Rightarrow> 'f + 'b" where
  "bindr m f = (case m of Inl e \<Rightarrow> Inl e | Inr x \<Rightarrow> f x)"

definition ensure :: "bool \<Rightarrow> 'f \<Rightarrow> 'f + unit" where
  "ensure b e = (if b then Inr () else Inl e)"

definition ok_or :: "'a option \<Rightarrow> 'f \<Rightarrow> 'f + 'a" where
  "ok_or x e = (case x of None \<Rightarrow> Inl e | Some v \<Rightarrow> Inr v)"

definition is_ok :: "'f + 'a \<Rightarrow> bool" where
  "is_ok r = (case r of Inl _ \<Rightarrow> False | Inr _ \<Rightarrow> True)"

fun foldr_res :: "('a \<Rightarrow> 's \<Rightarrow> 'f + 's) \<Rightarrow> 'a list \<Rightarrow> 's \<Rightarrow> 'f + 's" where
  "foldr_res f [] s = Inr s"
| "foldr_res f (x # xs) s = bindr (f x s) (foldr_res f xs)"

named_theorems result_simps \<open>decomposition of successful and failing results\<close>

lemma bindr_simps [simp]: "bindr (Inl e) f = Inl e" "bindr (Inr x) f = f x"
  by (simp_all add: bindr_def)

lemma bindr_eq_Inr [result_simps]: "bindr m f = Inr y \<longleftrightarrow> (\<exists>x. m = Inr x \<and> f x = Inr y)"
  by (cases m) auto

lemma bindr_eq_Inl [result_simps]:
  "bindr m f = Inl e \<longleftrightarrow> m = Inl e \<or> (\<exists>x. m = Inr x \<and> f x = Inl e)"
  by (cases m) auto

lemma bindr_assoc: "bindr (bindr m f) g = bindr m (\<lambda>x. bindr (f x) g)"
  by (cases m) auto

lemma bindr_const_Inr: "bindr m (\<lambda>_. Inr x) = Inr y \<Longrightarrow> y = x"
  by (cases m) auto

lemma ensure_eq_Inr [result_simps]: "ensure b e = Inr u \<longleftrightarrow> b"
  by (simp add: ensure_def)

lemma ensure_eq_Inl [result_simps]: "ensure b e = Inl f \<longleftrightarrow> \<not> b \<and> f = e"
  by (auto simp: ensure_def)

lemma ensure_simps [simp]: "ensure True e = Inr ()" "ensure False e = Inl e"
  by (simp_all add: ensure_def)

lemma ok_or_eq_Inr [result_simps]: "ok_or x e = Inr v \<longleftrightarrow> x = Some v"
  by (auto simp: ok_or_def split: option.splits)

lemma ok_or_eq_Inl [result_simps]: "ok_or x e = Inl f \<longleftrightarrow> x = None \<and> f = e"
  by (auto simp: ok_or_def split: option.splits)

lemma ok_or_simps [simp]: "ok_or (Some v) e = Inr v" "ok_or None e = Inl e"
  by (simp_all add: ok_or_def)

lemma is_ok_simps [simp]: "is_ok (Inr x)" "\<not> is_ok (Inl e)"
  by (simp_all add: is_ok_def)

lemma is_ok_iff: "is_ok r \<longleftrightarrow> (\<exists>x. r = Inr x)"
  by (cases r) auto

lemma foldr_res_append:
  "foldr_res f (xs @ ys) s = bindr (foldr_res f xs s) (foldr_res f ys)"
proof (induction xs arbitrary: s)
  case Nil
  then show ?case by simp
next
  case (Cons x xs)
  then show ?case by (cases "f x s") auto
qed

lemma foldr_res_invariant:
  assumes "foldr_res f xs s = Inr t" and "P s"
    and "\<And>x s t. x \<in> set xs \<Longrightarrow> P s \<Longrightarrow> f x s = Inr t \<Longrightarrow> P t"
  shows "P t"
  using assms
proof (induction xs arbitrary: s)
  case Nil
  then show ?case by simp
next
  case (Cons x xs)
  from Cons.prems(1) obtain u where u: "f x s = Inr u" and rest: "foldr_res f xs u = Inr t"
    by (auto simp: result_simps)
  have "P u" using Cons.prems(2,3) u by (meson list.set_intros(1))
  with rest show ?case
    using Cons.IH Cons.prems(3) by (meson list.set_intros(2))
qed


section \<open>Rust integers\<close>

text \<open>
  Amounts are \<open>i128\<close>, modelled by \<^typ>\<open>int\<close> with the bounds written out; timestamps (\<open>u64\<close>),
  ledger sequences and counts (\<open>u32\<close>) are \<^typ>\<open>nat\<close> with their upper bounds. A checked
  operation is the exact integer operation followed by a range check; an unchecked one traps
  when out of range, because the release profile sets \<open>overflow-checks = true\<close>.
\<close>

definition i128_max :: int where "i128_max = 2 ^ 127 - 1"

definition i128_min :: int where "i128_min = - (2 ^ 127)"

definition u32_max :: nat where "u32_max = 2 ^ 32 - 1"

definition u64_max :: nat where "u64_max = 2 ^ 64 - 1"

definition fits_i128 :: "int \<Rightarrow> bool" where
  "fits_i128 x \<longleftrightarrow> i128_min \<le> x \<and> x \<le> i128_max"

definition checked_i128 :: "int \<Rightarrow> int option" where
  "checked_i128 x = (if fits_i128 x then Some x else None)"

definition checked_u128 :: "int \<Rightarrow> int option" where
  "checked_u128 x = (if 0 \<le> x \<and> x < 2 ^ 128 then Some x else None)"

definition checked_nat :: "nat \<Rightarrow> nat \<Rightarrow> nat option" where
  "checked_nat m x = (if x \<le> m then Some x else None)"

definition saturating_i128 :: "int \<Rightarrow> int" where
  "saturating_i128 x = max i128_min (min i128_max x)"

definition sat_add :: "nat \<Rightarrow> nat \<Rightarrow> nat \<Rightarrow> nat" where
  "sat_add m a b = min m (a + b)"

definition arith :: "int \<Rightarrow> ('e, int) result" where
  "arith x = (if fits_i128 x then Inr x else Inl (Trap ''arithmetic overflow''))"

definition as_u128 :: "int \<Rightarrow> int" where
  "as_u128 x = x mod 2 ^ 128"

definition as_i128 :: "int \<Rightarrow> int" where
  "as_i128 x = (let u = x mod 2 ^ 128 in if u \<le> i128_max then u else u - 2 ^ 128)"

named_theorems rust_int \<open>definitions of the Rust integer bounds\<close>

declare i128_max_def [rust_int] i128_min_def [rust_int] u32_max_def [rust_int]
  u64_max_def [rust_int] fits_i128_def [rust_int]

lemma checked_i128_Some [simp]: "checked_i128 x = Some y \<longleftrightarrow> fits_i128 x \<and> y = x"
  by (auto simp: checked_i128_def)

lemma checked_i128_None [simp]: "checked_i128 x = None \<longleftrightarrow> \<not> fits_i128 x"
  by (auto simp: checked_i128_def)

lemma arith_eq_Inr [result_simps]: "arith x = Inr y \<longleftrightarrow> fits_i128 x \<and> y = x"
  by (auto simp: arith_def)

lemma arith_fits [simp]: "fits_i128 x \<Longrightarrow> arith x = Inr x"
  by (simp add: arith_def)

lemma fits_i128_nonneg: "0 \<le> x \<Longrightarrow> fits_i128 x \<longleftrightarrow> x \<le> i128_max"
  by (simp add: rust_int)

lemma fits_i128_between: "fits_i128 a \<Longrightarrow> fits_i128 b \<Longrightarrow> a \<le> x \<Longrightarrow> x \<le> b \<Longrightarrow> fits_i128 x"
  by (simp add: fits_i128_def)

lemma fits_i128_0 [simp]: "fits_i128 0"
  by (simp add: rust_int)

lemma i128_max_pos [simp]: "0 < i128_max" "0 \<le> i128_max"
  by (simp_all add: rust_int)

lemma as_u128_id [simp]: "0 \<le> x \<Longrightarrow> x \<le> i128_max \<Longrightarrow> as_u128 x = x"
  by (simp add: as_u128_def rust_int)

lemma as_i128_id [simp]: "0 \<le> x \<Longrightarrow> x \<le> i128_max \<Longrightarrow> as_i128 x = x"
  by (simp add: as_i128_def rust_int)

lemma as_i128_as_u128: "fits_i128 x \<Longrightarrow> as_i128 (as_u128 x) = x"
proof (cases "0 \<le> x")
  case True
  assume "fits_i128 x"
  with True show ?thesis by (simp add: fits_i128_nonneg)
next
  case False
  assume fx: "fits_i128 x"
  have "(x + 2 ^ 128) mod 2 ^ 128 = x + 2 ^ 128"
    using False fx by (intro mod_pos_pos_trivial) (simp_all add: rust_int)
  then have "x mod 2 ^ 128 = x + 2 ^ 128" by simp
  then show ?thesis using False fx by (simp add: as_i128_def as_u128_def rust_int Let_def)
qed

text \<open>Rust's \<open>/\<close> on signed integers truncates towards zero; on the non-negative amounts the
  contracts divide it agrees with \<open>div\<close>.\<close>

lemma sdiv_nonneg [simp]: "0 \<le> a \<Longrightarrow> 0 \<le> b \<Longrightarrow> (a::int) sdiv b = a div b"
  by (cases "a = 0 \<or> b = 0") (auto simp: signed_divide_int_def sgn_if)

lemma smod_nonneg [simp]: "0 \<le> a \<Longrightarrow> 0 \<le> b \<Longrightarrow> (a::int) smod b = a mod b"
  by (cases "a = 0") (auto simp: signed_modulo_int_def minus_div_mult_eq_mod)

lemma div_le_self_int: "0 \<le> (a::int) \<Longrightarrow> 1 \<le> d \<Longrightarrow> a div d \<le> a"
  using zdiv_mono2 [of a 1 d] by simp

lemma bps_share_le:
  assumes "0 \<le> (a::int)" and "0 \<le> b" and "b \<le> d" and "0 < d"
  shows "a * b div d \<le> a"
proof -
  have "a * b \<le> a * d" using assms by (simp add: mult_left_mono)
  then have "a * b div d \<le> a * d div d" using assms(4) by (rule zdiv_mono1)
  then show ?thesis using assms(4) by simp
qed


section \<open>The ledger environment\<close>

text \<open>
  \<open>env.ledger()\<close>, \<open>env.current_contract_address()\<close> and the authorisations of the invocation.
  \<open>auth\<close> says for which addresses \<open>require_auth\<close> succeeds.
\<close>

type_synonym addr = nat

record ledger_env =
  timestamp :: nat
  sequence :: nat
  self_addr :: addr
  auth :: "addr \<Rightarrow> bool"

definition require_auth :: "('x) ledger_env_scheme \<Rightarrow> addr \<Rightarrow> ('e, unit) result" where
  "require_auth e a = ensure (auth e a) (Trap ''auth'')"

lemma require_auth_eq_Inr [result_simps]: "require_auth e a = Inr u \<longleftrightarrow> auth e a"
  by (simp add: require_auth_def result_simps)

lemma require_auth_eq_Inl [result_simps]:
  "require_auth e a = Inl f \<longleftrightarrow> \<not> auth e a \<and> f = Trap ''auth''"
  by (simp add: require_auth_def result_simps)

lemma require_auth_simps [simp]: "auth e a \<Longrightarrow> require_auth e a = Inr ()"
  by (simp add: require_auth_def)


section \<open>Lists and sums\<close>

lemma sum_list_update:
  fixes xs :: "int list"
  assumes "i < length xs"
  shows "sum_list (xs[i := v]) = sum_list xs - xs ! i + v"
  using assms by (induction xs arbitrary: i) (auto split: nat.splits)

lemma sum_list_nonneg_member: "(\<And>x. x \<in> set xs \<Longrightarrow> 0 \<le> (x::int)) \<Longrightarrow> y \<in> set xs \<Longrightarrow> y \<le> sum_list xs"
  by (induction xs) (auto intro: add_increasing add_increasing2 sum_list_nonneg)

lemma sum_list_filter_split:
  "sum_list (map f xs) = sum_list (map f (filter P xs)) + sum_list (map f (filter (\<lambda>x. \<not> P x) xs))"
  for f :: "'a \<Rightarrow> int"
  by (induction xs) auto



section \<open>Runs of a contract\<close>

text \<open>
  A contract is driven by a sequence of invocations, each with its own environment. An invocation
  that fails is rolled back by the host, so the run continues from the state before it.
\<close>

fun run :: "('e \<Rightarrow> 'c \<Rightarrow> 's \<Rightarrow> 'f + 's) \<Rightarrow> ('e \<times> 'c) list \<Rightarrow> 's \<Rightarrow> 's" where
  "run ex [] s = s"
| "run ex ((e, c) # xs) s = run ex xs (case ex e c s of Inl _ \<Rightarrow> s | Inr s' \<Rightarrow> s')"

lemma run_append: "run ex (xs @ ys) s = run ex ys (run ex xs s)"
  by (induction ex xs s rule: run.induct) auto

text \<open>
  The interface every contract model offers to the invariant argument: an initial state, the
  execution of one invocation, the environments that can occur, and an invariant that the initial
  state has and every successful invocation keeps.
\<close>

locale contract_machine =
  fixes ex :: "'e \<Rightarrow> 'c \<Rightarrow> 's \<Rightarrow> 'f + 's"
    and init :: "'s"
    and env_ok :: "'e \<Rightarrow> bool"
    and invar :: "'s \<Rightarrow> bool"
  assumes invar_init: "invar init"
    and invar_step: "env_ok e \<Longrightarrow> invar s \<Longrightarrow> ex e c s = Inr s' \<Longrightarrow> invar s'"
begin

lemma invar_next:
  "env_ok e \<Longrightarrow> invar s \<Longrightarrow> invar (case ex e c s of Inl _ \<Rightarrow> s | Inr s' \<Rightarrow> s')"
  using invar_step by (cases "ex e c s") auto

lemma invar_run_from:
  assumes "invar s" and "list_all (\<lambda>(e, c). env_ok e) xs"
  shows "invar (run ex xs s)"
  using assms by (induction xs arbitrary: s) (auto simp: invar_next)

lemma invar_run: "list_all (\<lambda>(e, c). env_ok e) xs \<Longrightarrow> invar (run ex xs init)"
  by (rule invar_run_from [OF invar_init])

end

text \<open>
  A machine whose steps respect a preorder \<open>evol\<close> (for example: a closed invoice never reopens);
  then whole runs respect it.
\<close>

locale evolving_machine = contract_machine ex init env_ok invar
  for ex :: "'e \<Rightarrow> 'c \<Rightarrow> 's \<Rightarrow> 'f + 's" and init env_ok invar +
  fixes evol :: "'s \<Rightarrow> 's \<Rightarrow> bool"
  assumes evol_refl: "evol s s"
    and evol_trans: "evol s t \<Longrightarrow> evol t u \<Longrightarrow> evol s u"
    and evol_step: "env_ok e \<Longrightarrow> invar s \<Longrightarrow> ex e c s = Inr s' \<Longrightarrow> evol s s'"
begin

lemma evol_next:
  "env_ok e \<Longrightarrow> invar s \<Longrightarrow> evol s (case ex e c s of Inl _ \<Rightarrow> s | Inr s' \<Rightarrow> s')"
  using evol_step evol_refl by (cases "ex e c s") auto

lemma evol_run_from:
  assumes "invar s" and "list_all (\<lambda>(e, c). env_ok e) xs"
  shows "evol s (run ex xs s)"
  using assms
proof (induction xs arbitrary: s)
  case Nil
  then show ?case by (simp add: evol_refl)
next
  case (Cons x xs)
  obtain e c where x: "x = (e, c)" by (cases x)
  let ?s1 = "case ex e c s of Inl _ \<Rightarrow> s | Inr s' \<Rightarrow> s'"
  have ok: "env_ok e" using Cons.prems(2) x by simp
  have "evol ?s1 (run ex xs ?s1)"
    using Cons.IH [OF invar_next [OF ok Cons.prems(1)]] Cons.prems(2) by simp
  from evol_trans [OF evol_next [OF ok Cons.prems(1)] this] show ?case by (simp add: x)
qed

lemma evol_run: "list_all (\<lambda>(e, c). env_ok e) (xs @ ys) \<Longrightarrow> evol (run ex xs init) (run ex (xs @ ys) init)"
  using evol_run_from [OF invar_run, of xs ys] by (simp add: run_append)

end

text \<open>
  A machine that refines an abstract one: \<open>abs\<close> maps its states to abstract states, and every successful
  invocation makes an abstract step. A run is then mirrored by a run of the abstract machine in which
  an invocation either makes its step or is rolled back.
\<close>

inductive abs_run :: "('e \<Rightarrow> 'c \<Rightarrow> 'a \<Rightarrow> 'a \<Rightarrow> bool) \<Rightarrow> ('e \<times> 'c) list \<Rightarrow> 'a \<Rightarrow> 'a \<Rightarrow> bool" for step where
  abs_done: "abs_run step [] a a"
| abs_step: "step e c a b \<Longrightarrow> abs_run step xs b d \<Longrightarrow> abs_run step ((e, c) # xs) a d"
| abs_rolled_back: "abs_run step xs a d \<Longrightarrow> abs_run step ((e, c) # xs) a d"

locale refined_machine = contract_machine ex init env_ok invar
  for ex :: "'e \<Rightarrow> 'c \<Rightarrow> 's \<Rightarrow> 'f + 's" and init env_ok invar +
  fixes abs :: "'s \<Rightarrow> 'a"
    and step :: "'e \<Rightarrow> 'c \<Rightarrow> 'a \<Rightarrow> 'a \<Rightarrow> bool"
  assumes refine_step: "env_ok e \<Longrightarrow> invar s \<Longrightarrow> ex e c s = Inr s' \<Longrightarrow> step e c (abs s) (abs s')"
begin

lemma refine_run_from:
  assumes "invar s" and "list_all (\<lambda>(e, c). env_ok e) xs"
  shows "abs_run step xs (abs s) (abs (run ex xs s))"
  using assms
proof (induction xs arbitrary: s)
  case Nil
  show ?case by (simp add: abs_done)
next
  case (Cons x xs)
  obtain e c where x: "x = (e, c)" by (cases x)
  have ok: "env_ok e" and rest: "list_all (\<lambda>(e, c). env_ok e) xs" using Cons.prems(2) x by simp_all
  show ?case
  proof (cases "ex e c s")
    case (Inl f)
    then show ?thesis using Cons.IH [OF Cons.prems(1) rest] by (simp add: x abs_rolled_back)
  next
    case (Inr s')
    have "abs_run step xs (abs s') (abs (run ex xs s'))"
      using Cons.IH [OF invar_step [OF ok Cons.prems(1) Inr] rest] .
    then show ?thesis
      using abs_step [of step e c "abs s" "abs s'"] refine_step [OF ok Cons.prems(1) Inr] Inr by (simp add: x)
  qed
qed

lemma refine_run: "list_all (\<lambda>(e, c). env_ok e) xs \<Longrightarrow> abs_run step xs (abs init) (abs (run ex xs init))"
  by (rule refine_run_from [OF invar_init])

end

end
