(* ===== verification/Split_Error.thy ===== *)
theory Split_Error
  imports Soroban_Base
begin

text \<open>
  The error enum of the split contract (\<open>contracts/split/src/error.rs\<close>): every variant, with the
  stable numeric code the host reports for it.
\<close>

datatype contract_error =
    NotAuthorized
  | InvoiceNotFound
  | DeadlinePassed
  | AlreadyFunded
  | InvalidAmount
  | InvoiceFrozen
  | InvalidStatus
  | PayerNotAllowed
  | FundingInsufficient
  | OracleCallFailed
  | NotArbiter
  | NotDisputed
  | AlreadyExecuted
  | TimelockPending
  | ContractPaused
  | InvalidRecipients
  | PrerequisiteNotMet
  | BatchLimitExceeded
  | RecipientAlreadyPaid
  | FundsLockedUntil
  | StatsOverflow
  | OracleUnavailable
  | InvalidRating
  | AlreadyRated
  | RateLimitExceeded
  | RecipientRevealMismatch
  | PayoutNotYetClaimable
  | ContractFrozen
  | DuplicatePayment
  | GroupMemberExpired
  | SlippageExceeded
  | InvalidPhaseTransition
  | MemoMismatch
  | CreatorCooldownActive
  | InvoiceFullyFunded
  | InvalidRatioSum
  | EmptyRecipientList
  | ReentrantCall
  | RoleNotHeld
  | ArithmeticOverflow
  | ZeroAmountNotAllowed
  | ContributorNotAllowed
  | UnauthorisedToken
  | DependencyNotMet
  | CircularDependency
  | SourceContractRateLimited
  | FeeSumExceedsCap
  | InvoiceDeleted
  | FundsUnclaimed
  | NotDeleted
  | InvalidStateTransition
  | InvalidRatio
  | MigrationRequired
  | DuplicateRecipient
  | SplitRatioLocked
  | RecipientMissingTrustline
  | CreatorInvoiceLimitReached
  | CoCreatorLimitReached
  | InvoiceDisputed
  | PayerSpendLimitExceeded
  | RecipientAccountMissing
  | RecipientNotFound
  | ParentChainTooDeep
  | CheckpointMismatch
  | AlreadyPaid
  | TooFewRecipients
  | InvalidSignature
  | MissingSignature
  | SignatureReplayed
  | SignatureExpired
  | InvalidOracleAddress
  | OracleConditionNotMet
  | OracleFeedNotFound
  | InvalidArgument
  | MissingStorageEntry
  | UnsupportedOperation
  | RecoveryIncomplete
  | InvalidDeadline
  | InvalidRecipientAddress
  | InvalidOracleCondition
  | InvalidShardIndex
  | ShardCapacityExceeded

type_synonym 'a split_result = "(contract_error, 'a) result"

text \<open>\<open>#[repr(u32)]\<close>: the discriminant of each variant.\<close>

primrec error_code :: "contract_error \<Rightarrow> nat" where
  "error_code NotAuthorized = 1"
| "error_code InvoiceNotFound = 2"
| "error_code DeadlinePassed = 3"
| "error_code AlreadyFunded = 4"
| "error_code InvalidAmount = 5"
| "error_code InvoiceFrozen = 6"
| "error_code InvalidStatus = 7"
| "error_code PayerNotAllowed = 8"
| "error_code FundingInsufficient = 9"
| "error_code OracleCallFailed = 10"
| "error_code NotArbiter = 11"
| "error_code NotDisputed = 12"
| "error_code AlreadyExecuted = 13"
| "error_code TimelockPending = 14"
| "error_code ContractPaused = 15"
| "error_code InvalidRecipients = 16"
| "error_code PrerequisiteNotMet = 17"
| "error_code BatchLimitExceeded = 18"
| "error_code RecipientAlreadyPaid = 19"
| "error_code FundsLockedUntil = 20"
| "error_code StatsOverflow = 21"
| "error_code OracleUnavailable = 22"
| "error_code InvalidRating = 23"
| "error_code AlreadyRated = 24"
| "error_code RateLimitExceeded = 25"
| "error_code RecipientRevealMismatch = 26"
| "error_code PayoutNotYetClaimable = 27"
| "error_code ContractFrozen = 28"
| "error_code DuplicatePayment = 29"
| "error_code GroupMemberExpired = 30"
| "error_code SlippageExceeded = 31"
| "error_code InvalidPhaseTransition = 32"
| "error_code MemoMismatch = 33"
| "error_code CreatorCooldownActive = 34"
| "error_code InvoiceFullyFunded = 35"
| "error_code InvalidRatioSum = 36"
| "error_code EmptyRecipientList = 37"
| "error_code ReentrantCall = 38"
| "error_code RoleNotHeld = 39"
| "error_code ArithmeticOverflow = 40"
| "error_code ZeroAmountNotAllowed = 41"
| "error_code ContributorNotAllowed = 42"
| "error_code UnauthorisedToken = 43"
| "error_code DependencyNotMet = 44"
| "error_code CircularDependency = 45"
| "error_code SourceContractRateLimited = 46"
| "error_code FeeSumExceedsCap = 47"
| "error_code InvoiceDeleted = 48"
| "error_code FundsUnclaimed = 49"
| "error_code NotDeleted = 50"
| "error_code InvalidStateTransition = 52"
| "error_code InvalidRatio = 53"
| "error_code MigrationRequired = 54"
| "error_code DuplicateRecipient = 55"
| "error_code SplitRatioLocked = 56"
| "error_code RecipientMissingTrustline = 51"
| "error_code CreatorInvoiceLimitReached = 57"
| "error_code CoCreatorLimitReached = 58"
| "error_code InvoiceDisputed = 59"
| "error_code PayerSpendLimitExceeded = 60"
| "error_code RecipientAccountMissing = 61"
| "error_code RecipientNotFound = 62"
| "error_code ParentChainTooDeep = 63"
| "error_code CheckpointMismatch = 64"
| "error_code AlreadyPaid = 65"
| "error_code TooFewRecipients = 66"
| "error_code InvalidSignature = 67"
| "error_code MissingSignature = 68"
| "error_code SignatureReplayed = 69"
| "error_code SignatureExpired = 70"
| "error_code InvalidOracleAddress = 71"
| "error_code OracleConditionNotMet = 72"
| "error_code OracleFeedNotFound = 73"
| "error_code InvalidArgument = 74"
| "error_code MissingStorageEntry = 75"
| "error_code UnsupportedOperation = 76"
| "error_code RecoveryIncomplete = 77"
| "error_code InvalidDeadline = 78"
| "error_code InvalidRecipientAddress = 79"
| "error_code InvalidOracleCondition = 80"
| "error_code InvalidShardIndex = 81"
| "error_code ShardCapacityExceeded = 82"

text \<open>The inverse a caller uses to decode a reported code.\<close>

definition all_errors :: "contract_error list" where
  "all_errors = [NotAuthorized, InvoiceNotFound, DeadlinePassed, AlreadyFunded, InvalidAmount,
    InvoiceFrozen, InvalidStatus, PayerNotAllowed, FundingInsufficient, OracleCallFailed,
    NotArbiter, NotDisputed, AlreadyExecuted, TimelockPending, ContractPaused,
    InvalidRecipients, PrerequisiteNotMet, BatchLimitExceeded, RecipientAlreadyPaid, FundsLockedUntil,
    StatsOverflow, OracleUnavailable, InvalidRating, AlreadyRated, RateLimitExceeded,
    RecipientRevealMismatch, PayoutNotYetClaimable, ContractFrozen, DuplicatePayment, GroupMemberExpired,
    SlippageExceeded, InvalidPhaseTransition, MemoMismatch, CreatorCooldownActive, InvoiceFullyFunded,
    InvalidRatioSum, EmptyRecipientList, ReentrantCall, RoleNotHeld, ArithmeticOverflow,
    ZeroAmountNotAllowed, ContributorNotAllowed, UnauthorisedToken, DependencyNotMet, CircularDependency,
    SourceContractRateLimited, FeeSumExceedsCap, InvoiceDeleted, FundsUnclaimed, NotDeleted,
    InvalidStateTransition, InvalidRatio, MigrationRequired, DuplicateRecipient, SplitRatioLocked,
    RecipientMissingTrustline, CreatorInvoiceLimitReached, CoCreatorLimitReached, InvoiceDisputed, PayerSpendLimitExceeded,
    RecipientAccountMissing, RecipientNotFound, ParentChainTooDeep, CheckpointMismatch, AlreadyPaid,
    TooFewRecipients, InvalidSignature, MissingSignature, SignatureReplayed, SignatureExpired,
    InvalidOracleAddress, OracleConditionNotMet, OracleFeedNotFound, InvalidArgument, MissingStorageEntry,
    UnsupportedOperation, RecoveryIncomplete, InvalidDeadline, InvalidRecipientAddress, InvalidOracleCondition,
    InvalidShardIndex, ShardCapacityExceeded]"

lemma all_errors_complete: "e \<in> set all_errors"
  by (cases e) (simp_all add: all_errors_def)

lemma distinct_error_codes: "distinct (map error_code all_errors)"
  by (simp add: all_errors_def)

lemma error_code_inject: "error_code e = error_code f \<longleftrightarrow> e = f"
  using distinct_error_codes all_errors_complete [of e] all_errors_complete [of f]
  by (metis distinct_map inj_onD)

end
