(* ===== verification/Fixed_Point.thy ===== *)
theory Fixed_Point
  imports Split_Error
begin

text \<open>
  Model of \<open>contracts/split/src/math.rs\<close>: the fixed-point type, the overflow-safe products and
  the token-decimal normalisation used by the split arithmetic. An \<open>i128\<close> is an \<^typ>\<open>int\<close> whose
  range every operation checks; \<open>u32\<close> decimals are \<^typ>\<open>nat\<close>.
\<close>

section \<open>Definitions\<close>

definition CANONICAL_DECIMALS :: nat where "CANONICAL_DECIMALS = 7"

definition SCALE :: int where "SCALE = 10000000"

definition BPS_DENOMINATOR :: int where "BPS_DENOMINATOR = 10000"

abbreviation overflow :: "contract_error fault" where
  "overflow \<equiv> Err ArithmeticOverflow"

record fixed_point = fp_raw :: int

definition from_raw :: "int \<Rightarrow> fixed_point" where
  "from_raw raw = \<lparr>fp_raw = raw\<rparr>"

definition to_raw :: "fixed_point \<Rightarrow> int" where
  "to_raw x = fp_raw x"

definition fp_ZERO :: fixed_point where "fp_ZERO = from_raw 0"

definition fp_ONE :: fixed_point where "fp_ONE = from_raw SCALE"

definition from_integer :: "int \<Rightarrow> fixed_point split_result" where
  "from_integer whole =
    (if whole < 0 then Inl overflow
     else bindr (ok_or (checked_i128 (whole * SCALE)) overflow) (\<lambda>raw. Inr (from_raw raw)))"

definition to_integer :: "fixed_point \<Rightarrow> int" where
  "to_integer x = fp_raw x sdiv SCALE"

definition fp_checked_add :: "fixed_point \<Rightarrow> fixed_point \<Rightarrow> fixed_point split_result" where
  "fp_checked_add x y =
    bindr (ok_or (checked_i128 (fp_raw x + fp_raw y)) overflow) (\<lambda>raw. Inr (from_raw raw))"

definition fp_checked_sub :: "fixed_point \<Rightarrow> fixed_point \<Rightarrow> fixed_point split_result" where
  "fp_checked_sub x y =
    bindr (ok_or (checked_i128 (fp_raw x - fp_raw y)) overflow)
      (\<lambda>raw. if raw < 0 then Inl overflow else Inr (from_raw raw))"

definition fp_checked_mul :: "fixed_point \<Rightarrow> fixed_point \<Rightarrow> fixed_point split_result" where
  "fp_checked_mul x y =
    bindr (ok_or (checked_i128 (fp_raw x * fp_raw y)) overflow)
      (\<lambda>product. Inr (from_raw (product sdiv SCALE)))"

text \<open>The quotient \<open>scaled / other.0\<close> overflows only for \<open>i128::MIN / -1\<close>, where Rust traps.\<close>

definition fp_checked_div :: "fixed_point \<Rightarrow> fixed_point \<Rightarrow> fixed_point split_result" where
  "fp_checked_div x y =
    (if fp_raw y = 0 then Inl overflow
     else bindr (ok_or (checked_i128 (fp_raw x * SCALE)) overflow)
       (\<lambda>scaled. bindr (arith (scaled sdiv fp_raw y)) (\<lambda>q. Inr (from_raw q))))"

definition fp_try_from :: "int \<Rightarrow> fixed_point split_result" where
  "fp_try_from raw = (if raw < 0 then Inl overflow else Inr (from_raw raw))"

definition mul_div :: "int \<Rightarrow> int \<Rightarrow> int \<Rightarrow> int split_result" where
  "mul_div a b d =
    (if d \<le> 0 then Inl overflow
     else if a < 0 \<or> b < 0 then Inl overflow
     else (case checked_i128 (a * b) of
             Some product \<Rightarrow> Inr (product div d)
           | None \<Rightarrow> Inl overflow))"

definition mul_mod :: "int \<Rightarrow> int \<Rightarrow> int \<Rightarrow> int split_result" where
  "mul_mod a b d =
    (if d \<le> 0 then Inl overflow
     else (case checked_i128 (a * b) of
             Some product \<Rightarrow> Inr (product mod d)
           | None \<Rightarrow>
               if a < 0 \<or> b < 0 then Inl overflow
               else bindr (ok_or (checked_i128 ((a smod d) * (b smod d))) overflow)
                 (\<lambda>reduced. Inr (reduced smod d))))"

definition bps_of :: "int \<Rightarrow> int \<Rightarrow> int" where
  "bps_of part whole =
    (if whole \<le> 0 then 0
     else (case mul_div part BPS_DENOMINATOR whole of
             Inr bps \<Rightarrow> bps
           | Inl _ \<Rightarrow> part sdiv (max (whole sdiv BPS_DENOMINATOR) 1)))"

definition normalize_amount :: "int \<Rightarrow> nat \<Rightarrow> int split_result" where
  "normalize_amount raw decimals =
    (if raw < 0 then Inl overflow
     else if decimals = CANONICAL_DECIMALS then Inr raw
     else if decimals < CANONICAL_DECIMALS then
       bindr (ok_or (checked_i128 (10 ^ (CANONICAL_DECIMALS - decimals))) overflow) (\<lambda>factor.
       bindr (ok_or (checked_i128 (raw * factor)) overflow) (\<lambda>res.
       Inr (to_raw (from_raw res))))
     else
       bindr (ok_or (checked_i128 (10 ^ (decimals - CANONICAL_DECIMALS))) overflow) (\<lambda>factor.
       bindr (ok_or (checked_i128 (raw sdiv factor)) overflow) (\<lambda>res.
       Inr (to_raw (from_raw res)))))"

definition denormalize_amount :: "int \<Rightarrow> nat \<Rightarrow> int split_result" where
  "denormalize_amount normalized decimals =
    (if normalized < 0 then Inl overflow
     else if decimals = CANONICAL_DECIMALS then Inr normalized
     else if decimals < CANONICAL_DECIMALS then
       bindr (ok_or (checked_i128 (10 ^ (CANONICAL_DECIMALS - decimals))) overflow) (\<lambda>factor.
       bindr (ok_or (checked_i128 (normalized sdiv factor)) overflow) (\<lambda>res.
       Inr (to_raw (from_raw res))))
     else
       bindr (ok_or (checked_i128 (10 ^ (decimals - CANONICAL_DECIMALS))) overflow) (\<lambda>factor.
       bindr (ok_or (checked_i128 (normalized * factor)) overflow) (\<lambda>res.
       Inr (to_raw (from_raw res)))))"


section \<open>Products and remainders\<close>

lemma BPS_pos [simp]: "0 < BPS_DENOMINATOR" "0 \<le> BPS_DENOMINATOR"
  by (simp_all add: BPS_DENOMINATOR_def)

lemma SCALE_pos [simp]: "0 < SCALE" "0 \<le> SCALE" "SCALE \<noteq> 0"
  by (simp_all add: SCALE_def)

lemma mul_div_eq_Inr:
  "mul_div a b d = Inr q \<longleftrightarrow>
    0 < d \<and> 0 \<le> a \<and> 0 \<le> b \<and> a * b \<le> i128_max \<and> q = a * b div d"
  by (auto simp: mul_div_def fits_i128_nonneg split: option.splits)

lemma mul_div_ok [simp]:
  "0 < d \<Longrightarrow> 0 \<le> a \<Longrightarrow> 0 \<le> b \<Longrightarrow> a * b \<le> i128_max \<Longrightarrow> mul_div a b d = Inr (a * b div d)"
  by (simp add: mul_div_eq_Inr)

lemma mul_mod_direct [simp]:
  "0 < d \<Longrightarrow> 0 \<le> a \<Longrightarrow> 0 \<le> b \<Longrightarrow> a * b \<le> i128_max \<Longrightarrow> mul_mod a b d = Inr (a * b mod d)"
  by (simp add: mul_mod_def fits_i128_nonneg checked_i128_def)

lemma mul_mod_eq_Inr:
  assumes "mul_mod a b d = Inr r"
  shows "0 < d \<and> r = a * b mod d"
proof (cases "fits_i128 (a * b)")
  case True
  with assms show ?thesis by (auto simp: mul_mod_def checked_i128_def split: if_splits)
next
  case False
  with assms have d: "0 < d" and ab: "0 \<le> a" "0 \<le> b"
    by (auto simp: mul_mod_def checked_i128_def split: if_splits)
  have red: "0 \<le> (a mod d) * (b mod d)" using d by simp
  from assms False d ab have "r = ((a mod d) * (b mod d)) smod d"
    by (auto simp: mul_mod_def checked_i128_def result_simps split: if_splits)
  with red d have "r = (a mod d) * (b mod d) mod d" by simp
  with d show ?thesis by (simp add: mod_mult_eq)
qed

text \<open>
  When the product overflows, the reduced product is used; it fits as soon as the denominator is
  below \<open>2 ^ 63\<close>, so the remainder is then computed for every pair of non-negative inputs.
\<close>

lemma mul_mod_small_denominator:
  assumes "0 < d" and "d \<le> 2 ^ 63" and "0 \<le> a" and "0 \<le> b"
  shows "mul_mod a b d = Inr (a * b mod d)"
proof (cases "fits_i128 (a * b)")
  case True
  with assms show ?thesis by (simp add: mul_mod_def checked_i128_def)
next
  case False
  have "(a mod d) * (b mod d) \<le> 2 ^ 63 * 2 ^ 63"
    using assms by (intro mult_mono) (auto intro: order_trans [OF less_imp_le [OF pos_mod_bound]])
  then have fits: "fits_i128 ((a mod d) * (b mod d))"
    using assms by (simp add: fits_i128_nonneg i128_max_def)
  with False assms show ?thesis
    by (simp add: mul_mod_def checked_i128_def mod_mult_eq)
qed

lemma mul_div_mul_mod:
  assumes "mul_div a b d = Inr q" and "mul_mod a b d = Inr r"
  shows "a * b = q * d + r \<and> 0 \<le> r \<and> r < d"
  using assms by (auto simp: mul_div_eq_Inr dest: mul_mod_eq_Inr)


section \<open>Basis points\<close>

lemma bps_of_exact:
  assumes "0 < whole" and "0 \<le> part" and "part * 10000 \<le> i128_max"
  shows "bps_of part whole = part * 10000 div whole"
  using assms by (simp add: bps_of_def mul_div_eq_Inr BPS_DENOMINATOR_def)

lemma bps_of_nonneg: "0 \<le> part \<Longrightarrow> 0 \<le> bps_of part whole"
  by (auto simp: bps_of_def mul_div_eq_Inr pos_imp_zdiv_nonneg_iff split: sum.splits)

text \<open>
  The fallback branch divides the denominator first. It never undershoots the exact quotient.
\<close>

lemma bps_of_fallback:
  assumes "0 < whole" and "0 \<le> part" and "i128_max < part * 10000"
  shows "bps_of part whole = part div max (whole div 10000) 1"
proof -
  have "mul_div part BPS_DENOMINATOR whole = Inl overflow"
    using assms by (simp add: mul_div_def checked_i128_def fits_i128_nonneg BPS_DENOMINATOR_def)
  then show ?thesis using assms by (simp add: bps_of_def BPS_DENOMINATOR_def)
qed


section \<open>Fixed-point arithmetic\<close>

lemmas fp_defs = from_raw_def to_raw_def fp_ZERO_def fp_ONE_def from_integer_def to_integer_def
  fp_checked_add_def fp_checked_sub_def fp_checked_mul_def fp_checked_div_def fp_try_from_def

lemma from_integer_eq_Inr:
  "from_integer n = Inr x \<longleftrightarrow> 0 \<le> n \<and> n * SCALE \<le> i128_max \<and> x = from_raw (n * SCALE)"
  by (auto simp: from_integer_def result_simps fits_i128_nonneg)

lemma fp_checked_mul_eq_Inr:
  assumes "0 \<le> fp_raw x" and "0 \<le> fp_raw y"
  shows "fp_checked_mul x y = Inr z \<longleftrightarrow>
    fp_raw x * fp_raw y \<le> i128_max \<and> z = from_raw (fp_raw x * fp_raw y div SCALE)"
  using assms by (auto simp: fp_checked_mul_def result_simps fits_i128_nonneg)

lemma fp_checked_div_eq_Inr:
  assumes "0 \<le> fp_raw x" and "0 < fp_raw y"
  shows "fp_checked_div x y = Inr z \<longleftrightarrow>
    fp_raw x * SCALE \<le> i128_max \<and> z = from_raw (fp_raw x * SCALE div fp_raw y)"
proof -
  have "0 \<le> fp_raw x * SCALE div fp_raw y" "fp_raw x * SCALE div fp_raw y \<le> fp_raw x * SCALE"
    using assms by (simp_all add: pos_imp_zdiv_nonneg_iff div_le_self_int)
  then have "fp_raw x * SCALE \<le> i128_max \<Longrightarrow> fits_i128 (fp_raw x * SCALE div fp_raw y)"
    by (simp add: fits_i128_nonneg)
  then show ?thesis
    using assms by (auto simp: fp_checked_div_def result_simps fits_i128_nonneg)
qed

text \<open>
  C15: for a non-negative operand and a positive factor, fixed-point multiplication followed by
  division by the same factor loses at most the sub-scale digits that the multiplication truncates:
  the quotient \<open>q\<close> never exceeds the
  first operand, and equals it whenever the product is a multiple of \<open>SCALE\<close>.
\<close>

theorem fp_mul_div_roundtrip:
  assumes "0 \<le> fp_raw x" and "0 < fp_raw y"
    and "fp_checked_mul x y = Inr p" and "fp_checked_div p y = Inr q"
  shows "fp_raw q \<le> fp_raw x \<and> (SCALE dvd fp_raw x * fp_raw y \<longrightarrow> q = from_raw (fp_raw x))
    \<and> fp_raw x * fp_raw y < (fp_raw q + 1) * fp_raw y + SCALE"
proof -
  let ?P = "fp_raw x * fp_raw y"
  from assms have p: "fp_raw p = ?P div SCALE"
    by (simp add: fp_checked_mul_eq_Inr from_raw_def)
  then have "0 \<le> fp_raw p" using assms(1,2) by (simp add: pos_imp_zdiv_nonneg_iff)
  with assms(2,4) p have q: "q = from_raw (?P div SCALE * SCALE div fp_raw y)"
    by (simp add: fp_checked_div_eq_Inr)
  have le: "?P div SCALE * SCALE \<le> ?P"
    by (metis SCALE_pos(1) add_le_same_cancel1 div_mult_mod_eq le_add_same_cancel1 pos_mod_sign)
  then have "?P div SCALE * SCALE div fp_raw y \<le> ?P div fp_raw y"
    using assms(2) by (rule zdiv_mono1)
  then have upper: "fp_raw q \<le> fp_raw x" using q assms(2) by (simp add: from_raw_def)
  have exact: "SCALE dvd ?P \<longrightarrow> q = from_raw (fp_raw x)"
    using q assms(2) by simp
  have "?P < ?P div SCALE * SCALE + SCALE"
    using div_mult_mod_eq [of ?P SCALE] pos_mod_bound [OF SCALE_pos(1), of ?P] by linarith
  moreover have "?P div SCALE * SCALE < (fp_raw q + 1) * fp_raw y"
  proof -
    have "?P div SCALE * SCALE =
        fp_raw q * fp_raw y + (?P div SCALE * SCALE) mod fp_raw y"
      using q by (simp add: from_raw_def div_mult_mod_eq [symmetric])
    then show ?thesis using pos_mod_bound [OF assms(2), of "?P div SCALE * SCALE"]
      by (simp add: algebra_simps)
  qed
  ultimately have "?P < (fp_raw q + 1) * fp_raw y + SCALE" by linarith
  with upper exact show ?thesis by blast
qed

theorem fp_mul_div_roundtrip_witness:
  "fp_checked_mul (from_raw 70000000) (from_raw 30000000) = Inr (from_raw 210000000) \<and>
   fp_checked_div (from_raw 210000000) (from_raw 30000000) = Inr (from_raw 70000000)"
proof -
  have m: "fp_checked_mul (from_raw 70000000) (from_raw 30000000) = Inr (from_raw 210000000)"
    by (simp add: fp_checked_mul_def from_raw_def SCALE_def checked_i128_def rust_int)
  have d: "fp_checked_div (from_raw 210000000) (from_raw 30000000) = Inr (from_raw 70000000)"
    by (simp add: fp_checked_div_def from_raw_def SCALE_def checked_i128_def rust_int arith_def)
  from fp_mul_div_roundtrip [OF _ _ m d] show ?thesis
    using m d by (simp add: from_raw_def)
qed


section \<open>Token-decimal normalisation\<close>

lemma fits_pow10: "n \<le> 38 \<Longrightarrow> fits_i128 (10 ^ n)"
proof -
  assume "n \<le> 38"
  then have "(10::int) ^ n \<le> 10 ^ 38" by (intro power_increasing) simp_all
  then show ?thesis by (simp add: fits_i128_nonneg i128_max_def)
qed

lemma normalize_up:
  assumes "0 \<le> raw" and "d < 7"
  shows "normalize_amount raw d = (if raw * 10 ^ (7 - d) \<le> i128_max
    then Inr (raw * 10 ^ (7 - d)) else Inl overflow)"
  using assms fits_pow10 [of "7 - d"]
  by (auto simp: normalize_amount_def CANONICAL_DECIMALS_def checked_i128_def fits_i128_nonneg
      from_raw_def to_raw_def)

lemma normalize_down:
  assumes "0 \<le> raw" and "raw \<le> i128_max" and "7 < d" and "d \<le> 45"
  shows "normalize_amount raw d = Inr (raw div 10 ^ (d - 7))"
proof -
  have "0 \<le> raw div 10 ^ (d - 7)" "raw div 10 ^ (d - 7) \<le> raw"
    using assms(1) by (simp_all add: pos_imp_zdiv_nonneg_iff div_le_self_int)
  then have "fits_i128 (raw div 10 ^ (d - 7))" using assms(2) by (simp add: fits_i128_nonneg)
  then show ?thesis
    using assms fits_pow10 [of "d - 7"]
    by (simp add: normalize_amount_def CANONICAL_DECIMALS_def checked_i128_def from_raw_def to_raw_def)
qed

lemma denormalize_down:
  assumes "0 \<le> c" and "c \<le> i128_max" and "d < 7"
  shows "denormalize_amount c d = Inr (c div 10 ^ (7 - d))"
proof -
  have "0 \<le> c div 10 ^ (7 - d)" "c div 10 ^ (7 - d) \<le> c"
    using assms(1) by (simp_all add: pos_imp_zdiv_nonneg_iff div_le_self_int)
  then have "fits_i128 (c div 10 ^ (7 - d))" using assms(2) by (simp add: fits_i128_nonneg)
  then show ?thesis
    using assms fits_pow10 [of "7 - d"]
    by (simp add: denormalize_amount_def CANONICAL_DECIMALS_def checked_i128_def from_raw_def to_raw_def)
qed

lemma denormalize_up:
  assumes "0 \<le> c" and "7 < d" and "d \<le> 45"
  shows "denormalize_amount c d = (if c * 10 ^ (d - 7) \<le> i128_max
    then Inr (c * 10 ^ (d - 7)) else Inl overflow)"
  using assms fits_pow10 [of "d - 7"]
  by (auto simp: denormalize_amount_def CANONICAL_DECIMALS_def checked_i128_def fits_i128_nonneg
      from_raw_def to_raw_def)

text \<open>
  C14: the normalisation round trip. Normalising an \<open>i128\<close> amount of a token with at most 45
  decimals and denormalising it again gives the amount back for every token with at most the
  seven canonical decimals; for a token with more, it gives the amount rounded down to a multiple
  of \<open>10 ^ (d - 7)\<close>, and never fails on the way back.
\<close>

theorem normalize_roundtrip:
  assumes "raw \<le> i128_max" and "d \<le> 45" and "normalize_amount raw d = Inr c"
  shows "denormalize_amount c d = Inr (if d \<le> 7 then raw else raw - raw mod 10 ^ (d - 7))"
proof -
  have raw: "0 \<le> raw" using assms(3) by (auto simp: normalize_amount_def split: if_splits)
  consider "d < 7" | "d = 7" | "7 < d" by linarith
  then show ?thesis
  proof cases
    case 1
    with assms(3) raw have "c = raw * 10 ^ (7 - d)" and "c \<le> i128_max"
      by (auto simp: normalize_up split: if_splits)
    with 1 raw show ?thesis by (simp add: denormalize_down)
  next
    case 2
    with assms(3) raw show ?thesis
      by (simp add: normalize_amount_def denormalize_amount_def CANONICAL_DECIMALS_def)
  next
    case 3
    with assms raw have c: "c = raw div 10 ^ (d - 7)" by (simp add: normalize_down)
    then have "0 \<le> c" using raw by (simp add: pos_imp_zdiv_nonneg_iff)
    moreover have eq: "c * 10 ^ (d - 7) = raw - raw mod 10 ^ (d - 7)"
      using c by (simp add: minus_mod_eq_div_mult)
    moreover have "raw - raw mod 10 ^ (d - 7) \<le> i128_max"
    proof -
      have "0 \<le> raw mod 10 ^ (d - 7)" by (rule pos_mod_sign) simp
      with assms(1) show ?thesis by linarith
    qed
    ultimately show ?thesis using 3 assms(2) by (simp add: denormalize_up)
  qed
qed

theorem normalize_roundtrip_witness:
  "normalize_amount 1234567890123456789 18 = Inr 12345678 \<and>
   denormalize_amount 12345678 18 = Inr 1234567800000000000"
proof -
  have n: "normalize_amount 1234567890123456789 18 = Inr 12345678"
    by (simp add: normalize_down i128_max_def)
  have "denormalize_amount 12345678 18 = Inr (if (18::nat) \<le> 7 then 1234567890123456789
      else 1234567890123456789 - 1234567890123456789 mod 10 ^ (18 - 7))"
    by (rule normalize_roundtrip [OF _ _ n]) (simp_all add: i128_max_def)
  with n show ?thesis by simp
qed

end
