(* ===== verification/Distribution.thy ===== *)
theory Distribution
  imports Fixed_Point "HOL-Library.Multiset"
begin

text \<open>
  Model of \<open>contracts/split/src/calc.rs\<close>: the largest-remainder distribution, funding completion,
  the platform fee and the payment breakdown. The fixed 64-slot index array and its insertion sort
  are modelled slot by slot; the lemmas relate them to sorted lists. The canonical payout order of
  \<open>sort_recipients\<close> is the key order of the host's \<open>Map\<close> and is not modelled.
\<close>

section \<open>Definitions\<close>

definition MAX_RECIPIENTS :: nat where "MAX_RECIPIENTS = 64"

text \<open>The loop that pushes each recipient's floor share and remainder.\<close>

fun shares_loop :: "int \<Rightarrow> int \<Rightarrow> int list \<Rightarrow> (int list \<times> int list) split_result" where
  "shares_loop tot denom [] = Inr ([], [])"
| "shares_loop tot denom (r # rs) =
    bindr (mul_div tot r denom) (\<lambda>share.
    bindr (mul_mod tot r denom) (\<lambda>rem.
    bindr (shares_loop tot denom rs) (\<lambda>(shares, rems).
    Inr (share # shares, rem # rems))))"

definition rem_at :: "int list \<Rightarrow> nat \<Rightarrow> int" where
  "rem_at rems k = (if k < length rems then rems ! k else 0)"

text \<open>The inner \<open>while j > 0\<close> loop of the insertion sort: it shifts slots up and stops at the
  first predecessor whose remainder is not smaller.\<close>

fun sift :: "int list \<Rightarrow> int \<Rightarrow> nat list \<Rightarrow> nat \<Rightarrow> nat list \<times> nat" where
  "sift rems key_rem indices 0 = (indices, 0)"
| "sift rems key_rem indices (Suc j) =
    (if key_rem \<le> rem_at rems (indices ! j) then (indices, Suc j)
     else sift rems key_rem (indices[Suc j := indices ! j]) j)"

definition insert_slot :: "int list \<Rightarrow> nat \<Rightarrow> nat list \<Rightarrow> nat list" where
  "insert_slot rems i indices =
    (let key = indices ! i;
         (indices', j) = sift rems (rem_at rems key) indices i
     in indices'[j := key])"

definition initial_slots :: "nat \<Rightarrow> nat list" where
  "initial_slots n = [0..<n] @ replicate (MAX_RECIPIENTS - n) 0"

definition sort_indices :: "int list \<Rightarrow> nat \<Rightarrow> nat list" where
  "sort_indices rems n = fold (insert_slot rems) [1..<n] (initial_slots n)"

definition sum_i128 :: "int list \<Rightarrow> ('e, int) result" where
  "sum_i128 xs = foldr_res (\<lambda>x acc. arith (acc + x)) xs 0"

definition give_stroop :: "nat list \<Rightarrow> nat \<Rightarrow> int list \<Rightarrow> int list split_result" where
  "give_stroop indices i shares =
    (if i < length indices then
       (let idx = indices ! i in
        if idx < length shares then
          bindr (arith (shares ! idx + 1)) (\<lambda>v. Inr (shares[idx := v]))
        else Inl (Trap ''index out of bounds''))
     else Inl (Trap ''index out of bounds''))"

text \<open>\<open>(total - distributed) as usize\<close>: the cast keeps the low 32 bits on \<open>wasm32\<close>.\<close>

definition as_usize :: "int \<Rightarrow> nat" where
  "as_usize x = nat (x mod 2 ^ 32)"

definition distribute_with_remainder :: "int \<Rightarrow> int list \<Rightarrow> int \<Rightarrow> int list split_result" where
  "distribute_with_remainder tot ratios denom =
    (if ratios = [] then Inl (Err InvalidAmount)
     else if denom \<le> 0 then Inl (Err InvalidAmount)
     else
       bindr (shares_loop tot denom ratios) (\<lambda>(shares, rems).
       bindr (sum_i128 shares) (\<lambda>distributed.
       bindr (arith (tot - distributed)) (\<lambda>diff.
       if MAX_RECIPIENTS < length ratios then Inl (Err InvalidAmount)
       else foldr_res (give_stroop (sort_indices rems (length ratios))) [0..<as_usize diff] shares))))"

definition funding_bps :: "int \<Rightarrow> int \<Rightarrow> int" where
  "funding_bps funded tot =
    (if tot \<le> 0 \<or> funded \<le> 0 then 0
     else if tot \<le> funded then 10000
     else min (bps_of funded tot) 10000)"

definition calc_platform_fee :: "int \<Rightarrow> nat \<Rightarrow> int split_result" where
  "calc_platform_fee funded fee_bps =
    (if fee_bps = 0 \<or> funded = 0 then Inr 0
     else mul_div funded (int fee_bps) BPS_DENOMINATOR)"

record payment_breakdown =
  pb_gross :: int
  pb_platform_fee :: int
  pb_net :: int
  pb_recipient_count :: nat
  pb_funding_bps :: int

definition breakdown_new :: "int \<Rightarrow> nat \<Rightarrow> nat \<Rightarrow> int \<Rightarrow> int \<Rightarrow> payment_breakdown split_result" where
  "breakdown_new gross fee_bps recipient_count funded_after tot =
    bindr (calc_platform_fee gross fee_bps) (\<lambda>platform_fee.
    bindr (arith (gross - platform_fee)) (\<lambda>net.
    Inr \<lparr>pb_gross = gross, pb_platform_fee = platform_fee, pb_net = net,
      pb_recipient_count = recipient_count, pb_funding_bps = funding_bps funded_after tot\<rparr>))"

definition is_consistent :: "payment_breakdown \<Rightarrow> bool" where
  "is_consistent b \<longleftrightarrow> pb_net b = pb_gross b - pb_platform_fee b \<and> pb_funding_bps b \<le> 10000"

datatype fee_type = PlatformFee | CreatorFee | ProtocolFee

datatype fee_event = FeeCalculated fee_type int | FeeDistributed fee_type addr int

datatype refund_reason = Cancelled | Expired | Requested | Overfunded | Dispute

primrec refund_reason_code :: "refund_reason \<Rightarrow> nat" where
  "refund_reason_code Cancelled = 0"
| "refund_reason_code Expired = 1"
| "refund_reason_code Requested = 2"
| "refund_reason_code Overfunded = 3"
| "refund_reason_code Dispute = 4"

definition calc_fee_with_event ::
  "fee_type \<Rightarrow> int \<Rightarrow> nat \<Rightarrow> (int \<times> fee_event list) split_result" where
  "calc_fee_with_event ft funded fee_bps =
    bindr (calc_platform_fee funded fee_bps) (\<lambda>fee. Inr (fee, [FeeCalculated ft fee]))"


section \<open>The insertion sort\<close>

text \<open>
  \<open>better rems a b\<close>: slot \<open>a\<close> precedes slot \<open>b\<close>, by remainder descending and, among equal
  remainders, by index ascending.
\<close>

definition better :: "int list \<Rightarrow> nat \<Rightarrow> nat \<Rightarrow> bool" where
  "better rems a b \<longleftrightarrow>
    rem_at rems b < rem_at rems a \<or> (rem_at rems b = rem_at rems a \<and> a < b)"

lemma better_trans: "better rems a b \<Longrightarrow> better rems b c \<Longrightarrow> better rems a c"
  by (auto simp: better_def)

lemma sift_spec:
  assumes "i < length idx" and "sift rems kr idx i = (idx', j)"
  shows "j \<le> i
    \<and> idx'[j := key] = take j idx @ key # take (i - j) (drop j idx) @ drop (Suc i) idx
    \<and> (\<forall>k. j \<le> k \<and> k < i \<longrightarrow> rem_at rems (idx ! k) < kr)
    \<and> (0 < j \<longrightarrow> kr \<le> rem_at rems (idx ! (j - 1)))"
  using assms
proof (induction i arbitrary: idx)
  case 0
  then show ?case by (cases idx) auto
next
  case (Suc i)
  show ?case
  proof (cases "kr \<le> rem_at rems (idx ! i)")
    case True
    with Suc.prems show ?thesis by (auto simp: upd_conv_take_nth_drop)
  next
    case False
    let ?idx = "idx[Suc i := idx ! i]"
    have i: "i < length idx" using Suc.prems(1) by simp
    have IH: "j \<le> i
        \<and> idx'[j := key] = take j ?idx @ key # take (i - j) (drop j ?idx) @ drop (Suc i) ?idx
        \<and> (\<forall>k. j \<le> k \<and> k < i \<longrightarrow> rem_at rems (?idx ! k) < kr)
        \<and> (0 < j \<longrightarrow> kr \<le> rem_at rems (?idx ! (j - 1)))"
      using Suc.prems False by (intro Suc.IH) auto
    have "drop (Suc i) ?idx = idx ! i # drop (Suc (Suc i)) idx"
      using Suc.prems(1) by (simp add: Cons_nth_drop_Suc [symmetric])
    moreover have "take (i - j) (drop j ?idx) = take (i - j) (drop j idx)"
      by (intro nth_equalityI) auto
    moreover have "take (i - j) (drop j idx) @ [idx ! i] = take (Suc i - j) (drop j idx)"
    proof -
      have "i - j < length (drop j idx)" and "drop j idx ! (i - j) = idx ! i" using i IH by auto
      then show ?thesis using IH by (simp add: Suc_diff_le take_Suc_conv_app_nth)
    qed
    ultimately have "idx'[j := key] =
        take j idx @ key # take (Suc i - j) (drop j idx) @ drop (Suc (Suc i)) idx"
      using IH by (metis append_Cons append_Nil append_assoc le_imp_less_Suc take_update_cancel
          less_imp_le_nat)
    moreover have "\<forall>k. j \<le> k \<and> k < Suc i \<longrightarrow> rem_at rems (idx ! k) < kr"
      using IH False by (auto simp: less_Suc_eq)
    ultimately show ?thesis using IH by auto
  qed
qed

lemma insert_slot_spec:
  assumes i: "i < length idx" and key: "idx ! i = i"
    and sorted: "sorted_wrt (better rems) (take i idx)" and below: "\<forall>k \<in> set (take i idx). k < i"
  shows "sorted_wrt (better rems) (take (Suc i) (insert_slot rems i idx))
    \<and> mset (take (Suc i) (insert_slot rems i idx)) = add_mset i (mset (take i idx))
    \<and> drop (Suc i) (insert_slot rems i idx) = drop (Suc i) idx
    \<and> length (insert_slot rems i idx) = length idx"
proof -
  obtain idx' j where s: "sift rems (rem_at rems i) idx i = (idx', j)"
    by (cases "sift rems (rem_at rems i) idx i")
  note spec = sift_spec [OF i s, of i]
  let ?P = "take i idx"
  have eq: "insert_slot rems i idx = (take j ?P @ i # drop j ?P) @ drop (Suc i) idx"
    using spec s key by (simp add: insert_slot_def min_def drop_take)
  have jP: "j \<le> length ?P" using spec i by simp
  have len: "length (take j ?P @ i # drop j ?P) = Suc i" using i jP by simp
  have pre: "better rems a i" if "a \<in> set (take j ?P)" for a
  proof -
    have "0 < j" using that by (cases j) auto
    moreover have "a \<in> set ?P" using that by (rule in_set_takeD)
    ultimately have ai: "a < i" and last: "rem_at rems i \<le> rem_at rems (?P ! (j - 1))"
      using below spec jP i by auto
    from that obtain m where "m < length (take j ?P)" and "take j ?P ! m = a"
      by (auto simp only: in_set_conv_nth)
    then have m: "m < j" and am: "a = ?P ! m" by auto
    have "rem_at rems (?P ! (j - 1)) \<le> rem_at rems a"
    proof (cases "m = j - 1")
      case False
      then have "m < j - 1" and "j - 1 < length ?P" using m jP by linarith+
      then have "better rems (?P ! m) (?P ! (j - 1))"
        by (rule sorted_wrt_nth_less [OF sorted])
      then show ?thesis using am by (auto simp: better_def)
    qed (use am in simp)
    with ai last show ?thesis by (auto simp: better_def)
  qed
  have post: "better rems i a" if "a \<in> set (drop j ?P)" for a
  proof -
    from that obtain k where "k < length ?P - j" and "a = ?P ! (j + k)"
      using jP by (auto simp: in_set_conv_nth)
    then have "rem_at rems a < rem_at rems i" using spec by auto
    then show ?thesis by (simp add: better_def)
  qed
  have srt: "sorted_wrt (better rems) (take j ?P @ i # drop j ?P)"
    using sorted pre post
    by (subst (asm) append_take_drop_id [of j ?P, symmetric])
      (auto simp del: append_take_drop_id simp: sorted_wrt_append)
  have "mset (take j ?P @ i # drop j ?P) = add_mset i (mset (take j ?P @ drop j ?P))"
    by (simp only: mset_append mset.simps union_mset_add_mset_right)
  then have ms: "mset (take j ?P @ i # drop j ?P) = add_mset i (mset ?P)"
    by (simp only: append_take_drop_id)
  define Q where "Q = take j ?P @ i # drop j ?P"
  have "length Q = Suc i" using len by (simp only: Q_def)
  then show ?thesis using eq srt ms i unfolding Q_def [symmetric] by simp
qed

lemma sort_indices_prefix:
  fixes rems :: "int list" and n m :: nat
  assumes "1 \<le> n" and "n \<le> MAX_RECIPIENTS" and "m \<le> n" and "1 \<le> m"
  defines "idx \<equiv> fold (insert_slot rems) [1..<m] (initial_slots n)"
  shows "sorted_wrt (better rems) (take m idx) \<and> mset (take m idx) = mset [0..<m]
    \<and> drop m idx = drop m (initial_slots n) \<and> length idx = MAX_RECIPIENTS"
  using assms(3,4) unfolding idx_def
proof (induction m)
  case 0
  then show ?case by simp
next
  case (Suc m)
  show ?case
  proof (cases "m = 0")
    case True
    with assms(1,2) show ?thesis
      by (auto simp: initial_slots_def upt_conv_Cons)
  next
    case False
    let ?idx = "fold (insert_slot rems) [1..<m] (initial_slots n)"
    from False Suc have IH: "sorted_wrt (better rems) (take m ?idx)"
      "mset (take m ?idx) = mset [0..<m]"
      "drop m ?idx = drop m (initial_slots n)" "length ?idx = MAX_RECIPIENTS" by auto
    have m: "m < length ?idx" "m < n" using IH(4) Suc.prems assms(2) by auto
    have key: "?idx ! m = m"
    proof -
      have "?idx ! m = drop m ?idx ! 0" using m by simp
      also have "\<dots> = initial_slots n ! m"
        unfolding IH(3) using m(2) by (simp add: initial_slots_def nth_append)
      finally show ?thesis using m(2) by (simp add: initial_slots_def nth_append)
    qed
    have below: "\<forall>k \<in> set (take m ?idx). k < m"
      using IH(2) by (metis atLeastLessThan_iff set_mset_mset set_upt)
    note spec = insert_slot_spec [OF m(1) key IH(1) below]
    have step: "fold (insert_slot rems) [1..<Suc m] (initial_slots n) = insert_slot rems m ?idx"
      using False by simp
    have "drop (Suc m) ?idx = drop (Suc m) (initial_slots n)"
      using arg_cong [OF IH(3), of "drop 1"] by simp
    then show ?thesis using spec IH(2,4) step by simp
  qed
qed

lemma sort_indices_spec:
  assumes "1 \<le> n" and "n \<le> MAX_RECIPIENTS"
  obtains idx where "sort_indices rems n = idx @ replicate (MAX_RECIPIENTS - n) 0"
    and "sorted_wrt (better rems) idx" and "mset idx = mset [0..<n]"
proof
  let ?s = "sort_indices rems n"
  have s: "sorted_wrt (better rems) (take n ?s) \<and> mset (take n ?s) = mset [0..<n]
      \<and> drop n ?s = drop n (initial_slots n)"
    using sort_indices_prefix [OF assms order_refl, of rems] assms by (simp add: sort_indices_def)
  then show "?s = take n ?s @ replicate (MAX_RECIPIENTS - n) 0"
    by (metis append_take_drop_id initial_slots_def length_upt minus_nat.diff_0 append_eq_conv_conj)
  show "sorted_wrt (better rems) (take n ?s)" and "mset (take n ?s) = mset [0..<n]"
    using s by simp_all
qed


section \<open>Largest-remainder distribution\<close>

lemma shares_loop_ok:
  assumes "0 \<le> tot" and "0 < denom"
    and "\<forall>r \<in> set ratios. 0 \<le> r \<and> tot * r \<le> i128_max"
  shows "shares_loop tot denom ratios =
    Inr (map (\<lambda>r. tot * r div denom) ratios, map (\<lambda>r. tot * r mod denom) ratios)"
  using assms by (induction ratios) auto

lemma sum_i128_ok_aux:
  assumes "\<forall>x \<in> set xs. 0 \<le> x" and "0 \<le> acc" and "acc + sum_list xs \<le> i128_max"
  shows "foldr_res (\<lambda>x acc. arith (acc + x)) xs acc = Inr (acc + sum_list xs)"
  using assms
proof (induction xs arbitrary: acc)
  case Nil
  then show ?case by simp
next
  case (Cons x xs)
  have "0 \<le> sum_list xs" using Cons.prems(1) by (intro sum_list_nonneg) auto
  then have "fits_i128 (acc + x)" using Cons.prems by (subst fits_i128_nonneg) auto
  then show ?case using Cons.IH [of "acc + x"] Cons.prems by (simp add: add.assoc)
qed

lemma sum_i128_ok:
  assumes "\<forall>x \<in> set xs. 0 \<le> x" and "sum_list xs \<le> i128_max"
  shows "sum_i128 xs = Inr (sum_list xs)"
  using sum_i128_ok_aux [of xs 0] assms by (simp add: sum_i128_def)

text \<open>Handing one stroop to each of the first \<open>m\<close> slots of a list of distinct indices.\<close>

lemma give_stroops:
  assumes idx: "slots = idx @ pad" "distinct idx" "set idx \<subseteq> {..<length shares}"
    and m: "m \<le> length idx" and sh: "\<forall>s \<in> set shares. 0 \<le> s \<and> s < i128_max"
  shows "foldr_res (give_stroop slots) [0..<m] shares =
    Inr (map (\<lambda>k. shares ! k + (if k \<in> set (take m idx) then 1 else 0)) [0..<length shares])"
  using m
proof (induction m)
  case 0
  then show ?case by (simp add: map_nth)
next
  case (Suc m)
  let ?r = "map (\<lambda>k. shares ! k + (if k \<in> set (take m idx) then 1 else 0)) [0..<length shares]"
  let ?k = "idx ! m"
  have mlen: "m < length idx" using Suc.prems by simp
  have k: "?k < length shares" using idx(3) mlen nth_mem by blast
  have fresh: "?k \<notin> set (take m idx)"
    using idx(2) mlen by (auto simp: in_set_conv_nth nth_eq_iff_index_eq)
  have sk: "0 \<le> shares ! ?k" "shares ! ?k < i128_max" using sh k by auto
  have step: "give_stroop slots m ?r = Inr (?r[?k := shares ! ?k + 1])"
    using idx(1) mlen k fresh sk
    by (simp add: give_stroop_def nth_append Let_def fits_i128_nonneg)
  have "?r[?k := shares ! ?k + 1] =
      map (\<lambda>i. shares ! i + (if i \<in> set (take (Suc m) idx) then 1 else 0)) [0..<length shares]"
    using mlen k fresh by (intro nth_equalityI) (auto simp: nth_list_update take_Suc_conv_app_nth)
  then show ?case using Suc step by (simp add: foldr_res_append)
qed

lemma leftover_bounds:
  fixes tot denom :: int
  assumes "0 < denom" and "sum_list ratios = denom" and "ratios \<noteq> []"
  defines "left \<equiv> tot - sum_list (map (\<lambda>r. tot * r div denom) ratios)"
  shows "0 \<le> left \<and> left < int (length ratios)
    \<and> left * denom = sum_list (map (\<lambda>r. tot * r mod denom) ratios)"
proof -
  let ?q = "sum_list (map (\<lambda>r. tot * r div denom) ratios)"
  let ?m = "sum_list (map (\<lambda>r. tot * r mod denom) ratios)"
  have "(\<Sum>r\<leftarrow>ratios. tot * r) = (\<Sum>r\<leftarrow>ratios. tot * r div denom * denom + tot * r mod denom)"
    by simp
  also have "\<dots> = ?q * denom + ?m"
    by (simp only: sum_list_addf sum_list_mult_const)
  finally have "tot * denom = ?q * denom + ?m"
    using assms(2) by (simp add: sum_list_const_mult)
  then have eq: "left * denom = ?m" by (simp add: left_def algebra_simps)
  have "0 \<le> ?m" using assms(1) by (intro sum_list_nonneg) auto
  then have lo: "0 \<le> left" using eq assms(1) by (metis zero_le_mult_iff not_le)
  have "?m < (\<Sum>r\<leftarrow>ratios. denom)"
    using assms(1,3) by (intro sum_list_strict_mono) auto
  also have "\<dots> = int (length ratios) * denom" by (simp add: sum_list_triv)
  finally have "left < int (length ratios)" using eq assms(1) by (metis mult_less_cancel_right_pos)
  with lo eq show ?thesis by blast
qed


text \<open>
  The documented precondition of the distribution: one to 64 non-negative ratios that sum to the
  denominator, a non-negative \<open>i128\<close> total, and products that fit in \<open>i128\<close>.
\<close>

definition valid_split :: "int \<Rightarrow> int list \<Rightarrow> int \<Rightarrow> bool" where
  "valid_split tot ratios denom \<longleftrightarrow>
    ratios \<noteq> [] \<and> length ratios \<le> MAX_RECIPIENTS \<and> 0 < denom \<and> sum_list ratios = denom
    \<and> 0 \<le> tot \<and> tot \<le> i128_max \<and> (\<forall>r \<in> set ratios. 0 \<le> r \<and> tot * r \<le> i128_max)"

lemma distribute_eq:
  assumes v: "valid_split tot ratios denom"
  obtains idx where "sorted_wrt (better (map (\<lambda>r. tot * r mod denom) ratios)) idx"
    and "mset idx = mset [0..<length ratios]"
    and "distribute_with_remainder tot ratios denom = Inr (map
      (\<lambda>k. tot * (ratios ! k) div denom +
        (if k \<in> set (take (nat (tot - sum_list (map (\<lambda>r. tot * r div denom) ratios))) idx)
         then 1 else 0)) [0..<length ratios])"
proof -
  let ?sh = "map (\<lambda>r. tot * r div denom) ratios"
  let ?rm = "map (\<lambda>r. tot * r mod denom) ratios"
  let ?n = "length ratios"
  let ?left = "tot - sum_list ?sh"
  have d: "0 < denom" "sum_list ratios = denom" "ratios \<noteq> []" and n: "1 \<le> ?n" "?n \<le> MAX_RECIPIENTS"
    and t: "0 \<le> tot" "tot \<le> i128_max" and r: "\<forall>r \<in> set ratios. 0 \<le> r \<and> tot * r \<le> i128_max"
    using v by (auto simp: valid_split_def Suc_le_eq)
  obtain idx where idx: "sort_indices ?rm ?n = idx @ replicate (MAX_RECIPIENTS - ?n) 0"
    "sorted_wrt (better ?rm) idx" "mset idx = mset [0..<?n]"
    using sort_indices_spec [OF n, of ?rm] by blast
  have left: "0 \<le> ?left" "?left < int ?n"
    using leftover_bounds [OF d, of tot] by auto
  have sh0: "\<forall>x \<in> set ?sh. 0 \<le> x" using t d r by (auto simp: pos_imp_zdiv_nonneg_iff)
  have sum: "(sum_i128 ?sh :: int split_result) = Inr (sum_list ?sh)" using sh0 left t by (intro sum_i128_ok) auto
  have "0 \<le> sum_list ?sh" using sh0 by (intro sum_list_nonneg) blast
  then have "fits_i128 ?left" using left(1) t(2) fits_i128_nonneg [of ?left] by linarith
  then have ar: "(arith ?left :: int split_result) = Inr ?left" by simp
  have cast: "as_usize ?left = nat ?left"
    using left n by (simp add: as_usize_def MAX_RECIPIENTS_def)
  have len: "length idx = ?n" using arg_cong [OF idx(3), of size] by simp
  have "distribute_with_remainder tot ratios denom =
      foldr_res (give_stroop (sort_indices ?rm ?n)) [0..<nat ?left] ?sh"
    using d n t r sum ar cast
    by (simp add: distribute_with_remainder_def shares_loop_ok)
  also have "\<dots> = Inr (map (\<lambda>k. ?sh ! k + (if k \<in> set (take (nat ?left) idx) then 1 else 0))
      [0..<length ?sh])"
  proof (cases "nat ?left = 0")
    case True
    then show ?thesis using map_nth [of ?sh] by simp
  next
    case False
    have "\<forall>s \<in> set ?sh. 0 \<le> s \<and> s < i128_max"
    proof
      fix s assume s: "s \<in> set ?sh"
      then have "s \<le> sum_list ?sh" by (rule sum_list_nonneg_member [rotated]) (use sh0 in blast)
      moreover have "0 \<le> s" using s sh0 by blast
      moreover have "0 < ?left" using False by linarith
      ultimately show "0 \<le> s \<and> s < i128_max" using t(2) by linarith
    qed
    moreover have "distinct idx" "set idx \<subseteq> {..<length ?sh}"
      using idx(3) by (metis mset_eq_imp_distinct_iff distinct_upt)
        (use mset_eq_setD [OF idx(3)] in auto)
    ultimately show ?thesis using left len by (intro give_stroops [OF idx(1)]) auto
  qed
  finally have "distribute_with_remainder tot ratios denom = Inr (map
      (\<lambda>k. tot * (ratios ! k) div denom + (if k \<in> set (take (nat ?left) idx) then 1 else 0))
      [0..<?n])" by (simp cong: map_cong)
  with idx(2,3) show ?thesis by (rule that)
qed

lemma sum_indicator:
  assumes "distinct ks" and "set ks \<subseteq> {..<n}"
  shows "(\<Sum>k\<leftarrow>[0..<n]. if k \<in> set ks then 1 else (0::int)) = int (length ks)"
proof -
  have "(\<Sum>k\<leftarrow>[0..<n]. if k \<in> set ks then 1 else (0::int)) = (\<Sum>k\<in>{..<n}. if k \<in> set ks then 1 else 0)"
    by (simp add: sum_list_distinct_conv_sum_set atLeast0LessThan)
  also have "\<dots> = int (card (set ks))"
    using assms(2) by (simp add: sum.If_cases Int_absorb1)
  finally show ?thesis using assms(1) by (simp add: distinct_card)
qed

text \<open>
  C2: for every valid split the distribution succeeds, gives one share per recipient, and the
  shares sum to exactly the total: no stroop is lost or created by rounding.
\<close>

theorem distribute_sum_exact:
  assumes "valid_split tot ratios denom"
  shows "\<exists>shares. distribute_with_remainder tot ratios denom = Inr shares
    \<and> length shares = length ratios \<and> sum_list shares = tot"
proof -
  let ?q = "\<lambda>r. tot * r div denom"
  let ?left = "tot - sum_list (map ?q ratios)"
  let ?n = "length ratios"
  obtain idx where "sorted_wrt (better (map (\<lambda>r. tot * r mod denom) ratios)) idx"
    and m: "mset idx = mset [0..<?n]" and res: "distribute_with_remainder tot ratios denom
      = Inr (map (\<lambda>k. ?q (ratios ! k) + (if k \<in> set (take (nat ?left) idx) then 1 else 0)) [0..<?n])"
    by (rule distribute_eq [OF assms])
  have left: "0 \<le> ?left" "?left < int ?n"
    using assms leftover_bounds [of denom ratios tot] by (auto simp: valid_split_def)
  have len: "length idx = ?n" using arg_cong [OF m, of size] by simp
  have dist: "distinct idx" using m by (metis mset_eq_imp_distinct_iff distinct_upt)
  have sub: "set (take (nat ?left) idx) \<subseteq> {..<?n}"
    using mset_eq_setD [OF m] set_take_subset [of "nat ?left" idx] by auto
  have "sum_list (map (\<lambda>k. ?q (ratios ! k) + (if k \<in> set (take (nat ?left) idx) then 1 else 0)) [0..<?n])
      = sum_list (map (\<lambda>k. ?q (ratios ! k)) [0..<?n]) + ?left"
    using sum_indicator [OF distinct_take [OF dist] sub] left len by (simp add: sum_list_addf)
  also have "map (\<lambda>k. ?q (ratios ! k)) [0..<?n] = map ?q ratios"
    by (intro nth_equalityI) auto
  finally show ?thesis using res by simp
qed

theorem distribute_sum_exact_witness:
  "valid_split 10 [1, 1, 1] 3 \<and> distribute_with_remainder 10 [1, 1, 1] 3 = Inr [4, 3, 3]"
proof -
  have v: "valid_split 10 [1, 1, 1] 3"
    by (simp add: valid_split_def MAX_RECIPIENTS_def i128_max_def)
  have "distribute_with_remainder 10 [1, 1, 1] 3 = Inr [4, 3, 3]"
    by code_simp
  with v distribute_sum_exact [OF v] show ?thesis by simp
qed

text \<open>
  C5: the distribution follows the largest-remainder rule. Every share is the floor of the exact
  proportional share or one stroop more, so it is within one stroop of it; a recipient who got the
  extra stroop has a remainder at least as large as one who did not, and among equal remainders
  the earlier recipient is served first.
\<close>

theorem distribute_largest_remainder:
  assumes "valid_split tot ratios denom" and "distribute_with_remainder tot ratios denom = Inr shares"
    and "i < length ratios" and "j < length ratios"
  shows "shares ! i \<in> {tot * ratios ! i div denom, tot * ratios ! i div denom + 1}
    \<and> (shares ! i = tot * ratios ! i div denom + 1 \<and> shares ! j = tot * ratios ! j div denom \<longrightarrow>
        tot * ratios ! j mod denom < tot * ratios ! i mod denom
        \<or> (tot * ratios ! j mod denom = tot * ratios ! i mod denom \<and> i < j))"
proof -
  let ?rm = "map (\<lambda>r. tot * r mod denom) ratios"
  let ?L = "nat (tot - sum_list (map (\<lambda>r. tot * r div denom) ratios))"
  let ?n = "length ratios"
  obtain idx where s: "sorted_wrt (better ?rm) idx" and m: "mset idx = mset [0..<?n]"
    and eq: "distribute_with_remainder tot ratios denom = Inr (map (\<lambda>k. tot * (ratios ! k) div denom +
      (if k \<in> set (take ?L idx) then 1 else 0)) [0..<?n])"
    by (rule distribute_eq [OF assms(1)])
  from eq assms(2) have res: "shares = map (\<lambda>k. tot * (ratios ! k) div denom +
      (if k \<in> set (take ?L idx) then 1 else 0)) [0..<?n]" by simp
  have sh: "shares ! k = tot * (ratios ! k) div denom + (if k \<in> set (take ?L idx) then 1 else 0)"
    if "k < ?n" for k using that res by simp
  have ord: "better ?rm i j" if "i \<in> set (take ?L idx)" and "j \<notin> set (take ?L idx)"
  proof -
    have "j \<in> set idx" using mset_eq_setD [OF m] assms(4) by auto
    then have "j \<in> set (drop ?L idx)"
      using that(2) by (metis Un_iff append_take_drop_id set_append)
    then show ?thesis using s that(1)
      by (metis append_take_drop_id sorted_wrt_append)
  qed
  have rem: "rem_at ?rm k = tot * ratios ! k mod denom" if "k < ?n" for k
    using that by (simp add: rem_at_def)
  show ?thesis
    using sh [OF assms(3)] sh [OF assms(4)] ord rem [OF assms(3)] rem [OF assms(4)]
    by (auto simp: better_def split: if_splits)
qed

theorem distribute_largest_remainder_witness:
  "distribute_with_remainder 1000 [1, 2, 3] 6 = Inr [167, 333, 500] \<and>
    (1000 * 2 mod 6 < (1000 * 1 mod 6 :: int))"
proof -
  have v: "valid_split 1000 [1, 2, 3] 6"
    by (simp add: valid_split_def MAX_RECIPIENTS_def i128_max_def)
  have d: "distribute_with_remainder 1000 [1, 2, 3] 6 = Inr [167, 333, 500]"
    by code_simp
  from distribute_largest_remainder [OF v d, of 0 1] d show ?thesis by simp
qed


section \<open>Funding completion and fees\<close>

lemma funding_bps_range: "0 \<le> funding_bps funded tot \<and> funding_bps funded tot \<le> 10000"
  by (simp add: funding_bps_def bps_of_nonneg)

lemma funding_bps_exact:
  assumes "0 < tot" and "tot * 10000 \<le> i128_max" and "0 \<le> funded"
  shows "funding_bps funded tot = (if tot \<le> funded then 10000 else funded * 10000 div tot)"
proof (cases "0 < funded \<and> funded < tot")
  case True
  then have "funded * 10000 \<le> i128_max" using assms(2) by linarith
  moreover have "funded * 10000 div tot \<le> 10000"
    using bps_share_le [of 10000 funded tot] True assms(1) by (simp add: mult.commute)
  ultimately show ?thesis using True assms by (simp add: funding_bps_def bps_of_exact)
next
  case False
  then show ?thesis using assms by (auto simp: funding_bps_def)
qed

text \<open>
  C21: while the total stays below \<open>i128::MAX / 10000\<close>, funding completion in basis points is a
  faithful progress measure: it lies in \<open>[0, 10000]\<close>, it grows with the funded amount, and it
  reports 10000 exactly when the invoice is fully funded.
\<close>

theorem funding_bps_progress:
  assumes "0 < tot" and "tot * 10000 \<le> i128_max" and "0 \<le> f" and "f \<le> g"
  shows "0 \<le> funding_bps f tot \<and> funding_bps f tot \<le> funding_bps g tot
    \<and> funding_bps g tot \<le> 10000 \<and> (funding_bps f tot = 10000 \<longleftrightarrow> tot \<le> f)"
proof -
  have lt: "x * 10000 div tot < 10000" if "0 \<le> x" "x < tot" for x
  proof -
    have "x * 10000 div tot * tot \<le> x * 10000"
      using assms(1) div_mult_mod_eq [of "x * 10000" tot] pos_mod_sign [OF assms(1), of "x * 10000"]
      by linarith
    also have "\<dots> < 10000 * tot" using that by simp
    finally show ?thesis using assms(1) by (simp only: mult_less_cancel_right_pos)
  qed
  have mono: "f * 10000 div tot \<le> g * 10000 div tot"
    using assms by (intro zdiv_mono1) simp_all
  have "0 \<le> f * 10000 div tot" using assms by (simp add: pos_imp_zdiv_nonneg_iff)
  then show ?thesis
    using assms lt [of f] mono lt [of g]
    by (auto simp: funding_bps_exact)
qed

theorem funding_bps_progress_witness:
  "funding_bps 999 1000 = 9990 \<and> funding_bps 500 1000 \<le> funding_bps 999 1000"
proof -
  have "funding_bps 500 1000 \<le> funding_bps 999 1000"
    using funding_bps_progress [of 1000 500 999] by (simp add: i128_max_def)
  then show ?thesis by (simp add: funding_bps_exact i128_max_def)
qed

lemma div_coarse_bounds:
  fixes f t d m :: int
  assumes t: "t = 10000 * d + m" and m: "0 \<le> m" "m < 10000" and d: "10000 \<le> d" and f: "0 \<le> f" "f < t"
  shows "f * 10000 div t \<le> f div d" and "f div d \<le> f * 10000 div t + 1"
    and "f div d \<le> 10000" and "f div d = 10000 \<longleftrightarrow> 10000 * d \<le> f"
proof -
  let ?q = "f div d" and ?x = "f * 10000 div t"
  have tp: "0 < t" and dp: "0 < d" using t m d by auto
  have q: "?q * d \<le> f" using div_mult_mod_eq [of f d] pos_mod_sign [OF dp, of f] by linarith
  have q0: "0 \<le> ?q" using f(1) dp by (simp add: pos_imp_zdiv_nonneg_iff)
  have "?q * d < 10001 * d" using q f(2) t m(2) d by linarith
  then show le: "?q \<le> 10000" using dp by (simp only: mult_less_cancel_right_pos)
  have "?x * (10000 * d) \<le> ?x * t"
    using t m(1) f(1) tp by (intro mult_left_mono) (auto simp: pos_imp_zdiv_nonneg_iff)
  also have "\<dots> \<le> f * 10000"
    using div_mult_mod_eq [of "f * 10000" t] pos_mod_sign [OF tp, of "f * 10000"] by linarith
  finally have "?x * d \<le> f" by simp
  then show "?x \<le> ?q" using zdiv_mono1 [of "?x * d" f d] dp by simp
  have "(?q - 1) * m \<le> 9999 * 10000"
  proof (cases "?q = 0")
    case False
    then show ?thesis using q0 le m by (intro mult_mono) auto
  qed (use m in simp)
  moreover have "(?q - 1) * t = 10000 * (?q * d) - 10000 * d + (?q - 1) * m"
    by (simp add: t algebra_simps)
  ultimately have "(?q - 1) * t \<le> f * 10000" using q d by linarith
  then have "?q - 1 \<le> ?x" using zdiv_mono1 [of "(?q - 1) * t" "f * 10000" t] tp by simp
  then show "?q \<le> ?x + 1" by simp
  show "?q = 10000 \<longleftrightarrow> 10000 * d \<le> f"
  proof
    assume "?q = 10000"
    then show "10000 * d \<le> f" using q by simp
  next
    assume "10000 * d \<le> f"
    then have "10000 \<le> ?q" using zdiv_mono1 [of "10000 * d" f d] dp by simp
    then show "?q = 10000" using le by simp
  qed
qed


text \<open>
  C23: above that bound, where \<open>funded * 10000\<close> leaves \<open>i128\<close> and \<open>bps_of\<close> takes its fallback, the
  reported completion is the exact floor or one basis point more, never less; and an invoice that is
  not fully funded is reported as 10000, fully funded, exactly when the shortfall is at most
  \<open>total % 10000\<close>. The comment in \<open>funding_bps\<close> states that the result is at most 9999 whenever
  \<open>funded < total\<close>.
\<close>

theorem funding_bps_fallback:
  assumes "i128_max < funded * 10000" and "funded < tot" and "tot \<le> i128_max"
  shows "funded * 10000 div tot \<le> funding_bps funded tot
    \<and> funding_bps funded tot \<le> funded * 10000 div tot + 1
    \<and> (funding_bps funded tot = 10000 \<longleftrightarrow> tot - funded \<le> tot mod 10000)"
proof -
  let ?d = "tot div 10000"
  have pos: "0 < funded" "0 < tot" using assms(1,2) by (auto simp: i128_max_def)
  have d: "10000 \<le> ?d" using assms(1,2) by (simp add: i128_max_def)
  note c = div_coarse_bounds [of tot ?d "tot mod 10000" funded]
  have "bps_of funded tot = funded div ?d"
    using bps_of_fallback [of tot funded] assms pos d by (simp add: max_def)
  moreover have "funded div ?d \<le> 10000" using c(3) d pos assms(2) by simp
  ultimately have eq: "funding_bps funded tot = funded div ?d"
    using pos assms(2) by (simp add: funding_bps_def)
  have "10000 * ?d = tot - tot mod 10000" by (simp add: minus_mod_eq_mult_div)
  then show ?thesis unfolding eq using c(1,2,4) d pos assms(2) by auto
qed

theorem funding_bps_fallback_witness:
  "funding_bps (i128_max - 1) i128_max = 10000 \<and> funding_bps (i128_max div 2) i128_max \<le> 5000"
proof -
  have h: "i128_max < (i128_max - 1) * 10000" "i128_max - 1 < i128_max" "i128_max \<le> i128_max"
    "i128_max < i128_max div 2 * 10000" "i128_max div 2 < i128_max"
    by (simp_all add: i128_max_def)
  from funding_bps_fallback [OF h(1-3)] funding_bps_fallback [OF h(4,5,3)]
  show ?thesis by (auto simp: i128_max_def)
qed

lemma calc_platform_fee_bounds:
  assumes "calc_platform_fee funded fee_bps = Inr fee" and "0 \<le> funded" and "fee_bps \<le> 10000"
  shows "0 \<le> fee \<and> fee \<le> funded"
  using assms bps_share_le [of funded "int fee_bps" 10000]
  by (auto simp: calc_platform_fee_def mul_div_eq_Inr BPS_DENOMINATOR_def pos_imp_zdiv_nonneg_iff
      split: if_splits)

lemma calc_platform_fee_eq:
  assumes "0 \<le> funded" and "funded * int fee_bps \<le> i128_max"
  shows "calc_platform_fee funded fee_bps = Inr (funded * int fee_bps div 10000)"
  using assms by (auto simp: calc_platform_fee_def BPS_DENOMINATOR_def)

text \<open>
  C22: the payment breakdown reconciles. A breakdown that is produced for a non-negative gross
  amount at a rate of at most 100 percent is consistent, its platform fee and its net amount are
  non-negative and sum to the gross amount; and for every such payment whose fee product fits in
  \<open>i128\<close> a breakdown is produced.
\<close>

theorem breakdown_reconciles:
  assumes "0 \<le> gross" and "gross \<le> i128_max" and "fee_bps \<le> 10000"
    and "gross * int fee_bps \<le> i128_max"
  shows "\<exists>b. breakdown_new gross fee_bps n funded_after tot = Inr b \<and> is_consistent b
    \<and> 0 \<le> pb_platform_fee b \<and> 0 \<le> pb_net b \<and> pb_platform_fee b + pb_net b = gross
    \<and> pb_platform_fee b = gross * int fee_bps div 10000"
proof -
  let ?fee = "gross * int fee_bps div 10000"
  have fee: "calc_platform_fee gross fee_bps = Inr ?fee" using assms by (simp add: calc_platform_fee_eq)
  then have b: "0 \<le> ?fee" "?fee \<le> gross" using calc_platform_fee_bounds assms by blast+
  then have "fits_i128 (gross - ?fee)" using assms(2) by (subst fits_i128_nonneg) linarith+
  with fee b show ?thesis
    using funding_bps_range [of funded_after tot] by (simp add: breakdown_new_def is_consistent_def)
qed

theorem breakdown_reconciles_witness:
  "\<exists>b. breakdown_new 1000000 250 3 1000000 1000000 = Inr b \<and> is_consistent b
    \<and> pb_platform_fee b = 25000 \<and> pb_net b = 975000"
proof -
  have "(0::int) \<le> 1000000" "(1000000::int) \<le> i128_max" "(250::nat) \<le> 10000"
    "(1000000::int) * int 250 \<le> i128_max" by (simp_all add: i128_max_def)
  from breakdown_reconciles [OF this, of 3 1000000 1000000] show ?thesis by auto
qed

end
