(* ===== verification/Escrow_Model.thy ===== *)
theory Escrow_Model
  imports Soroban_Base
begin

text \<open>
  Model of the invoice-escrow contract (\<open>contracts/invoice-escrow/src/lib.rs\<close>, \<open>types.rs\<close>,
  \<open>errors.rs\<close>, \<open>oracle.rs\<close>). The storage of the contract is one record with a map per storage key
  family; every token transfer, published event and TTL extension is appended, in order, to the
  list \<open>es_effects\<close>. The price oracles are external contracts: the environment carries what
  \<open>try_lastprice\<close> returns for them (\<open>None\<close> for a failing call or a missing price).
\<close>

section \<open>Data\<close>

datatype escrow_error =
    NotAdmin | NoPendingAdmin | Unauthorized | AlreadyInitialized | NotInitialized
  | InvoiceNotFound | DeadlinePassed | InvalidStatus | InvalidAmount | InvalidTotalAmount
  | OverFunded | InsufficientFunding | DeadlineNotPassed | InvalidRecipients | PayerBlacklisted
  | AppealWindowExpired | NotBlacklisted | AlreadyFinalised | NotBlacklistedPayer
  | InvalidCosignerConfig | NotCosigner | AlreadyVoted | ApprovalRequired | ApprovalRejected
  | NotVoted | CosignersLocked | NoCosigners | InvalidOracleConfig | OracleUnavailable
  | OracleStalePrice | OracleInvalidPrice | OracleConditionNotMet | NoOracleCondition
  | InvalidSchedule | ReleaseNotYetDue | ScheduleLedgerNotReached | ScheduleNotFound
  | RefundGraceActive | InvalidGracePeriod | RefundGraceElapsed | DeadlineOutOfRange

primrec escrow_error_code :: "escrow_error \<Rightarrow> nat" where
  "escrow_error_code NotAdmin = 1"
| "escrow_error_code NoPendingAdmin = 2"
| "escrow_error_code Unauthorized = 3"
| "escrow_error_code AlreadyInitialized = 4"
| "escrow_error_code NotInitialized = 5"
| "escrow_error_code InvoiceNotFound = 6"
| "escrow_error_code DeadlinePassed = 7"
| "escrow_error_code InvalidStatus = 8"
| "escrow_error_code InvalidAmount = 9"
| "escrow_error_code InvalidTotalAmount = 10"
| "escrow_error_code OverFunded = 11"
| "escrow_error_code InsufficientFunding = 12"
| "escrow_error_code DeadlineNotPassed = 13"
| "escrow_error_code InvalidRecipients = 14"
| "escrow_error_code PayerBlacklisted = 15"
| "escrow_error_code AppealWindowExpired = 16"
| "escrow_error_code NotBlacklisted = 17"
| "escrow_error_code AlreadyFinalised = 18"
| "escrow_error_code NotBlacklistedPayer = 19"
| "escrow_error_code InvalidCosignerConfig = 20"
| "escrow_error_code NotCosigner = 21"
| "escrow_error_code AlreadyVoted = 22"
| "escrow_error_code ApprovalRequired = 23"
| "escrow_error_code ApprovalRejected = 24"
| "escrow_error_code NotVoted = 25"
| "escrow_error_code CosignersLocked = 26"
| "escrow_error_code NoCosigners = 27"
| "escrow_error_code InvalidOracleConfig = 28"
| "escrow_error_code OracleUnavailable = 29"
| "escrow_error_code OracleStalePrice = 30"
| "escrow_error_code OracleInvalidPrice = 31"
| "escrow_error_code OracleConditionNotMet = 32"
| "escrow_error_code NoOracleCondition = 33"
| "escrow_error_code InvalidSchedule = 34"
| "escrow_error_code ReleaseNotYetDue = 35"
| "escrow_error_code ScheduleLedgerNotReached = 36"
| "escrow_error_code ScheduleNotFound = 37"
| "escrow_error_code RefundGraceActive = 38"
| "escrow_error_code InvalidGracePeriod = 39"
| "escrow_error_code RefundGraceElapsed = 40"
| "escrow_error_code DeadlineOutOfRange = 41"

definition error_from_code :: "nat \<Rightarrow> escrow_error option" where
  "error_from_code code =
    (if code = 1 then Some NotAdmin
     else if code = 2 then Some NoPendingAdmin
     else if code = 3 then Some Unauthorized
     else if code = 4 then Some AlreadyInitialized
     else if code = 5 then Some NotInitialized
     else if code = 6 then Some InvoiceNotFound
     else if code = 7 then Some DeadlinePassed
     else if code = 8 then Some InvalidStatus
     else if code = 9 then Some InvalidAmount
     else if code = 10 then Some InvalidTotalAmount
     else if code = 11 then Some OverFunded
     else if code = 12 then Some InsufficientFunding
     else if code = 13 then Some DeadlineNotPassed
     else if code = 14 then Some InvalidRecipients
     else if code = 15 then Some PayerBlacklisted
     else if code = 16 then Some AppealWindowExpired
     else if code = 17 then Some NotBlacklisted
     else if code = 18 then Some AlreadyFinalised
     else if code = 19 then Some NotBlacklistedPayer
     else if code = 20 then Some InvalidCosignerConfig
     else if code = 21 then Some NotCosigner
     else if code = 22 then Some AlreadyVoted
     else if code = 23 then Some ApprovalRequired
     else if code = 24 then Some ApprovalRejected
     else if code = 25 then Some NotVoted
     else if code = 26 then Some CosignersLocked
     else if code = 27 then Some NoCosigners
     else if code = 28 then Some InvalidOracleConfig
     else if code = 29 then Some OracleUnavailable
     else if code = 30 then Some OracleStalePrice
     else if code = 31 then Some OracleInvalidPrice
     else if code = 32 then Some OracleConditionNotMet
     else if code = 33 then Some NoOracleCondition
     else if code = 34 then Some InvalidSchedule
     else if code = 35 then Some ReleaseNotYetDue
     else if code = 36 then Some ScheduleLedgerNotReached
     else if code = 37 then Some ScheduleNotFound
     else if code = 38 then Some RefundGraceActive
     else if code = 39 then Some InvalidGracePeriod
     else if code = 40 then Some RefundGraceElapsed
     else if code = 41 then Some DeadlineOutOfRange
     else None)"

datatype refund_reason =
    DeadlineExpired | AdminCancelled | Overfunded | PayerRequested | ErrorRecovery

datatype escrow_status = Pending | Active | Released | Refunded | Cancelled

record escrow_invoice =
  inv_creator :: addr
  inv_token :: addr
  inv_total_amount :: int
  inv_funded_amount :: int
  inv_deadline :: nat
  inv_status :: escrow_status
  inv_refund_reason :: "refund_reason option"

record blacklist_entry =
  bl_banned_at :: nat
  bl_appeal_hash :: "nat option"
  bl_finalised :: bool
  bl_upheld :: bool
  bl_reason_hash :: nat

datatype approval_status = ApprPending | Approved | Rejected

record cosigner_approval =
  ap_signers :: "addr list"
  ap_threshold :: nat
  ap_approvals :: "addr list"
  ap_rejections :: "addr list"
  ap_status :: approval_status
  ap_updated_ledger :: nat

record price_data =
  pd_price :: int
  pd_timestamp :: nat

datatype price_comparator = GreaterOrEqual | LessOrEqual

datatype oracle_source = Primary | Fallback

record oracle_condition =
  oc_oracle :: addr
  oc_fallback_oracle :: "addr option"
  oc_asset :: addr
  oc_comparator :: price_comparator
  oc_threshold_price :: int
  oc_max_staleness_secs :: nat

record oracle_reading =
  or_price :: int
  or_price_timestamp :: nat
  or_source :: oracle_source
  or_condition_met :: bool
  or_checked_at :: nat

datatype schedule_status = Scheduled | Executed | SchedCancelled

record release_schedule =
  sch_release_at :: nat
  sch_unlock_ledger :: nat
  sch_scheduled_at :: nat
  sch_scheduled_ledger :: nat
  sch_status :: schedule_status

record refund_grace =
  gr_grace_secs :: nat
  gr_extension_secs :: nat
  gr_waived :: bool

datatype refund_grace_status = NoGrace | NotStarted | GraceActive | Elapsed | Waived

datatype vote_action = VoteApproved | VoteRejected | VoteRevoked

datatype grace_action = GraceSet | GraceExt | GraceWvd

datatype escrow_event =
    EvAdminProposed addr addr nat
  | EvAdminAccepted addr nat
  | EvAdminCancelled addr addr nat
  | EvCreated nat addr int nat
  | EvDeposited nat addr int int
  | EvReleased nat int
  | EvEscrowReleased nat addr int
  | EvRefunded nat addr int refund_reason
  | EvCosignersSet nat "addr list" nat
  | EvVote vote_action nat addr nat nat approval_status
  | EvApprovalStatus nat approval_status approval_status
  | EvOracleSet nat addr "addr option" addr int
  | EvOracleCleared nat addr
  | EvOracleFallback nat escrow_error
  | EvScheduleSet nat nat nat
  | EvScheduleCancelled nat nat
  | EvScheduleExecuted nat nat nat
  | EvDefaultGrace nat
  | EvGrace grace_action nat nat nat bool
  | EvBlacklisted addr nat nat
  | EvAppeal addr nat
  | EvAppealContext nat addr
  | EvBlacklistFinalised addr bool

datatype ttl_key = ScheduleKey nat | InvoiceKey nat

text \<open>A transfer carries the token contract, the sender, the receiver and the amount.\<close>

datatype effect =
    Transfer addr addr addr int
  | Publish escrow_event
  | ExtendTtl ttl_key nat nat

record escrow_state =
  es_admin :: "addr option"
  es_pending_admin :: "addr option"
  es_counter :: "nat option"
  es_default_grace :: "nat option"
  es_invoices :: "nat \<rightharpoonup> escrow_invoice"
  es_deposits :: "nat \<Rightarrow> addr \<rightharpoonup> int"
  es_blacklist :: "addr \<rightharpoonup> blacklist_entry"
  es_approvals :: "nat \<rightharpoonup> cosigner_approval"
  es_oracle_cond :: "nat \<rightharpoonup> oracle_condition"
  es_oracle_read :: "nat \<rightharpoonup> oracle_reading"
  es_schedules :: "nat \<rightharpoonup> release_schedule"
  es_graces :: "nat \<rightharpoonup> refund_grace"
  es_effects :: "effect list"

definition empty_escrow :: escrow_state where
  "empty_escrow = \<lparr>es_admin = None, es_pending_admin = None, es_counter = None,
    es_default_grace = None, es_invoices = Map.empty, es_deposits = (\<lambda>_. Map.empty),
    es_blacklist = Map.empty, es_approvals = Map.empty, es_oracle_cond = Map.empty,
    es_oracle_read = Map.empty, es_schedules = Map.empty, es_graces = Map.empty, es_effects = []\<rparr>"

record escrow_env = ledger_env +
  lastprice :: "addr \<Rightarrow> addr \<Rightarrow> price_data option"
  max_ttl :: nat

type_synonym 'a escrow_result = "(escrow_error, 'a) result"

definition MAX_DEADLINE_HORIZON :: nat where "MAX_DEADLINE_HORIZON = 315360000"

definition APPEAL_WINDOW_LEDGERS :: nat where "APPEAL_WINDOW_LEDGERS = 360"

definition MAX_COSIGNERS :: nat where "MAX_COSIGNERS = 20"

definition MAX_SCHEDULE_LEDGERS :: nat where "MAX_SCHEDULE_LEDGERS = 6312000"

definition SCHEDULE_TTL_BUFFER_LEDGERS :: nat where "SCHEDULE_TTL_BUFFER_LEDGERS = 17280"

definition MAX_REFUND_GRACE_SECS :: nat where "MAX_REFUND_GRACE_SECS = 30 * 24 * 60 * 60"


section \<open>Effects\<close>

definition do_effect :: "effect \<Rightarrow> escrow_state \<Rightarrow> escrow_state" where
  "do_effect x s = s\<lparr>es_effects := es_effects s @ [x]\<rparr>"

definition token_transfer :: "addr \<Rightarrow> addr \<Rightarrow> addr \<Rightarrow> int \<Rightarrow> escrow_state \<Rightarrow> escrow_state" where
  "token_transfer tok src dst amount = do_effect (Transfer tok src dst amount)"

definition emit_admin_transfer_proposed ::
  "escrow_env \<Rightarrow> addr \<Rightarrow> addr \<Rightarrow> escrow_state \<Rightarrow> escrow_state" where
  "emit_admin_transfer_proposed e current proposed =
    do_effect (Publish (EvAdminProposed current proposed (sequence e)))"

definition emit_admin_transfer_accepted :: "escrow_env \<Rightarrow> addr \<Rightarrow> escrow_state \<Rightarrow> escrow_state" where
  "emit_admin_transfer_accepted e new_admin =
    do_effect (Publish (EvAdminAccepted new_admin (sequence e)))"

definition emit_admin_transfer_cancelled ::
  "escrow_env \<Rightarrow> addr \<Rightarrow> addr \<Rightarrow> escrow_state \<Rightarrow> escrow_state" where
  "emit_admin_transfer_cancelled e admin cancelled =
    do_effect (Publish (EvAdminCancelled admin cancelled (sequence e)))"

definition emit_invoice_created ::
  "nat \<Rightarrow> addr \<Rightarrow> int \<Rightarrow> nat \<Rightarrow> escrow_state \<Rightarrow> escrow_state" where
  "emit_invoice_created i creator tot deadline =
    do_effect (Publish (EvCreated i creator tot deadline))"

definition emit_deposited :: "nat \<Rightarrow> addr \<Rightarrow> int \<Rightarrow> int \<Rightarrow> escrow_state \<Rightarrow> escrow_state" where
  "emit_deposited i payer amount funded = do_effect (Publish (EvDeposited i payer amount funded))"

definition emit_released :: "nat \<Rightarrow> int \<Rightarrow> escrow_state \<Rightarrow> escrow_state" where
  "emit_released i tot = do_effect (Publish (EvReleased i tot))"

definition emit_refunded ::
  "nat \<Rightarrow> addr \<Rightarrow> int \<Rightarrow> refund_reason \<Rightarrow> escrow_state \<Rightarrow> escrow_state" where
  "emit_refunded i payer amount reason = do_effect (Publish (EvRefunded i payer amount reason))"

definition emit_cosigners_set :: "nat \<Rightarrow> addr list \<Rightarrow> nat \<Rightarrow> escrow_state \<Rightarrow> escrow_state" where
  "emit_cosigners_set i signers threshold = do_effect (Publish (EvCosignersSet i signers threshold))"

definition emit_cosigner_vote ::
  "vote_action \<Rightarrow> nat \<Rightarrow> addr \<Rightarrow> cosigner_approval \<Rightarrow> escrow_state \<Rightarrow> escrow_state" where
  "emit_cosigner_vote action i signer ap =
    do_effect (Publish (EvVote action i signer (length (ap_approvals ap))
      (length (ap_rejections ap)) (ap_status ap)))"

definition emit_approval_status_changed ::
  "nat \<Rightarrow> approval_status \<Rightarrow> approval_status \<Rightarrow> escrow_state \<Rightarrow> escrow_state" where
  "emit_approval_status_changed i old new = do_effect (Publish (EvApprovalStatus i old new))"

definition emit_oracle_condition_set ::
  "nat \<Rightarrow> oracle_condition \<Rightarrow> escrow_state \<Rightarrow> escrow_state" where
  "emit_oracle_condition_set i c =
    do_effect (Publish (EvOracleSet i (oc_oracle c) (oc_fallback_oracle c) (oc_asset c)
      (oc_threshold_price c)))"

definition emit_oracle_condition_cleared :: "nat \<Rightarrow> addr \<Rightarrow> escrow_state \<Rightarrow> escrow_state" where
  "emit_oracle_condition_cleared i admin = do_effect (Publish (EvOracleCleared i admin))"

definition emit_oracle_fallback :: "nat \<Rightarrow> escrow_error \<Rightarrow> escrow_state \<Rightarrow> escrow_state" where
  "emit_oracle_fallback i err = do_effect (Publish (EvOracleFallback i err))"

definition emit_schedule_set :: "nat \<Rightarrow> release_schedule \<Rightarrow> escrow_state \<Rightarrow> escrow_state" where
  "emit_schedule_set i sch =
    do_effect (Publish (EvScheduleSet i (sch_release_at sch) (sch_unlock_ledger sch)))"

definition emit_schedule_cancelled :: "escrow_env \<Rightarrow> nat \<Rightarrow> escrow_state \<Rightarrow> escrow_state" where
  "emit_schedule_cancelled e i = do_effect (Publish (EvScheduleCancelled i (sequence e)))"

definition emit_schedule_executed :: "escrow_env \<Rightarrow> nat \<Rightarrow> escrow_state \<Rightarrow> escrow_state" where
  "emit_schedule_executed e i =
    do_effect (Publish (EvScheduleExecuted i (timestamp e) (sequence e)))"

definition emit_default_grace_set :: "nat \<Rightarrow> escrow_state \<Rightarrow> escrow_state" where
  "emit_default_grace_set secs = do_effect (Publish (EvDefaultGrace secs))"

definition emit_grace_changed ::
  "grace_action \<Rightarrow> nat \<Rightarrow> refund_grace \<Rightarrow> escrow_state \<Rightarrow> escrow_state" where
  "emit_grace_changed action i g =
    do_effect (Publish (EvGrace action i (gr_grace_secs g) (gr_extension_secs g) (gr_waived g)))"

definition emit_payer_blacklisted :: "addr \<Rightarrow> nat \<Rightarrow> nat \<Rightarrow> escrow_state \<Rightarrow> escrow_state" where
  "emit_payer_blacklisted payer reason_hash banned_at =
    do_effect (Publish (EvBlacklisted payer reason_hash banned_at))"

definition emit_appeal_submitted :: "addr \<Rightarrow> nat \<Rightarrow> escrow_state \<Rightarrow> escrow_state" where
  "emit_appeal_submitted payer appeal_hash = do_effect (Publish (EvAppeal payer appeal_hash))"

definition emit_blacklist_finalised :: "addr \<Rightarrow> bool \<Rightarrow> escrow_state \<Rightarrow> escrow_state" where
  "emit_blacklist_finalised payer upheld = do_effect (Publish (EvBlacklistFinalised payer upheld))"

named_theorems escrow_emit \<open>unfolding of the effect helpers\<close>

declare token_transfer_def [escrow_emit] emit_admin_transfer_proposed_def [escrow_emit]
  emit_admin_transfer_accepted_def [escrow_emit] emit_admin_transfer_cancelled_def [escrow_emit]
  emit_invoice_created_def [escrow_emit] emit_deposited_def [escrow_emit]
  emit_released_def [escrow_emit] emit_refunded_def [escrow_emit]
  emit_cosigners_set_def [escrow_emit] emit_cosigner_vote_def [escrow_emit]
  emit_approval_status_changed_def [escrow_emit] emit_oracle_condition_set_def [escrow_emit]
  emit_oracle_condition_cleared_def [escrow_emit] emit_oracle_fallback_def [escrow_emit]
  emit_schedule_set_def [escrow_emit] emit_schedule_cancelled_def [escrow_emit]
  emit_schedule_executed_def [escrow_emit] emit_default_grace_set_def [escrow_emit]
  emit_grace_changed_def [escrow_emit] emit_payer_blacklisted_def [escrow_emit]
  emit_appeal_submitted_def [escrow_emit] emit_blacklist_finalised_def [escrow_emit]

lemma do_effect_fields [simp]:
  "es_admin (do_effect x s) = es_admin s"
  "es_pending_admin (do_effect x s) = es_pending_admin s"
  "es_counter (do_effect x s) = es_counter s"
  "es_default_grace (do_effect x s) = es_default_grace s"
  "es_invoices (do_effect x s) = es_invoices s"
  "es_deposits (do_effect x s) = es_deposits s"
  "es_blacklist (do_effect x s) = es_blacklist s"
  "es_approvals (do_effect x s) = es_approvals s"
  "es_oracle_cond (do_effect x s) = es_oracle_cond s"
  "es_oracle_read (do_effect x s) = es_oracle_read s"
  "es_schedules (do_effect x s) = es_schedules s"
  "es_graces (do_effect x s) = es_graces s"
  "es_effects (do_effect x s) = es_effects s @ [x]"
  by (simp_all add: do_effect_def)


section \<open>Internal helpers\<close>

definition require_admin :: "escrow_env \<Rightarrow> escrow_state \<Rightarrow> addr escrow_result" where
  "require_admin e s =
    bindr (ok_or (es_admin s) (Trap ''not initialized'')) (\<lambda>admin.
    bindr (require_auth e admin) (\<lambda>_. Inr admin))"

definition require_initialized :: "escrow_state \<Rightarrow> unit escrow_result" where
  "require_initialized s = ensure (es_admin s \<noteq> None) (Err NotInitialized)"

definition validate_deadline :: "escrow_env \<Rightarrow> nat \<Rightarrow> unit escrow_result" where
  "validate_deadline e deadline =
    (if deadline \<le> timestamp e then Inl (Err DeadlinePassed)
     else if sat_add u64_max (timestamp e) MAX_DEADLINE_HORIZON < deadline
       then Inl (Err DeadlineOutOfRange)
     else Inr ())"

definition get_invoice :: "escrow_state \<Rightarrow> nat \<Rightarrow> escrow_invoice escrow_result" where
  "get_invoice s i = ok_or (es_invoices s i) (Err InvoiceNotFound)"

definition save_invoice :: "nat \<Rightarrow> escrow_invoice \<Rightarrow> escrow_state \<Rightarrow> escrow_state" where
  "save_invoice i ei s = s\<lparr>es_invoices := (es_invoices s)(i \<mapsto> ei)\<rparr>"

definition is_open :: "escrow_invoice \<Rightarrow> bool" where
  "is_open ei \<longleftrightarrow> inv_status ei = Pending \<or> inv_status ei = Active"

definition save_approval :: "nat \<Rightarrow> cosigner_approval \<Rightarrow> escrow_state \<Rightarrow> escrow_state" where
  "save_approval i ap s = s\<lparr>es_approvals := (es_approvals s)(i \<mapsto> ap)\<rparr>"

definition recompute_approval_status :: "cosigner_approval \<Rightarrow> cosigner_approval escrow_result" where
  "recompute_approval_status ap =
    (if length (ap_signers ap) < length (ap_rejections ap) then Inl (Trap ''arithmetic overflow'')
     else
       (let remaining = length (ap_signers ap) - length (ap_rejections ap) in
        Inr (ap\<lparr>ap_status :=
          (if ap_threshold ap \<le> length (ap_approvals ap) then Approved
           else if remaining < ap_threshold ap then Rejected
           else ApprPending)\<rparr>)))"

definition read_oracle :: "escrow_env \<Rightarrow> addr \<Rightarrow> addr \<Rightarrow> nat \<Rightarrow> escrow_error + price_data" where
  "read_oracle e oracle asset max_staleness_secs =
    (case lastprice e oracle asset of
       None \<Rightarrow> Inl OracleUnavailable
     | Some data \<Rightarrow>
         if pd_price data \<le> 0 \<or> timestamp e < pd_timestamp data then Inl OracleInvalidPrice
         else if max_staleness_secs < timestamp e - pd_timestamp data then Inl OracleStalePrice
         else Inr data)"

definition condition_holds :: "oracle_condition \<Rightarrow> int \<Rightarrow> bool" where
  "condition_holds c price =
    (case oc_comparator c of
       GreaterOrEqual \<Rightarrow> oc_threshold_price c \<le> price
     | LessOrEqual \<Rightarrow> price \<le> oc_threshold_price c)"

definition mk_reading :: "escrow_env \<Rightarrow> oracle_condition \<Rightarrow> price_data \<Rightarrow> oracle_source \<Rightarrow> oracle_reading" where
  "mk_reading e c data source = \<lparr>or_price = pd_price data, or_price_timestamp = pd_timestamp data,
    or_source = source, or_condition_met = condition_holds c (pd_price data),
    or_checked_at = timestamp e\<rparr>"

text \<open>The evaluation publishes a fallback event even when it then fails, so it returns the state
  on both paths; the caller decides whether the invocation fails.\<close>

definition evaluate_oracle_condition ::
  "escrow_env \<Rightarrow> nat \<Rightarrow> oracle_condition \<Rightarrow> escrow_state \<Rightarrow> (escrow_error + oracle_reading) \<times> escrow_state" where
  "evaluate_oracle_condition e i c s =
    (case read_oracle e (oc_oracle c) (oc_asset c) (oc_max_staleness_secs c) of
       Inr data \<Rightarrow> (Inr (mk_reading e c data Primary), s)
     | Inl primary_err \<Rightarrow>
         (case oc_fallback_oracle c of
            None \<Rightarrow> (Inl primary_err, s)
          | Some fallback \<Rightarrow>
              (let s1 = emit_oracle_fallback i primary_err s in
               case read_oracle e fallback (oc_asset c) (oc_max_staleness_secs c) of
                 Inl err \<Rightarrow> (Inl err, s1)
               | Inr data \<Rightarrow> (Inr (mk_reading e c data Fallback), s1))))"

definition save_schedule :: "escrow_env \<Rightarrow> nat \<Rightarrow> release_schedule \<Rightarrow> escrow_state \<Rightarrow> escrow_state" where
  "save_schedule e i sch s =
    (let s1 = s\<lparr>es_schedules := (es_schedules s)(i \<mapsto> sch)\<rparr>;
         ledgers_left = sch_unlock_ledger sch - sequence e;
         extend_to = min (sat_add u32_max ledgers_left SCHEDULE_TTL_BUFFER_LEDGERS) (max_ttl e)
     in do_effect (ExtendTtl (InvoiceKey i) extend_to extend_to)
          (do_effect (ExtendTtl (ScheduleKey i) extend_to extend_to) s1))"

definition schedule_gate :: "escrow_env \<Rightarrow> release_schedule option \<Rightarrow> escrow_error option" where
  "schedule_gate e so =
    (case so of
       None \<Rightarrow> None
     | Some sch \<Rightarrow>
         if sch_status sch = Scheduled then
           (if timestamp e < sch_release_at sch then Some ReleaseNotYetDue
            else if sequence e < sch_unlock_ledger sch then Some ScheduleLedgerNotReached
            else None)
         else None)"

definition approval_gate :: "cosigner_approval option \<Rightarrow> escrow_error option" where
  "approval_gate ao =
    (case ao of
       None \<Rightarrow> None
     | Some ap \<Rightarrow>
         (case ap_status ap of
            Approved \<Rightarrow> None
          | ApprPending \<Rightarrow> Some ApprovalRequired
          | Rejected \<Rightarrow> Some ApprovalRejected))"

definition check_release_gates ::
  "escrow_env \<Rightarrow> nat \<Rightarrow> escrow_state \<Rightarrow> (escrow_error + unit) \<times> escrow_state" where
  "check_release_gates e i s =
    (case schedule_gate e (es_schedules s i) of
       Some err \<Rightarrow> (Inl err, s)
     | None \<Rightarrow>
         (case approval_gate (es_approvals s i) of
            Some err \<Rightarrow> (Inl err, s)
          | None \<Rightarrow>
              (case es_oracle_cond s i of
                 None \<Rightarrow> (Inr (), s)
               | Some c \<Rightarrow>
                   (case evaluate_oracle_condition e i c s of
                      (Inl err, s1) \<Rightarrow> (Inl err, s1)
                    | (Inr reading, s1) \<Rightarrow>
                        (let s2 = s1\<lparr>es_oracle_read := (es_oracle_read s1)(i \<mapsto> reading)\<rparr> in
                         if \<not> or_condition_met reading then (Inl OracleConditionNotMet, s2)
                         else (Inr (), s2))))))"

text \<open>The common end of a vote and of its revocation: store the record, publish the events.\<close>

definition store_vote ::
  "escrow_env \<Rightarrow> vote_action \<Rightarrow> nat \<Rightarrow> addr \<Rightarrow> approval_status \<Rightarrow> cosigner_approval \<Rightarrow> escrow_state
    \<Rightarrow> approval_status \<times> escrow_state" where
  "store_vote e action i signer old_status ap s =
    (let ap1 = ap\<lparr>ap_updated_ledger := sequence e\<rparr>;
         s1 = emit_cosigner_vote action i signer ap1 (save_approval i ap1 s);
         s2 = (if old_status \<noteq> ap_status ap1
               then emit_approval_status_changed i old_status (ap_status ap1) s1 else s1)
     in (ap_status ap1, s2))"

definition cast_vote ::
  "escrow_env \<Rightarrow> addr \<Rightarrow> nat \<Rightarrow> bool \<Rightarrow> escrow_state \<Rightarrow> (approval_status \<times> escrow_state) escrow_result" where
  "cast_vote e signer i approve s =
    bindr (require_auth e signer) (\<lambda>_.
    bindr (get_invoice s i) (\<lambda>ei.
    if \<not> is_open ei then Inl (Err InvalidStatus)
    else
      bindr (ok_or (es_approvals s i) (Err NoCosigners)) (\<lambda>ap.
      if signer \<notin> set (ap_signers ap) then Inl (Err NotCosigner)
      else if signer \<in> set (ap_approvals ap) \<or> signer \<in> set (ap_rejections ap)
        then Inl (Err AlreadyVoted)
      else
        (let ap1 = (if approve then ap\<lparr>ap_approvals := ap_approvals ap @ [signer]\<rparr>
                    else ap\<lparr>ap_rejections := ap_rejections ap @ [signer]\<rparr>);
             action = (if approve then VoteApproved else VoteRejected);
             old_status = ap_status ap1
         in bindr (recompute_approval_status ap1) (\<lambda>ap2.
            Inr (store_vote e action i signer old_status ap2 s))))))"

definition save_grace :: "nat \<Rightarrow> refund_grace \<Rightarrow> escrow_state \<Rightarrow> escrow_state" where
  "save_grace i g s = s\<lparr>es_graces := (es_graces s)(i \<mapsto> g)\<rparr>"

definition refund_opens_at :: "escrow_invoice \<Rightarrow> refund_grace option \<Rightarrow> nat" where
  "refund_opens_at ei go =
    (case go of
       Some g \<Rightarrow> if \<not> gr_waived g
         then sat_add u64_max (sat_add u64_max (inv_deadline ei) (gr_grace_secs g)) (gr_extension_secs g)
         else inv_deadline ei
     | None \<Rightarrow> inv_deadline ei)"

definition grace_status ::
  "escrow_env \<Rightarrow> escrow_invoice \<Rightarrow> refund_grace option \<Rightarrow> refund_grace_status" where
  "grace_status e ei go =
    (case go of
       None \<Rightarrow> NoGrace
     | Some g \<Rightarrow>
         if \<not> (0 < gr_grace_secs g \<or> 0 < gr_extension_secs g \<or> gr_waived g) then NoGrace
         else if gr_waived g then Waived
         else if timestamp e \<le> inv_deadline ei then NotStarted
         else if timestamp e \<le> refund_opens_at ei go then GraceActive
         else Elapsed)"

definition execute_release ::
  "escrow_env \<Rightarrow> nat \<Rightarrow> escrow_invoice \<Rightarrow> escrow_state \<Rightarrow> (addr \<times> int) \<times> escrow_state" where
  "execute_release e i ei s =
    (let tot = inv_total_amount ei;
         creator = inv_creator ei;
         s1 = save_invoice i (ei\<lparr>inv_status := Released\<rparr>) s;
         s2 = token_transfer (inv_token ei) (self_addr e) creator tot s1;
         s3 = emit_released i tot s2;
         s4 = (case es_schedules s3 i of
                 None \<Rightarrow> s3
               | Some sch \<Rightarrow>
                   if sch_status sch = Scheduled then
                     emit_schedule_executed e i
                       (s3\<lparr>es_schedules := (es_schedules s3)(i \<mapsto> sch\<lparr>sch_status := Executed\<rparr>)\<rparr>)
                   else s3)
     in ((creator, tot), s4))"


section \<open>Lifecycle and admin handover\<close>

definition initialize :: "escrow_env \<Rightarrow> addr \<Rightarrow> escrow_state \<Rightarrow> escrow_state escrow_result" where
  "initialize e admin s =
    (if es_admin s \<noteq> None then Inl (Err AlreadyInitialized)
     else bindr (require_auth e admin) (\<lambda>_.
       Inr (s\<lparr>es_admin := Some admin, es_counter := Some 0\<rparr>)))"

definition transfer_admin :: "escrow_env \<Rightarrow> addr \<Rightarrow> escrow_state \<Rightarrow> escrow_state escrow_result" where
  "transfer_admin e new_admin s =
    bindr (require_initialized s) (\<lambda>_.
    bindr (require_admin e s) (\<lambda>current_admin.
    Inr (emit_admin_transfer_proposed e current_admin new_admin
      (s\<lparr>es_pending_admin := Some new_admin\<rparr>))))"

definition accept_admin :: "escrow_env \<Rightarrow> escrow_state \<Rightarrow> escrow_state escrow_result" where
  "accept_admin e s =
    bindr (ok_or (es_pending_admin s) (Err NoPendingAdmin)) (\<lambda>pending.
    bindr (require_auth e pending) (\<lambda>_.
    Inr (emit_admin_transfer_accepted e pending
      (s\<lparr>es_admin := Some pending, es_pending_admin := None\<rparr>))))"

definition cancel_transfer :: "escrow_env \<Rightarrow> escrow_state \<Rightarrow> escrow_state escrow_result" where
  "cancel_transfer e s =
    bindr (require_initialized s) (\<lambda>_.
    bindr (require_admin e s) (\<lambda>admin.
    bindr (ok_or (es_pending_admin s) (Err NoPendingAdmin)) (\<lambda>pending.
    Inr (emit_admin_transfer_cancelled e admin pending (s\<lparr>es_pending_admin := None\<rparr>)))))"

definition get_admin :: "escrow_state \<Rightarrow> addr escrow_result" where
  "get_admin s = ok_or (es_admin s) (Err NotInitialized)"

definition get_pending_admin :: "escrow_state \<Rightarrow> addr option" where
  "get_pending_admin s = es_pending_admin s"


section \<open>Invoices, deposits, release and refund\<close>

definition create_invoice ::
  "escrow_env \<Rightarrow> addr \<Rightarrow> addr \<Rightarrow> int \<Rightarrow> nat \<Rightarrow> escrow_state \<Rightarrow> (nat \<times> escrow_state) escrow_result" where
  "create_invoice e creator token total_amount deadline s =
    bindr (require_initialized s) (\<lambda>_.
    if total_amount \<le> 0 then Inl (Err InvalidTotalAmount)
    else
      bindr (validate_deadline e deadline) (\<lambda>_.
      bindr (require_auth e creator) (\<lambda>_.
      let i = (case es_counter s of None \<Rightarrow> 0 | Some n \<Rightarrow> n) in
      bindr (ok_or (checked_nat u64_max (i + 1)) (Trap ''invoice counter overflow'')) (\<lambda>next_id.
      let s1 = s\<lparr>es_counter := Some next_id\<rparr>;
          ei = \<lparr>inv_creator = creator, inv_token = token, inv_total_amount = total_amount,
            inv_funded_amount = 0, inv_deadline = deadline, inv_status = Pending,
            inv_refund_reason = None\<rparr>;
          s2 = save_invoice i ei s1;
          default_grace = (case es_default_grace s2 of None \<Rightarrow> 0 | Some g \<Rightarrow> g);
          s3 = (if 0 < default_grace
                then save_grace i \<lparr>gr_grace_secs = default_grace, gr_extension_secs = 0,
                  gr_waived = False\<rparr> s2
                else s2)
      in Inr (i, emit_invoice_created i creator total_amount deadline s3)))))"

definition blacklist_blocks :: "escrow_state \<Rightarrow> addr \<Rightarrow> bool" where
  "blacklist_blocks s payer =
    (case es_blacklist s payer of None \<Rightarrow> False | Some b \<Rightarrow> bl_finalised b \<and> bl_upheld b)"

definition deposit_of :: "escrow_state \<Rightarrow> nat \<Rightarrow> addr \<Rightarrow> int" where
  "deposit_of s i payer = (case es_deposits s i payer of None \<Rightarrow> 0 | Some a \<Rightarrow> a)"

definition set_deposit :: "nat \<Rightarrow> addr \<Rightarrow> int option \<Rightarrow> escrow_state \<Rightarrow> escrow_state" where
  "set_deposit i payer v s =
    s\<lparr>es_deposits := (es_deposits s)(i := (es_deposits s i)(payer := v))\<rparr>"

definition deposit ::
  "escrow_env \<Rightarrow> addr \<Rightarrow> nat \<Rightarrow> int \<Rightarrow> escrow_state \<Rightarrow> escrow_state escrow_result" where
  "deposit e payer i amount s =
    (if amount \<le> 0 then Inl (Err InvalidAmount)
     else
       bindr (require_auth e payer) (\<lambda>_.
       if blacklist_blocks s payer then Inl (Err PayerBlacklisted)
       else
         bindr (get_invoice s i) (\<lambda>ei.
         if inv_status ei \<noteq> Pending \<and> inv_status ei \<noteq> Active then Inl (Err InvalidStatus)
         else if inv_deadline ei < timestamp e then Inl (Err DeadlinePassed)
         else
           bindr (ok_or (checked_i128 (inv_funded_amount ei + amount)) (Trap ''funded_amount overflow''))
             (\<lambda>new_funded.
           if inv_total_amount ei < new_funded then Inl (Err OverFunded)
           else
             (let s1 = token_transfer (inv_token ei) payer (self_addr e) amount s in
              bindr (arith (deposit_of s1 i payer + amount)) (\<lambda>contribution.
              let s2 = set_deposit i payer (Some contribution) s1;
                  ei1 = ei\<lparr>inv_funded_amount := new_funded, inv_status := Active\<rparr>;
                  s3 = emit_deposited i payer amount new_funded s2
              in if inv_total_amount ei1 \<le> new_funded then
                   (case check_release_gates e i s3 of
                      (Inr _, s4) \<Rightarrow> Inr (snd (execute_release e i ei1 s4))
                    | (Inl _, s4) \<Rightarrow> Inr (save_invoice i ei1 s4))
                 else Inr (save_invoice i ei1 s3)))))))"

definition pay_invoice ::
  "escrow_env \<Rightarrow> addr \<Rightarrow> nat \<Rightarrow> int \<Rightarrow> escrow_state \<Rightarrow> escrow_state escrow_result" where
  "pay_invoice e payer i amount s = deposit e payer i amount s"

definition closed :: "escrow_invoice \<Rightarrow> bool" where
  "closed ei \<longleftrightarrow> inv_status ei = Released \<or> inv_status ei = Refunded \<or> inv_status ei = Cancelled"

definition release :: "escrow_env \<Rightarrow> nat \<Rightarrow> escrow_state \<Rightarrow> escrow_state escrow_result" where
  "release e i s =
    bindr (get_invoice s i) (\<lambda>ei.
    if closed ei then Inl (Err InvalidStatus)
    else if inv_funded_amount ei < inv_total_amount ei then Inl (Err InsufficientFunding)
    else
      (case check_release_gates e i s of
         (Inl err, _) \<Rightarrow> Inl (Err err)
       | (Inr _, s1) \<Rightarrow>
           (case execute_release e i ei s1 of
              ((creator, tot), s2) \<Rightarrow>
                Inr (do_effect (Publish (EvEscrowReleased i creator tot)) s2))))"

definition refund_payer ::
  "escrow_env \<Rightarrow> nat \<Rightarrow> addr \<Rightarrow> refund_reason \<Rightarrow> addr \<Rightarrow> escrow_state \<Rightarrow> escrow_state" where
  "refund_payer e i token reason payer s =
    (let amount = deposit_of s i payer in
     if 0 < amount then
       emit_refunded i payer amount reason
         (token_transfer token (self_addr e) payer amount (set_deposit i payer None s))
     else s)"

definition refund ::
  "escrow_env \<Rightarrow> nat \<Rightarrow> addr list \<Rightarrow> refund_reason \<Rightarrow> escrow_state \<Rightarrow> escrow_state escrow_result" where
  "refund e i payers reason s =
    bindr (get_invoice s i) (\<lambda>ei.
    if closed ei then Inl (Err InvalidStatus)
    else if timestamp e \<le> inv_deadline ei then Inl (Err DeadlineNotPassed)
    else if timestamp e \<le> refund_opens_at ei (es_graces s i) then Inl (Err RefundGraceActive)
    else
      (let s1 = fold (refund_payer e i (inv_token ei) reason) payers s;
           ei1 = ei\<lparr>inv_status := Refunded, inv_refund_reason := Some reason\<rparr>
       in Inr (save_invoice i ei1 s1)))"

definition cancel_invoice :: "escrow_env \<Rightarrow> nat \<Rightarrow> escrow_state \<Rightarrow> escrow_state escrow_result" where
  "cancel_invoice e i s =
    bindr (require_initialized s) (\<lambda>_.
    bindr (require_admin e s) (\<lambda>_.
    bindr (get_invoice s i) (\<lambda>ei.
    if closed ei then Inl (Err InvalidStatus)
    else Inr (save_invoice i (ei\<lparr>inv_status := Cancelled\<rparr>) s))))"


section \<open>Co-signer approval\<close>

definition set_cosigners ::
  "escrow_env \<Rightarrow> nat \<Rightarrow> addr list \<Rightarrow> nat \<Rightarrow> escrow_state \<Rightarrow> escrow_state escrow_result" where
  "set_cosigners e i signers threshold s =
    bindr (get_invoice s i) (\<lambda>ei.
    bindr (require_auth e (inv_creator ei)) (\<lambda>_.
    if \<not> is_open ei then Inl (Err InvalidStatus)
    else
      (let count = length signers in
       if count = 0 \<or> MAX_COSIGNERS < count \<or> threshold = 0 \<or> count < threshold
         then Inl (Err InvalidCosignerConfig)
       else if \<not> distinct signers then Inl (Err InvalidCosignerConfig)
       else if (case es_approvals s i of None \<Rightarrow> False
                | Some existing \<Rightarrow> ap_approvals existing \<noteq> [] \<or> ap_rejections existing \<noteq> [])
         then Inl (Err CosignersLocked)
       else
         (let ap = \<lparr>ap_signers = signers, ap_threshold = threshold, ap_approvals = [],
                ap_rejections = [], ap_status = ApprPending, ap_updated_ledger = sequence e\<rparr>
          in Inr (emit_cosigners_set i signers threshold (save_approval i ap s))))))"

definition approve_release ::
  "escrow_env \<Rightarrow> addr \<Rightarrow> nat \<Rightarrow> escrow_state \<Rightarrow> (approval_status \<times> escrow_state) escrow_result" where
  "approve_release e signer i s = cast_vote e signer i True s"

definition reject_release ::
  "escrow_env \<Rightarrow> addr \<Rightarrow> nat \<Rightarrow> escrow_state \<Rightarrow> (approval_status \<times> escrow_state) escrow_result" where
  "reject_release e signer i s = cast_vote e signer i False s"

definition revoke_vote ::
  "escrow_env \<Rightarrow> addr \<Rightarrow> nat \<Rightarrow> escrow_state \<Rightarrow> (approval_status \<times> escrow_state) escrow_result" where
  "revoke_vote e signer i s =
    bindr (require_auth e signer) (\<lambda>_.
    bindr (get_invoice s i) (\<lambda>ei.
    if \<not> is_open ei then Inl (Err InvalidStatus)
    else
      bindr (ok_or (es_approvals s i) (Err NoCosigners)) (\<lambda>ap.
      if signer \<notin> set (ap_signers ap) then Inl (Err NotCosigner)
      else
        bindr (if signer \<in> set (ap_approvals ap)
                 then Inr (ap\<lparr>ap_approvals := remove1 signer (ap_approvals ap)\<rparr>)
               else if signer \<in> set (ap_rejections ap)
                 then Inr (ap\<lparr>ap_rejections := remove1 signer (ap_rejections ap)\<rparr>)
               else Inl (Err NotVoted)) (\<lambda>ap1.
        bindr (recompute_approval_status ap1) (\<lambda>ap2.
        Inr (store_vote e VoteRevoked i signer (ap_status ap1) ap2 s))))))"


section \<open>Oracle conditions and release schedules\<close>

definition set_oracle_condition ::
  "escrow_env \<Rightarrow> nat \<Rightarrow> oracle_condition \<Rightarrow> escrow_state \<Rightarrow> escrow_state escrow_result" where
  "set_oracle_condition e i c s =
    bindr (get_invoice s i) (\<lambda>ei.
    bindr (require_auth e (inv_creator ei)) (\<lambda>_.
    if inv_status ei \<noteq> Pending then Inl (Err InvalidStatus)
    else if oc_threshold_price c \<le> 0 \<or> oc_max_staleness_secs c = 0
        \<or> oc_fallback_oracle c = Some (oc_oracle c)
      then Inl (Err InvalidOracleConfig)
    else Inr (emit_oracle_condition_set i c
      (s\<lparr>es_oracle_cond := (es_oracle_cond s)(i \<mapsto> c)\<rparr>))))"

definition clear_oracle_condition ::
  "escrow_env \<Rightarrow> nat \<Rightarrow> escrow_state \<Rightarrow> escrow_state escrow_result" where
  "clear_oracle_condition e i s =
    bindr (require_initialized s) (\<lambda>_.
    bindr (require_admin e s) (\<lambda>admin.
    bindr (get_invoice s i) (\<lambda>ei.
    if \<not> is_open ei then Inl (Err InvalidStatus)
    else if es_oracle_cond s i = None then Inl (Err NoOracleCondition)
    else Inr (emit_oracle_condition_cleared i admin
      (s\<lparr>es_oracle_cond := (es_oracle_cond s)(i := None),
         es_oracle_read := (es_oracle_read s)(i := None)\<rparr>)))))"

definition check_oracle_condition ::
  "escrow_env \<Rightarrow> nat \<Rightarrow> escrow_state \<Rightarrow> (oracle_reading \<times> escrow_state) escrow_result" where
  "check_oracle_condition e i s =
    bindr (get_invoice s i) (\<lambda>_.
    bindr (ok_or (es_oracle_cond s i) (Err NoOracleCondition)) (\<lambda>c.
    case evaluate_oracle_condition e i c s of
      (Inl err, _) \<Rightarrow> Inl (Err err)
    | (Inr reading, s1) \<Rightarrow> Inr (reading, s1)))"

definition schedule_release ::
  "escrow_env \<Rightarrow> nat \<Rightarrow> nat \<Rightarrow> nat \<Rightarrow> escrow_state \<Rightarrow> (release_schedule \<times> escrow_state) escrow_result" where
  "schedule_release e i release_at min_ledgers s =
    bindr (get_invoice s i) (\<lambda>ei.
    bindr (require_auth e (inv_creator ei)) (\<lambda>_.
    if \<not> is_open ei then Inl (Err InvalidStatus)
    else if release_at \<le> timestamp e \<or> MAX_SCHEDULE_LEDGERS < min_ledgers
      then Inl (Err InvalidSchedule)
    else
      bindr (ok_or (checked_nat u32_max (sequence e + min_ledgers)) (Err InvalidSchedule)) (\<lambda>unlock_ledger.
      let sch = \<lparr>sch_release_at = release_at, sch_unlock_ledger = unlock_ledger,
            sch_scheduled_at = timestamp e, sch_scheduled_ledger = sequence e,
            sch_status = Scheduled\<rparr>
      in Inr (sch, emit_schedule_set i sch (save_schedule e i sch s)))))"

definition cancel_release_schedule ::
  "escrow_env \<Rightarrow> nat \<Rightarrow> escrow_state \<Rightarrow> escrow_state escrow_result" where
  "cancel_release_schedule e i s =
    bindr (get_invoice s i) (\<lambda>ei.
    bindr (require_auth e (inv_creator ei)) (\<lambda>_.
    if \<not> is_open ei then Inl (Err InvalidStatus)
    else
      bindr (ok_or (case es_schedules s i of
          None \<Rightarrow> None
        | Some sch \<Rightarrow> if sch_status sch = Scheduled then Some sch else None) (Err ScheduleNotFound)) (\<lambda>sch.
      Inr (emit_schedule_cancelled e i
        (s\<lparr>es_schedules := (es_schedules s)(i \<mapsto> sch\<lparr>sch_status := SchedCancelled\<rparr>)\<rparr>)))))"


section \<open>Refund grace period\<close>

definition set_default_refund_grace ::
  "escrow_env \<Rightarrow> nat \<Rightarrow> escrow_state \<Rightarrow> escrow_state escrow_result" where
  "set_default_refund_grace e grace_secs s =
    bindr (require_initialized s) (\<lambda>_.
    bindr (require_admin e s) (\<lambda>_.
    if MAX_REFUND_GRACE_SECS < grace_secs then Inl (Err InvalidGracePeriod)
    else Inr (emit_default_grace_set grace_secs (s\<lparr>es_default_grace := Some grace_secs\<rparr>))))"

definition get_default_refund_grace :: "escrow_state \<Rightarrow> nat" where
  "get_default_refund_grace s = (case es_default_grace s of None \<Rightarrow> 0 | Some g \<Rightarrow> g)"

definition set_refund_grace ::
  "escrow_env \<Rightarrow> nat \<Rightarrow> nat \<Rightarrow> escrow_state \<Rightarrow> escrow_state escrow_result" where
  "set_refund_grace e i grace_secs s =
    bindr (get_invoice s i) (\<lambda>ei.
    bindr (require_auth e (inv_creator ei)) (\<lambda>_.
    if inv_status ei \<noteq> Pending then Inl (Err InvalidStatus)
    else if MAX_REFUND_GRACE_SECS < grace_secs then Inl (Err InvalidGracePeriod)
    else
      (let g = \<lparr>gr_grace_secs = grace_secs, gr_extension_secs = 0, gr_waived = False\<rparr>
       in Inr (emit_grace_changed GraceSet i g (save_grace i g s)))))"

definition extend_refund_grace ::
  "escrow_env \<Rightarrow> nat \<Rightarrow> nat \<Rightarrow> escrow_state \<Rightarrow> escrow_state escrow_result" where
  "extend_refund_grace e i extra_secs s =
    bindr (require_initialized s) (\<lambda>_.
    bindr (require_admin e s) (\<lambda>_.
    bindr (get_invoice s i) (\<lambda>ei.
    if \<not> is_open ei then Inl (Err InvalidStatus)
    else
      (let current = es_graces s i; st = grace_status e ei current in
       if st = Elapsed \<or> st = Waived then Inl (Err RefundGraceElapsed)
       else if st = NoGrace \<and> inv_deadline ei < timestamp e then Inl (Err RefundGraceElapsed)
       else
         (let g = (case current of Some g \<Rightarrow> g
                   | None \<Rightarrow> \<lparr>gr_grace_secs = 0, gr_extension_secs = 0, gr_waived = False\<rparr>) in
          bindr (ok_or (Option.bind (checked_nat u64_max (gr_grace_secs g + gr_extension_secs g))
                   (\<lambda>t. checked_nat u64_max (t + extra_secs))) (Err InvalidGracePeriod)) (\<lambda>tot.
          if extra_secs = 0 \<or> MAX_REFUND_GRACE_SECS < tot then Inl (Err InvalidGracePeriod)
          else
            (let g1 = g\<lparr>gr_extension_secs := gr_extension_secs g + extra_secs\<rparr>
             in Inr (emit_grace_changed GraceExt i g1 (save_grace i g1 s)))))))))"

definition waive_refund_grace ::
  "escrow_env \<Rightarrow> nat \<Rightarrow> escrow_state \<Rightarrow> escrow_state escrow_result" where
  "waive_refund_grace e i s =
    bindr (require_initialized s) (\<lambda>_.
    bindr (require_admin e s) (\<lambda>_.
    bindr (get_invoice s i) (\<lambda>ei.
    if \<not> is_open ei then Inl (Err InvalidStatus)
    else
      (let current = es_graces s i; st = grace_status e ei current in
       if \<not> (st = NotStarted \<or> st = GraceActive) then Inl (Err RefundGraceElapsed)
       else
         bindr (ok_or current (Trap ''unwrap on None'')) (\<lambda>g.
         let g1 = g\<lparr>gr_waived := True\<rparr>
         in Inr (emit_grace_changed GraceWvd i g1 (save_grace i g1 s)))))))"


section \<open>Payer blacklist\<close>

definition require_named_admin :: "escrow_env \<Rightarrow> addr \<Rightarrow> escrow_state \<Rightarrow> unit escrow_result" where
  "require_named_admin e admin s =
    bindr (require_initialized s) (\<lambda>_.
    bindr (ok_or (es_admin s) (Trap ''unwrap on None'')) (\<lambda>stored_admin.
    if admin \<noteq> stored_admin then Inl (Err NotAdmin)
    else require_auth e admin))"

definition blacklist_payer ::
  "escrow_env \<Rightarrow> addr \<Rightarrow> addr \<Rightarrow> nat \<Rightarrow> escrow_state \<Rightarrow> escrow_state escrow_result" where
  "blacklist_payer e admin payer reason_hash s =
    bindr (require_named_admin e admin s) (\<lambda>_.
    let entry = \<lparr>bl_banned_at = timestamp e, bl_appeal_hash = None, bl_finalised = False,
          bl_upheld = False, bl_reason_hash = reason_hash\<rparr>
    in Inr (emit_payer_blacklisted payer reason_hash (timestamp e)
         (s\<lparr>es_blacklist := (es_blacklist s)(payer \<mapsto> entry)\<rparr>)))"

definition submit_appeal ::
  "escrow_env \<Rightarrow> addr \<Rightarrow> nat \<Rightarrow> nat \<Rightarrow> escrow_state \<Rightarrow> escrow_state escrow_result" where
  "submit_appeal e payer i appeal_hash s =
    bindr (require_auth e payer) (\<lambda>_.
    bindr (ok_or (es_blacklist s payer) (Err NotBlacklisted)) (\<lambda>entry.
    if bl_finalised entry then Inl (Err AlreadyFinalised)
    else if sat_add u64_max (bl_banned_at entry) (APPEAL_WINDOW_LEDGERS * 5) < timestamp e
      then Inl (Err AppealWindowExpired)
    else
      (let entry1 = entry\<lparr>bl_appeal_hash := Some appeal_hash\<rparr>
       in Inr (do_effect (Publish (EvAppealContext i payer))
            (emit_appeal_submitted payer appeal_hash
              (s\<lparr>es_blacklist := (es_blacklist s)(payer \<mapsto> entry1)\<rparr>))))))"

definition finalise_blacklist ::
  "escrow_env \<Rightarrow> addr \<Rightarrow> addr \<Rightarrow> bool \<Rightarrow> escrow_state \<Rightarrow> escrow_state escrow_result" where
  "finalise_blacklist e admin payer uphold s =
    bindr (require_named_admin e admin s) (\<lambda>_.
    bindr (ok_or (es_blacklist s payer) (Err NotBlacklisted)) (\<lambda>entry.
    if bl_finalised entry then Inl (Err AlreadyFinalised)
    else
      (let s1 = (if uphold
           then s\<lparr>es_blacklist := (es_blacklist s)(payer \<mapsto> entry\<lparr>bl_finalised := True, bl_upheld := True\<rparr>)\<rparr>
           else s\<lparr>es_blacklist := (es_blacklist s)(payer := None)\<rparr>)
       in Inr (emit_blacklist_finalised payer uphold s1))))"


section \<open>Read-only queries\<close>

definition get_escrow_balance :: "escrow_state \<Rightarrow> nat \<Rightarrow> int" where
  "get_escrow_balance s i = (case es_invoices s i of None \<Rightarrow> 0 | Some ei \<Rightarrow> inv_funded_amount ei)"

definition has_approved :: "escrow_state \<Rightarrow> nat \<Rightarrow> addr \<Rightarrow> bool" where
  "has_approved s i signer =
    (case es_approvals s i of None \<Rightarrow> False | Some ap \<Rightarrow> signer \<in> set (ap_approvals ap))"

definition approvals_remaining :: "escrow_state \<Rightarrow> nat \<Rightarrow> nat" where
  "approvals_remaining s i =
    (case es_approvals s i of None \<Rightarrow> 0 | Some ap \<Rightarrow> ap_threshold ap - length (ap_approvals ap))"

definition is_release_due :: "escrow_env \<Rightarrow> escrow_state \<Rightarrow> nat \<Rightarrow> bool" where
  "is_release_due e s i =
    (case es_schedules s i of
       None \<Rightarrow> True
     | Some sch \<Rightarrow> sch_status sch \<noteq> Scheduled
         \<or> (sch_release_at sch \<le> timestamp e \<and> sch_unlock_ledger sch \<le> sequence e))"

definition seconds_until_release :: "escrow_env \<Rightarrow> escrow_state \<Rightarrow> nat \<Rightarrow> nat" where
  "seconds_until_release e s i =
    (case es_schedules s i of
       None \<Rightarrow> 0
     | Some sch \<Rightarrow> if sch_status sch = Scheduled then sch_release_at sch - timestamp e else 0)"

definition ledgers_until_release :: "escrow_env \<Rightarrow> escrow_state \<Rightarrow> nat \<Rightarrow> nat" where
  "ledgers_until_release e s i =
    (case es_schedules s i of
       None \<Rightarrow> 0
     | Some sch \<Rightarrow> if sch_status sch = Scheduled then sch_unlock_ledger sch - sequence e else 0)"

definition get_refund_grace_status ::
  "escrow_env \<Rightarrow> escrow_state \<Rightarrow> nat \<Rightarrow> refund_grace_status escrow_result" where
  "get_refund_grace_status e s i =
    bindr (get_invoice s i) (\<lambda>ei. Inr (grace_status e ei (es_graces s i)))"

definition refund_available_after :: "escrow_state \<Rightarrow> nat \<Rightarrow> nat escrow_result" where
  "refund_available_after s i =
    bindr (get_invoice s i) (\<lambda>ei. Inr (refund_opens_at ei (es_graces s i)))"

definition refund_grace_remaining :: "escrow_env \<Rightarrow> escrow_state \<Rightarrow> nat \<Rightarrow> nat escrow_result" where
  "refund_grace_remaining e s i =
    bindr (get_invoice s i) (\<lambda>ei.
    Inr (refund_opens_at ei (es_graces s i) - max (timestamp e) (inv_deadline ei)))"


section \<open>Invocations\<close>

text \<open>Every entry point that can change the storage, as a call; \<open>exec\<close> runs one invocation.\<close>

datatype escrow_call =
    CInitialize addr
  | CTransferAdmin addr
  | CAcceptAdmin
  | CCancelTransfer
  | CCreateInvoice addr addr int nat
  | CDeposit addr nat int
  | CPayInvoice addr nat int
  | CRelease nat
  | CRefund nat "addr list" refund_reason
  | CCancelInvoice nat
  | CSetCosigners nat "addr list" nat
  | CApproveRelease addr nat
  | CRejectRelease addr nat
  | CRevokeVote addr nat
  | CSetOracleCondition nat oracle_condition
  | CClearOracleCondition nat
  | CCheckOracleCondition nat
  | CScheduleRelease nat nat nat
  | CCancelReleaseSchedule nat
  | CSetDefaultRefundGrace nat
  | CSetRefundGrace nat nat
  | CExtendRefundGrace nat nat
  | CWaiveRefundGrace nat
  | CBlacklistPayer addr addr nat
  | CSubmitAppeal addr nat nat
  | CFinaliseBlacklist addr addr bool

definition drop_value :: "('a \<times> escrow_state) escrow_result \<Rightarrow> escrow_state escrow_result" where
  "drop_value r = bindr r (\<lambda>(_, s). Inr s)"

fun exec :: "escrow_env \<Rightarrow> escrow_call \<Rightarrow> escrow_state \<Rightarrow> escrow_state escrow_result" where
  "exec e (CInitialize a) s = initialize e a s"
| "exec e (CTransferAdmin a) s = transfer_admin e a s"
| "exec e CAcceptAdmin s = accept_admin e s"
| "exec e CCancelTransfer s = cancel_transfer e s"
| "exec e (CCreateInvoice c t n d) s = drop_value (create_invoice e c t n d s)"
| "exec e (CDeposit p i n) s = deposit e p i n s"
| "exec e (CPayInvoice p i n) s = pay_invoice e p i n s"
| "exec e (CRelease i) s = release e i s"
| "exec e (CRefund i ps r) s = refund e i ps r s"
| "exec e (CCancelInvoice i) s = cancel_invoice e i s"
| "exec e (CSetCosigners i ss t) s = set_cosigners e i ss t s"
| "exec e (CApproveRelease a i) s = drop_value (approve_release e a i s)"
| "exec e (CRejectRelease a i) s = drop_value (reject_release e a i s)"
| "exec e (CRevokeVote a i) s = drop_value (revoke_vote e a i s)"
| "exec e (CSetOracleCondition i c) s = set_oracle_condition e i c s"
| "exec e (CClearOracleCondition i) s = clear_oracle_condition e i s"
| "exec e (CCheckOracleCondition i) s = drop_value (check_oracle_condition e i s)"
| "exec e (CScheduleRelease i r m) s = drop_value (schedule_release e i r m s)"
| "exec e (CCancelReleaseSchedule i) s = cancel_release_schedule e i s"
| "exec e (CSetDefaultRefundGrace g) s = set_default_refund_grace e g s"
| "exec e (CSetRefundGrace i g) s = set_refund_grace e i g s"
| "exec e (CExtendRefundGrace i g) s = extend_refund_grace e i g s"
| "exec e (CWaiveRefundGrace i) s = waive_refund_grace e i s"
| "exec e (CBlacklistPayer a p h) s = blacklist_payer e a p h s"
| "exec e (CSubmitAppeal p i h) s = submit_appeal e p i h s"
| "exec e (CFinaliseBlacklist a p u) s = finalise_blacklist e a p u s"

lemma drop_value_eq_Inr [result_simps]: "drop_value r = Inr s \<longleftrightarrow> (\<exists>v. r = Inr (v, s))"
  by (auto simp: drop_value_def result_simps)


named_theorems escrow_ops \<open>definitions of the entry points\<close>

declare initialize_def [escrow_ops] transfer_admin_def [escrow_ops] accept_admin_def [escrow_ops]
  cancel_transfer_def [escrow_ops] create_invoice_def [escrow_ops]
  cancel_invoice_def [escrow_ops] set_cosigners_def [escrow_ops]
  approve_release_def [escrow_ops] reject_release_def [escrow_ops] cast_vote_def [escrow_ops]
  revoke_vote_def [escrow_ops]
  set_oracle_condition_def [escrow_ops] clear_oracle_condition_def [escrow_ops]
  check_oracle_condition_def [escrow_ops] schedule_release_def [escrow_ops]
  cancel_release_schedule_def [escrow_ops] set_default_refund_grace_def [escrow_ops]
  set_refund_grace_def [escrow_ops] extend_refund_grace_def [escrow_ops]
  waive_refund_grace_def [escrow_ops] blacklist_payer_def [escrow_ops]
  submit_appeal_def [escrow_ops] finalise_blacklist_def [escrow_ops]
  require_initialized_def [escrow_ops] require_admin_def [escrow_ops] get_invoice_def [escrow_ops]
  save_invoice_def [escrow_ops] save_approval_def [escrow_ops] save_schedule_def [escrow_ops]
  save_grace_def [escrow_ops] require_named_admin_def [escrow_ops]


lemma store_vote_frame:
  assumes "store_vote e action i x old ap s = (v, s')"
  shows "v = ap_status ap"
    "es_approvals s' = (es_approvals s)(i \<mapsto> ap\<lparr>ap_updated_ledger := sequence e\<rparr>)"
    "es_invoices s' = es_invoices s" "es_graces s' = es_graces s" "es_admin s' = es_admin s"
  using assms
  by (auto simp: store_vote_def Let_def escrow_emit save_approval_def do_effect_def)

lemma cast_vote_cases:
  assumes "cast_vote e x i b s = Inr (v, s')"
  obtains ei ap ap2 where "auth e x" "es_invoices s i = Some ei" "is_open ei"
    "es_approvals s i = Some ap" "x \<in> set (ap_signers ap)" "x \<notin> set (ap_approvals ap)"
    "x \<notin> set (ap_rejections ap)"
    "recompute_approval_status (if b then ap\<lparr>ap_approvals := ap_approvals ap @ [x]\<rparr>
       else ap\<lparr>ap_rejections := ap_rejections ap @ [x]\<rparr>) = Inr ap2"
    "store_vote e (if b then VoteApproved else VoteRejected) i x (ap_status ap) ap2 s = (v, s')"
  using assms
  by (cases b) (auto simp: cast_vote_def get_invoice_def result_simps Let_def split: if_splits
      intro: that)

lemma revoke_vote_cases:
  assumes "revoke_vote e x i s = Inr (v, s')"
  obtains ei ap ap1 ap2 where "auth e x" "es_invoices s i = Some ei" "is_open ei"
    "es_approvals s i = Some ap" "x \<in> set (ap_signers ap)"
    "x \<in> set (ap_approvals ap) \<and> ap1 = ap\<lparr>ap_approvals := remove1 x (ap_approvals ap)\<rparr>
      \<or> x \<notin> set (ap_approvals ap) \<and> x \<in> set (ap_rejections ap)
        \<and> ap1 = ap\<lparr>ap_rejections := remove1 x (ap_rejections ap)\<rparr>"
    "recompute_approval_status ap1 = Inr ap2"
    "store_vote e VoteRevoked i x (ap_status ap1) ap2 s = (v, s')"
proof -
  have "\<exists>ei ap ap1 ap2. auth e x \<and> es_invoices s i = Some ei \<and> is_open ei
    \<and> es_approvals s i = Some ap \<and> x \<in> set (ap_signers ap)
    \<and> (if x \<in> set (ap_approvals ap) then Inr (ap\<lparr>ap_approvals := remove1 x (ap_approvals ap)\<rparr>)
       else if x \<in> set (ap_rejections ap)
         then Inr (ap\<lparr>ap_rejections := remove1 x (ap_rejections ap)\<rparr>)
       else Inl (Err NotVoted)) = Inr ap1
    \<and> recompute_approval_status ap1 = Inr ap2
    \<and> store_vote e VoteRevoked i x (ap_status ap1) ap2 s = (v, s')"
    using assms unfolding revoke_vote_def get_invoice_def bindr_eq_Inr ok_or_eq_Inr require_auth_eq_Inr
    by (simp only: bindr_eq_Inr if_split_eq1 ok_or_eq_Inr sum.inject sum.distinct) blast
  then show ?thesis using that by (metis (no_types, lifting) sum.distinct(1) sum.inject(2))
qed

end
