(* ===== verification/Token_Accounts.thy ===== *)
theory Token_Accounts
  imports Soroban_Base
begin

text \<open>
  Token bookkeeping that the contract models share: the log of a contract (token transfers and
  published events, in order), the net inflow of a token to an address that a log amounts to, and
  sums of per-payer contributions and of per-invoice holdings under point updates.
\<close>

section \<open>Logs\<close>

text \<open>A transfer carries the token contract, the sender, the receiver and the amount.\<close>

datatype 'ev action = Sent addr addr addr int | Event 'ev

fun inflow1 :: "addr \<Rightarrow> addr \<Rightarrow> 'ev action \<Rightarrow> int" where
  "inflow1 a t (Sent t' src dst n) =
    (if t' = t then (if dst = a then n else 0) - (if src = a then n else 0) else 0)"
| "inflow1 a t (Event x) = 0"

definition inflow :: "addr \<Rightarrow> addr \<Rightarrow> 'ev action list \<Rightarrow> int" where
  "inflow a t xs = sum_list (map (inflow1 a t) xs)"

lemma inflow_simps [simp]: "inflow a t [] = 0" "inflow a t (xs @ ys) = inflow a t xs + inflow a t ys"
  "inflow a t (x # xs) = inflow1 a t x + inflow a t xs"
  by (simp_all add: inflow_def)


section \<open>Contributions\<close>

definition deposit_sum :: "(addr \<rightharpoonup> int) \<Rightarrow> int" where
  "deposit_sum D = (\<Sum>p\<in>dom D. the (D p))"

lemma deposit_sum_empty [simp]: "deposit_sum Map.empty = 0"
  by (simp add: deposit_sum_def)

lemma deposit_sum_remove:
  assumes "finite (dom D)"
  shows "deposit_sum (D(p := None)) = deposit_sum D - (case D p of None \<Rightarrow> 0 | Some v \<Rightarrow> v)"
proof (cases "D p")
  case None
  then have "D(p := None) = D" by auto
  with None show ?thesis by simp
next
  case (Some v)
  then have "deposit_sum D = the (D p) + (\<Sum>q\<in>dom D - {p}. the (D q))"
    unfolding deposit_sum_def using assms by (intro sum.remove) auto
  moreover have "(\<Sum>q\<in>dom D - {p}. the ((D(p := None)) q)) = (\<Sum>q\<in>dom D - {p}. the (D q))"
    by (rule sum.cong) auto
  ultimately show ?thesis using Some by (simp add: deposit_sum_def)
qed

lemma deposit_sum_upd:
  assumes "finite (dom D)"
  shows "deposit_sum (D(p \<mapsto> v)) = deposit_sum D - (case D p of None \<Rightarrow> 0 | Some x \<Rightarrow> x) + v"
proof -
  have fin: "finite (dom (D(p \<mapsto> v)))" using assms by simp
  have "(D(p \<mapsto> v))(p := None) = D(p := None)" by simp
  then show ?thesis
    using deposit_sum_remove [OF assms, of p] deposit_sum_remove [OF fin, of p] by simp
qed

lemma deposit_sum_nonneg: "(\<And>p v. D p = Some v \<Longrightarrow> 0 < v) \<Longrightarrow> 0 \<le> deposit_sum D"
  unfolding deposit_sum_def by (rule sum_nonneg) (force dest: domD)

lemma deposit_le_sum:
  assumes "finite (dom D)" and "\<And>p v. D p = Some v \<Longrightarrow> 0 < v" and "D p = Some v"
  shows "v \<le> deposit_sum D"
proof -
  have "0 \<le> deposit_sum (D(p := None))"
    using assms(2) by (intro deposit_sum_nonneg) (auto split: if_splits)
  then show ?thesis using deposit_sum_remove [OF assms(1), of p] assms(3) by simp
qed


section \<open>Sums over numbered slots\<close>

lemma sum_slot_change:
  fixes f f' :: "nat \<Rightarrow> int"
  assumes "i < n" and "\<And>j. j < n \<Longrightarrow> j \<noteq> i \<Longrightarrow> f' j = f j"
  shows "(\<Sum>j<n. f' j) = (\<Sum>j<n. f j) - f i + f' i"
proof -
  have "(\<Sum>j<n. f' j) = f' i + (\<Sum>j\<in>{..<n} - {i}. f' j)" using assms(1) by (intro sum.remove) auto
  moreover have "(\<Sum>j<n. f j) = f i + (\<Sum>j\<in>{..<n} - {i}. f j)" using assms(1) by (intro sum.remove) auto
  moreover have "(\<Sum>j\<in>{..<n} - {i}. f' j) = (\<Sum>j\<in>{..<n} - {i}. f j)"
    using assms(2) by (intro sum.cong) auto
  ultimately show ?thesis by simp
qed

end
