(* ===== verification/Escrow_Funds.thy ===== *)
theory Escrow_Funds
  imports Escrow_Model Token_Accounts
begin

text \<open>
  Conservation of funds in the invoice-escrow contract. The token balance of the contract is the
  net inflow of its transfers; the invariant \<open>escrow_ok\<close> says that it is, for every token, exactly
  what the invoices still hold, and that the deposits of an open invoice add up to its funded
  amount. Every entry point keeps it, so it holds in every run.
\<close>

section \<open>Balances\<close>

fun flow1 :: "addr \<Rightarrow> addr \<Rightarrow> effect \<Rightarrow> int" where
  "flow1 a t (Transfer t' src dst n) =
    (if t' = t then (if dst = a then n else 0) - (if src = a then n else 0) else 0)"
| "flow1 a t (Publish x) = 0"
| "flow1 a t (ExtendTtl k m n) = 0"

definition flow :: "addr \<Rightarrow> addr \<Rightarrow> effect list \<Rightarrow> int" where
  "flow a t xs = sum_list (map (flow1 a t) xs)"

lemma flow_simps [simp]: "flow a t [] = 0" "flow a t (xs @ ys) = flow a t xs + flow a t ys"
  "flow a t (x # xs) = flow1 a t x + flow a t xs"
  by (simp_all add: flow_def)

definition holding :: "addr \<Rightarrow> escrow_invoice option \<Rightarrow> (addr \<rightharpoonup> int) \<Rightarrow> int" where
  "holding t io D =
    (case io of None \<Rightarrow> 0
     | Some ei \<Rightarrow> if inv_token ei = t \<and> inv_status ei \<noteq> Released then deposit_sum D else 0)"

definition next_id :: "escrow_state \<Rightarrow> nat" where
  "next_id s = (case es_counter s of None \<Rightarrow> 0 | Some n \<Rightarrow> n)"

definition total_held :: "addr \<Rightarrow> escrow_state \<Rightarrow> int" where
  "total_held t s = (\<Sum>i<next_id s. holding t (es_invoices s i) (es_deposits s i))"


section \<open>The invariant\<close>

definition deposits_ok :: "addr \<Rightarrow> (addr \<rightharpoonup> int) \<Rightarrow> bool" where
  "deposits_ok a D \<longleftrightarrow> finite (dom D) \<and> (\<forall>p v. D p = Some v \<longrightarrow> 0 < v \<and> p \<noteq> a)"

definition invoice_ok :: "addr \<Rightarrow> escrow_invoice \<Rightarrow> (addr \<rightharpoonup> int) \<Rightarrow> bool" where
  "invoice_ok a ei D \<longleftrightarrow>
    0 < inv_total_amount ei \<and> 0 \<le> inv_funded_amount ei
    \<and> inv_funded_amount ei \<le> inv_total_amount ei \<and> inv_creator ei \<noteq> a
    \<and> (inv_status ei = Pending \<longrightarrow> inv_funded_amount ei = 0)
    \<and> (inv_status ei = Released \<longrightarrow> inv_funded_amount ei = inv_total_amount ei)
    \<and> deposits_ok a D
    \<and> (inv_status ei \<noteq> Refunded \<longrightarrow> deposit_sum D = inv_funded_amount ei)"

definition slot_ok :: "addr \<Rightarrow> nat \<Rightarrow> nat \<Rightarrow> escrow_invoice option \<Rightarrow> (addr \<rightharpoonup> int) \<Rightarrow> bool" where
  "slot_ok a n i io D \<longleftrightarrow>
    (case io of None \<Rightarrow> D = Map.empty | Some ei \<Rightarrow> i < n \<and> invoice_ok a ei D)"

definition escrow_ok :: "addr \<Rightarrow> escrow_state \<Rightarrow> bool" where
  "escrow_ok a s \<longleftrightarrow>
    (\<forall>i. slot_ok a (next_id s) i (es_invoices s i) (es_deposits s i))
    \<and> (es_admin s = None \<longrightarrow> es_invoices s = Map.empty)
    \<and> (\<forall>t. flow a t (es_effects s) = total_held t s)"

lemma slot_ok_simps [simp]:
  "slot_ok a n i None D \<longleftrightarrow> D = Map.empty"
  "slot_ok a n i (Some ei) D \<longleftrightarrow> i < n \<and> invoice_ok a ei D"
  by (simp_all add: slot_ok_def)

lemma escrow_ok_slot: "escrow_ok a s \<Longrightarrow> slot_ok a (next_id s) i (es_invoices s i) (es_deposits s i)"
  by (simp add: escrow_ok_def)

lemma escrow_ok_invoice:
  "escrow_ok a s \<Longrightarrow> es_invoices s i = Some ei \<Longrightarrow> i < next_id s \<and> invoice_ok a ei (es_deposits s i)"
  using escrow_ok_slot [of a s i] by simp

lemma escrow_ok_no_invoice:
  "escrow_ok a s \<Longrightarrow> es_invoices s i = None \<Longrightarrow> es_deposits s i = Map.empty"
  using escrow_ok_slot [of a s i] by simp

lemma escrow_ok_flow: "escrow_ok a s \<Longrightarrow> flow a t (es_effects s) = total_held t s"
  by (simp add: escrow_ok_def)

lemma escrow_ok_empty: "escrow_ok a empty_escrow"
  by (simp add: escrow_ok_def empty_escrow_def total_held_def holding_def next_id_def)

text \<open>Operations that leave the funds alone.\<close>

definition same_funds :: "addr \<Rightarrow> escrow_state \<Rightarrow> escrow_state \<Rightarrow> bool" where
  "same_funds a s s' \<longleftrightarrow>
    es_invoices s' = es_invoices s \<and> es_deposits s' = es_deposits s \<and> next_id s' = next_id s
    \<and> (es_admin s' = None \<longrightarrow> es_admin s = None)
    \<and> (\<forall>t. flow a t (es_effects s') = flow a t (es_effects s))"

lemma escrow_ok_same_funds: "escrow_ok a s \<Longrightarrow> same_funds a s s' \<Longrightarrow> escrow_ok a s'"
  by (simp add: escrow_ok_def same_funds_def total_held_def)

text \<open>Operations that change one invoice and its deposits.\<close>

lemma escrow_ok_update:
  assumes ok: "escrow_ok a s" and old: "es_invoices s i = Some ei"
    and invs: "es_invoices s' = (es_invoices s)(i \<mapsto> ei')"
    and deps: "es_deposits s' = (es_deposits s)(i := D')"
    and cnt: "next_id s' = next_id s" and adm: "es_admin s' = es_admin s"
    and new: "invoice_ok a ei' D'"
    and fl: "\<And>t. flow a t (es_effects s') - flow a t (es_effects s)
      = holding t (Some ei') D' - holding t (Some ei) (es_deposits s i)"
  shows "escrow_ok a s'"
proof -
  have lt: "i < next_id s" using escrow_ok_invoice [OF ok old] by simp
  have "total_held t s' = total_held t s
      - holding t (Some ei) (es_deposits s i) + holding t (Some ei') D'" for t
    unfolding total_held_def cnt
    using sum_slot_change [OF lt, of "\<lambda>j. holding t (es_invoices s' j) (es_deposits s' j)"
        "\<lambda>j. holding t (es_invoices s j) (es_deposits s j)"]
    by (simp add: invs deps old)
  then have "flow a t (es_effects s') = total_held t s'" for t
    using fl [of t] escrow_ok_flow [OF ok, of t] by simp
  moreover have "slot_ok a (next_id s') j (es_invoices s' j) (es_deposits s' j)" for j
    using escrow_ok_slot [OF ok, of j] lt new by (simp add: invs deps cnt)
  moreover have "es_admin s \<noteq> None" using ok old by (metis escrow_ok_def option.distinct(1))
  ultimately show ?thesis by (auto simp: escrow_ok_def adm)
qed



section \<open>Preservation\<close>

lemma same_funds_refl [simp]: "same_funds a s s"
  by (simp add: same_funds_def)

lemma same_funds_trans: "same_funds a s t \<Longrightarrow> same_funds a t u \<Longrightarrow> same_funds a s u"
  by (simp add: same_funds_def)

lemma next_id_do_effect [simp]: "next_id (do_effect x s) = next_id s"
  by (simp add: next_id_def)

lemma same_funds_frame [simp]:
  "same_funds a s (do_effect (Publish x) t) \<longleftrightarrow> same_funds a s t"
  "same_funds a s (do_effect (ExtendTtl k m n) t) \<longleftrightarrow> same_funds a s t"
  "same_funds a s (t\<lparr>es_pending_admin := pa\<rparr>) \<longleftrightarrow> same_funds a s t"
  "same_funds a s (t\<lparr>es_default_grace := dg\<rparr>) \<longleftrightarrow> same_funds a s t"
  "same_funds a s (t\<lparr>es_blacklist := bl\<rparr>) \<longleftrightarrow> same_funds a s t"
  "same_funds a s (t\<lparr>es_approvals := ap\<rparr>) \<longleftrightarrow> same_funds a s t"
  "same_funds a s (t\<lparr>es_oracle_cond := oc\<rparr>) \<longleftrightarrow> same_funds a s t"
  "same_funds a s (t\<lparr>es_oracle_read := rd\<rparr>) \<longleftrightarrow> same_funds a s t"
  "same_funds a s (t\<lparr>es_schedules := sc\<rparr>) \<longleftrightarrow> same_funds a s t"
  "same_funds a s (t\<lparr>es_graces := gr\<rparr>) \<longleftrightarrow> same_funds a s t"
  by (simp_all add: same_funds_def next_id_def)

lemma evaluate_same_funds:
  "evaluate_oracle_condition e i c s = (r, s') \<Longrightarrow> same_funds a s s'"
  by (auto simp: evaluate_oracle_condition_def escrow_emit Let_def
      split: sum.splits option.splits)

lemma gates_same_funds:
  assumes "check_release_gates e i s = (r, s')"
  shows "same_funds a s s'"
proof (cases "es_oracle_cond s i")
  case None
  with assms show ?thesis by (auto simp: check_release_gates_def split: option.splits)
next
  case (Some c)
  obtain r1 s1 where ev: "evaluate_oracle_condition e i c s = (r1, s1)" by (metis surj_pair)
  have "same_funds a s1 (s1\<lparr>es_oracle_read := m\<rparr>)" for m
    by (simp add: same_funds_def next_id_def)
  then show ?thesis
    using assms Some ev evaluate_same_funds [OF ev, of a] same_funds_trans
    by (fastforce simp: check_release_gates_def Let_def
        split: option.splits sum.splits if_splits)
qed

lemma gates_frame:
  assumes "check_release_gates e i s = (r, s')"
  shows "es_schedules s' = es_schedules s" "es_approvals s' = es_approvals s"
    "es_graces s' = es_graces s" "es_blacklist s' = es_blacklist s"
    "es_oracle_cond s' = es_oracle_cond s" "es_admin s' = es_admin s"
    "es_pending_admin s' = es_pending_admin s" "es_counter s' = es_counter s"
    "es_default_grace s' = es_default_grace s"
  using assms
  by (auto simp: check_release_gates_def evaluate_oracle_condition_def Let_def escrow_emit
      split: option.splits sum.splits if_splits)

lemma check_oracle_condition_eq_Inr:
  assumes "check_oracle_condition e i s = Inr (v, s')"
  obtains c where "es_oracle_cond s i = Some c" "evaluate_oracle_condition e i c s = (Inr v, s')"
proof -
  from assms obtain c where c: "es_oracle_cond s i = Some c"
    and k: "(case evaluate_oracle_condition e i c s of (Inl err, _) \<Rightarrow> Inl (Err err)
      | (Inr reading, s1) \<Rightarrow> Inr (reading, s1)) = Inr (v, s')"
    unfolding check_oracle_condition_def bindr_eq_Inr ok_or_eq_Inr by blast
  obtain r s1 where "evaluate_oracle_condition e i c s = (r, s1)" by (metis surj_pair)
  with c k show ?thesis by (cases r) (auto intro: that)
qed

text \<open>The frame of a call: every entry point outside \<open>moves_funds\<close> leaves the funds alone.\<close>

fun moves_funds :: "escrow_call \<Rightarrow> bool" where
  "moves_funds (CCreateInvoice c t n d) = True"
| "moves_funds (CDeposit p i n) = True"
| "moves_funds (CPayInvoice p i n) = True"
| "moves_funds (CRelease i) = True"
| "moves_funds (CRefund i ps r) = True"
| "moves_funds (CCancelInvoice i) = True"
| "moves_funds (CInitialize x) = True"
| "moves_funds _ = False"

lemmas funds_frame = result_simps escrow_emit Let_def

lemma admin_same_funds:
  "transfer_admin e x s = Inr s' \<Longrightarrow> same_funds a s s'"
  "cancel_transfer e s = Inr s' \<Longrightarrow> same_funds a s s'"
  "set_default_refund_grace e g s = Inr s' \<Longrightarrow> same_funds a s s'"
  by (auto simp: escrow_ops funds_frame split: if_splits)

lemma accept_same_funds: "accept_admin e s = Inr s' \<Longrightarrow> same_funds a s s'"
  by (auto simp: accept_admin_def result_simps escrow_emit same_funds_def next_id_def)

lemma store_vote_same_funds: "store_vote e action i x old ap s = (v, s') \<Longrightarrow> same_funds a s s'"
  by (auto simp: store_vote_def Let_def escrow_emit save_approval_def)

lemma vote_same_funds:
  "cast_vote e x i b s = Inr (v, s') \<Longrightarrow> same_funds a s s'"
  "revoke_vote e x i s = Inr (v, s') \<Longrightarrow> same_funds a s s'"
  by (auto elim!: cast_vote_cases revoke_vote_cases intro: store_vote_same_funds)

lemma cosigners_same_funds: "set_cosigners e i xs m s = Inr s' \<Longrightarrow> same_funds a s s'"
  by (auto simp: set_cosigners_def save_approval_def funds_frame split: if_splits)

lemma oracle_same_funds:
  "set_oracle_condition e i c s = Inr s' \<Longrightarrow> same_funds a s s'"
  "clear_oracle_condition e i s = Inr s' \<Longrightarrow> same_funds a s s'"
  "schedule_release e i r m s = Inr (sch, s') \<Longrightarrow> same_funds a s s'"
  "cancel_release_schedule e i s = Inr s' \<Longrightarrow> same_funds a s s'"
  by (auto simp: escrow_ops funds_frame split: if_splits)

lemma grace_same_funds:
  "set_refund_grace e i g s = Inr s' \<Longrightarrow> same_funds a s s'"
  "extend_refund_grace e i g s = Inr s' \<Longrightarrow> same_funds a s s'"
  "waive_refund_grace e i s = Inr s' \<Longrightarrow> same_funds a s s'"
  by (auto simp: escrow_ops funds_frame split: if_splits)

lemma blacklist_same_funds:
  "blacklist_payer e adm p h s = Inr s' \<Longrightarrow> same_funds a s s'"
  "submit_appeal e p i h s = Inr s' \<Longrightarrow> same_funds a s s'"
  "finalise_blacklist e adm p u s = Inr s' \<Longrightarrow> same_funds a s s'"
  by (auto simp: escrow_ops funds_frame split: if_splits)

lemma check_same_funds: "check_oracle_condition e i s = Inr (v, s') \<Longrightarrow> same_funds a s s'"
  by (erule check_oracle_condition_eq_Inr) (rule evaluate_same_funds)

lemma exec_same_funds:
  assumes "exec e c s = Inr s'" and "\<not> moves_funds c"
  shows "same_funds a s s'"
  using assms
  by (cases c) (auto simp: drop_value_eq_Inr approve_release_def reject_release_def
    intro: admin_same_funds accept_same_funds vote_same_funds cosigners_same_funds oracle_same_funds grace_same_funds
      blacklist_same_funds check_same_funds)

lemma initialize_ok: "escrow_ok a s \<Longrightarrow> initialize e adm s = Inr s' \<Longrightarrow> escrow_ok a s'"
proof -
  assume ok: "escrow_ok a s" and "initialize e adm s = Inr s'"
  then have none: "es_admin s = None" and s': "s' = s\<lparr>es_admin := Some adm, es_counter := Some 0\<rparr>"
    by (auto simp: initialize_def result_simps split: if_splits)
  have empty: "es_invoices s = Map.empty" using ok none by (simp add: escrow_ok_def)
  then have "total_held t s = 0" for t by (simp add: total_held_def holding_def)
  then show ?thesis
    using ok empty by (simp add: escrow_ok_def s' total_held_def next_id_def)
qed

lemma create_invoice_ok:
  assumes ok: "escrow_ok a s" and "\<not> auth e a"
    and cr: "create_invoice e creator token n d s = Inr (i, s')"
  shows "escrow_ok a s'"
proof -
  have i: "i = next_id s" and "0 < n" and "auth e creator" and adm: "es_admin s \<noteq> None"
    and cnt: "next_id s' = Suc i" and adm': "es_admin s' = es_admin s"
    and invs: "es_invoices s' = (es_invoices s)(i \<mapsto> \<lparr>inv_creator = creator, inv_token = token,
      inv_total_amount = n, inv_funded_amount = 0, inv_deadline = d, inv_status = Pending,
      inv_refund_reason = None\<rparr>)"
    and deps: "es_deposits s' = es_deposits s"
    and fl: "\<And>t. flow a t (es_effects s') = flow a t (es_effects s)"
    using cr by (auto simp: escrow_ops escrow_emit result_simps Let_def next_id_def checked_nat_def
      split: if_splits)
  have fresh: "es_invoices s i = None"
    using escrow_ok_invoice [OF ok, of i] i by (cases "es_invoices s i") auto
  have D: "es_deposits s i = Map.empty" using escrow_ok_no_invoice [OF ok fresh] .
  have "slot_ok a (next_id s') j (es_invoices s' j) (es_deposits s' j)" for j
  proof (cases "j = i")
    case True
    then show ?thesis using \<open>0 < n\<close> \<open>auth e creator\<close> assms(2) D
      by (auto simp: invs deps cnt invoice_ok_def deposits_ok_def)
  next
    case False
    then show ?thesis using escrow_ok_slot [OF ok, of j] i
      by (cases "es_invoices s j") (auto simp: invs deps cnt)
  qed
  moreover have "total_held t s' = total_held t s" for t
    by (simp add: total_held_def cnt i invs deps holding_def D [unfolded i])
  ultimately show ?thesis using fl adm escrow_ok_flow [OF ok] by (auto simp: escrow_ok_def adm')
qed


text \<open>The accounting of a deposit, of a release and of a refund, as facts on the stored invoice.\<close>

lemma holding_Some [simp]: "holding t (Some ei) D =
    (if inv_token ei = t \<and> inv_status ei \<noteq> Released then deposit_sum D else 0)"
  by (simp add: holding_def)

lemma execute_release_fields:
  assumes "execute_release e i ei s = (v, s')"
  shows "v = (inv_creator ei, inv_total_amount ei)"
    "es_invoices s' = (es_invoices s)(i \<mapsto> ei\<lparr>inv_status := Released\<rparr>)"
    "es_deposits s' = es_deposits s" "es_counter s' = es_counter s" "es_admin s' = es_admin s"
    "es_pending_admin s' = es_pending_admin s" "es_graces s' = es_graces s"
    "es_blacklist s' = es_blacklist s" "es_approvals s' = es_approvals s"
    "es_default_grace s' = es_default_grace s"
    "flow a t (es_effects s') = flow a t (es_effects s)
      + flow1 a t (Transfer (inv_token ei) (self_addr e) (inv_creator ei) (inv_total_amount ei))"
  using assms
  by (auto simp: execute_release_def Let_def save_invoice_def escrow_emit split: option.splits if_splits)

lemma release_update_ok:
  assumes ok: "escrow_ok (self_addr e) s" and inv: "es_invoices s i = Some ei"
    and st: "inv_status ei \<noteq> Released" "inv_status ei \<noteq> Refunded"
    and full: "inv_total_amount ei \<le> inv_funded_amount ei"
    and ex: "execute_release e i ei s = (v, s')"
  shows "escrow_ok (self_addr e) s'"
proof (rule escrow_ok_update [OF ok inv])
  note iok = escrow_ok_invoice [OF ok inv, THEN conjunct2, unfolded invoice_ok_def]
  show "es_invoices s' = (es_invoices s)(i \<mapsto> ei\<lparr>inv_status := Released\<rparr>)"
    by (rule execute_release_fields(2) [OF ex])
  show "es_deposits s' = (es_deposits s)(i := es_deposits s i)"
    using execute_release_fields(3) [OF ex] by simp
  show "next_id s' = next_id s" using execute_release_fields(4) [OF ex] by (simp add: next_id_def)
  show "es_admin s' = es_admin s" by (rule execute_release_fields(5) [OF ex])
  show "invoice_ok (self_addr e) (ei\<lparr>inv_status := Released\<rparr>) (es_deposits s i)"
    using iok st full by (simp add: invoice_ok_def)
  show "flow (self_addr e) t (es_effects s') - flow (self_addr e) t (es_effects s)
      = holding t (Some (ei\<lparr>inv_status := Released\<rparr>)) (es_deposits s i)
        - holding t (Some ei) (es_deposits s i)" for t
    using iok st full by (auto simp: execute_release_fields(11) [OF ex])
qed

lemma release_ok:
  assumes ok: "escrow_ok (self_addr e) s" and rel: "release e i s = Inr s'"
  shows "escrow_ok (self_addr e) s'"
proof -
  from rel obtain ei where inv: "es_invoices s i = Some ei" and st: "\<not> closed ei"
    and full: "inv_total_amount ei \<le> inv_funded_amount ei"
    by (auto simp: release_def get_invoice_def result_simps not_less split: if_splits)
  obtain r s1 where g: "check_release_gates e i s = (r, s1)" by (metis surj_pair)
  obtain v s2 where x: "execute_release e i ei s1 = (v, s2)" by (metis surj_pair)
  from rel inv st full g x have s': "s' = do_effect (Publish (EvEscrowReleased i (fst v) (snd v))) s2"
    by (cases v; cases r) (auto simp: release_def get_invoice_def)
  have sf: "same_funds (self_addr e) s s1" by (rule gates_same_funds [OF g])
  have "escrow_ok (self_addr e) s2"
    by (rule release_update_ok [OF escrow_ok_same_funds [OF ok sf] _ _ _ full x])
      (use sf inv st in \<open>auto simp: same_funds_def closed_def\<close>)
  then show ?thesis by (rule escrow_ok_same_funds) (simp add: s')
qed

lemma cancel_invoice_ok:
  assumes ok: "escrow_ok a s" and c: "cancel_invoice e i s = Inr s'"
  shows "escrow_ok a s'"
proof -
  from c obtain ei where inv: "es_invoices s i = Some ei" and st: "\<not> closed ei"
    and s': "s' = s\<lparr>es_invoices := (es_invoices s)(i \<mapsto> ei\<lparr>inv_status := Cancelled\<rparr>)\<rparr>"
    by (auto simp: escrow_ops result_simps split: if_splits)
  note iok = escrow_ok_invoice [OF ok inv, THEN conjunct2, unfolded invoice_ok_def]
  show ?thesis
    by (rule escrow_ok_update [OF ok inv, where ei' = "ei\<lparr>inv_status := Cancelled\<rparr>"
          and D' = "es_deposits s i"])
      (use iok st in \<open>auto simp: s' invoice_ok_def closed_def next_id_def\<close>)
qed


lemma execute_release_save:
  "execute_release e i ei (save_invoice i ei' s) = execute_release e i ei s"
  by (auto simp: execute_release_def save_invoice_def escrow_emit do_effect_def Let_def
      split: option.splits)

lemma deposit_of_do_effect: "deposit_of (do_effect x s) i p = deposit_of s i p"
  by (simp add: deposit_of_def)

definition after_deposit :: "escrow_env \<Rightarrow> addr \<Rightarrow> nat \<Rightarrow> int \<Rightarrow> escrow_invoice \<Rightarrow> escrow_state \<Rightarrow> escrow_state" where
  "after_deposit e payer i amount ei s =
    emit_deposited i payer amount (inv_funded_amount ei + amount)
      (set_deposit i payer (Some (deposit_of s i payer + amount))
        (token_transfer (inv_token ei) payer (self_addr e) amount s))"

lemma deposit_cases:
  assumes "deposit e payer i amount s = Inr s'"
  obtains ei ei1 s3 s4 where "0 < amount" "auth e payer" "\<not> blacklist_blocks s payer"
    "es_invoices s i = Some ei" "is_open ei" "timestamp e \<le> inv_deadline ei"
    "inv_funded_amount ei + amount \<le> inv_total_amount ei"
    "ei1 = ei\<lparr>inv_funded_amount := inv_funded_amount ei + amount, inv_status := Active\<rparr>"
    "s3 = after_deposit e payer i amount ei s"
    "(s4 = s3 \<or> (\<exists>err. check_release_gates e i s3 = (Inl err, s4))) \<and> s' = save_invoice i ei1 s4
     \<or> inv_funded_amount ei + amount = inv_total_amount ei
       \<and> check_release_gates e i s3 = (Inr (), s4) \<and> s' = snd (execute_release e i ei1 s4)"
proof -
  from assms obtain ei where inv: "es_invoices s i = Some ei"
    by (auto simp: deposit_def get_invoice_def result_simps split: if_splits)
  let ?ei1 = "ei\<lparr>inv_funded_amount := inv_funded_amount ei + amount, inv_status := Active\<rparr>"
  let ?s3 = "after_deposit e payer i amount ei s"
  have n: "0 < amount" and au: "auth e payer" and bl: "\<not> blacklist_blocks s payer"
    using assms by (auto simp: deposit_def result_simps split: if_splits)
  have st: "is_open ei" and tm: "timestamp e \<le> inv_deadline ei"
    using assms n au bl inv
    by (auto simp: deposit_def get_invoice_def is_open_def simp del: split_paired_Ex split: if_splits)
  have fits: "fits_i128 (inv_funded_amount ei + amount)"
    and le: "inv_funded_amount ei + amount \<le> inv_total_amount ei"
    using assms n au bl inv st tm
    by (auto simp: deposit_def get_invoice_def is_open_def result_simps split: if_splits)
  obtain r s4 where g: "check_release_gates e i ?s3 = (r, s4)" by (metis surj_pair)
  have dep: "deposit e payer i amount s =
      bindr (arith (deposit_of s i payer + amount)) (\<lambda>_. Inr (
        if inv_total_amount ei \<le> inv_funded_amount ei + amount
        then (case r of Inr _ \<Rightarrow> snd (execute_release e i ?ei1 s4) | Inl _ \<Rightarrow> save_invoice i ?ei1 s4)
        else save_invoice i ?ei1 ?s3))"
    using n au bl inv st tm le fits g
    by (cases r) (auto simp: deposit_def get_invoice_def is_open_def Let_def after_deposit_def
        token_transfer_def deposit_of_do_effect checked_i128_def arith_def)
  have "s' = (if inv_total_amount ei \<le> inv_funded_amount ei + amount
      then (case r of Inr _ \<Rightarrow> snd (execute_release e i ?ei1 s4) | Inl _ \<Rightarrow> save_invoice i ?ei1 s4)
      else save_invoice i ?ei1 ?s3)"
    by (rule bindr_const_Inr [OF trans [OF dep [symmetric] assms]])
  then have "\<exists>s4. (s4 = ?s3 \<or> (\<exists>err. check_release_gates e i ?s3 = (Inl err, s4)))
        \<and> s' = save_invoice i ?ei1 s4
      \<or> inv_funded_amount ei + amount = inv_total_amount ei
        \<and> check_release_gates e i ?s3 = (Inr (), s4) \<and> s' = snd (execute_release e i ?ei1 s4)"
    using g le by (cases r; cases "inv_total_amount ei \<le> inv_funded_amount ei + amount") fastforce+
  then show ?thesis using that [OF n au bl inv st tm le refl refl] by blast
qed

lemma after_deposit_fields:
  shows "es_invoices (after_deposit e p i n ei s) = es_invoices s"
    "es_deposits (after_deposit e p i n ei s)
      = (es_deposits s)(i := (es_deposits s i)(p \<mapsto> deposit_of s i p + n))"
    "es_admin (after_deposit e p i n ei s) = es_admin s"
    "es_counter (after_deposit e p i n ei s) = es_counter s"
    "es_approvals (after_deposit e p i n ei s) = es_approvals s"
    "es_schedules (after_deposit e p i n ei s) = es_schedules s"
    "es_graces (after_deposit e p i n ei s) = es_graces s"
    "es_blacklist (after_deposit e p i n ei s) = es_blacklist s"
    "es_oracle_cond (after_deposit e p i n ei s) = es_oracle_cond s"
    "es_pending_admin (after_deposit e p i n ei s) = es_pending_admin s"
    "es_default_grace (after_deposit e p i n ei s) = es_default_grace s"
    "flow a t (es_effects (after_deposit e p i n ei s))
      = flow a t (es_effects s) + flow1 a t (Transfer (inv_token ei) p (self_addr e) n)"
  by (simp_all add: after_deposit_def escrow_emit set_deposit_def)

lemma deposit_update_ok:
  assumes ok: "escrow_ok (self_addr e) s" and inv: "es_invoices s i = Some ei"
    and st: "is_open ei" and p: "p \<noteq> self_addr e" and n: "0 < n"
    and le: "inv_funded_amount ei + n \<le> inv_total_amount ei"
    and sf: "same_funds (self_addr e) (after_deposit e p i n ei s) s4"
    and s': "s' = save_invoice i (ei\<lparr>inv_funded_amount := inv_funded_amount ei + n,
      inv_status := Active\<rparr>) s4"
    and adm: "es_admin s4 = es_admin s"
  shows "escrow_ok (self_addr e) s'"
proof (rule escrow_ok_update [OF ok inv])
  let ?ei1 = "ei\<lparr>inv_funded_amount := inv_funded_amount ei + n, inv_status := Active\<rparr>"
  let ?D = "(es_deposits s i)(p \<mapsto> deposit_of s i p + n)"
  note iok = escrow_ok_invoice [OF ok inv, THEN conjunct2, unfolded invoice_ok_def]
  have fin: "finite (dom (es_deposits s i))" using iok by (simp add: deposits_ok_def)
  have sum: "deposit_sum ?D = deposit_sum (es_deposits s i) + n"
    using deposit_sum_upd [OF fin, of p] by (auto simp: deposit_of_def split: option.splits)
  have pos: "0 < deposit_of s i p + n"
    using iok n by (auto simp: deposit_of_def deposits_ok_def split: option.splits intro: add_pos_pos)
  show "es_invoices s' = (es_invoices s)(i \<mapsto> ?ei1)"
    using sf by (simp add: s' save_invoice_def same_funds_def after_deposit_fields)
  show "es_deposits s' = (es_deposits s)(i := ?D)"
    using sf by (simp add: s' save_invoice_def same_funds_def after_deposit_fields)
  show "next_id s' = next_id s"
    using sf by (simp add: s' save_invoice_def same_funds_def next_id_def after_deposit_fields)
  show "es_admin s' = es_admin s" by (simp add: s' save_invoice_def adm)
  show "invoice_ok (self_addr e) ?ei1 ?D"
    using iok le n p pos st by (auto simp: invoice_ok_def deposits_ok_def sum is_open_def)
  show "flow (self_addr e) t (es_effects s') - flow (self_addr e) t (es_effects s)
      = holding t (Some ?ei1) ?D - holding t (Some ei) (es_deposits s i)" for t
    using sf st p by (auto simp: s' save_invoice_def same_funds_def after_deposit_fields sum is_open_def)
qed

lemma deposit_ok:
  assumes ok: "escrow_ok (self_addr e) s" and na: "\<not> auth e (self_addr e)"
    and dep: "deposit e p i n s = Inr s'"
  shows "escrow_ok (self_addr e) s'"
  using dep
proof (rule deposit_cases)
  fix ei ei1 s3 s4
  assume n: "0 < n" and au: "auth e p" and inv: "es_invoices s i = Some ei" and st: "is_open ei"
    and le: "inv_funded_amount ei + n \<le> inv_total_amount ei"
    and ei1: "ei1 = ei\<lparr>inv_funded_amount := inv_funded_amount ei + n, inv_status := Active\<rparr>"
    and s3: "s3 = after_deposit e p i n ei s"
    and res: "(s4 = s3 \<or> (\<exists>err. check_release_gates e i s3 = (Inl err, s4))) \<and> s' = save_invoice i ei1 s4
     \<or> inv_funded_amount ei + n = inv_total_amount ei
       \<and> check_release_gates e i s3 = (Inr (), s4) \<and> s' = snd (execute_release e i ei1 s4)"
  have p: "p \<noteq> self_addr e" using au na by auto
  have sf: "same_funds (self_addr e) s3 s4" using res gates_same_funds by fastforce
  have adm: "es_admin s4 = es_admin s"
    using res gates_frame(6) after_deposit_fields(3) s3 by metis
  have ok4: "escrow_ok (self_addr e) (save_invoice i ei1 s4)"
    by (rule deposit_update_ok [OF ok inv st p n le sf [unfolded s3] _ adm]) (simp add: ei1)
  show ?thesis
  proof (cases "s' = save_invoice i ei1 s4")
    case False
    then have full: "inv_funded_amount ei + n = inv_total_amount ei"
      and s': "s' = snd (execute_release e i ei1 (save_invoice i ei1 s4))"
      using res by (auto simp: execute_release_save)
    show ?thesis
      by (rule release_update_ok [OF ok4, where i = i and ei = ei1])
        (use full s' in \<open>auto simp: save_invoice_def ei1 prod_eq_iff\<close>)
  qed (use ok4 in simp)
qed


text \<open>The refund loop pays out what it removes from the deposits.\<close>

lemma refund_payer_fields:
  "es_invoices (refund_payer e i t r p s) = es_invoices s"
  "es_admin (refund_payer e i t r p s) = es_admin s"
  "es_pending_admin (refund_payer e i t r p s) = es_pending_admin s"
  "es_counter (refund_payer e i t r p s) = es_counter s"
  "es_approvals (refund_payer e i t r p s) = es_approvals s"
  "es_graces (refund_payer e i t r p s) = es_graces s"
  "es_blacklist (refund_payer e i t r p s) = es_blacklist s"
  "es_default_grace (refund_payer e i t r p s) = es_default_grace s"
  by (simp_all add: refund_payer_def Let_def escrow_emit set_deposit_def)

lemma refund_fold_fields:
  "es_invoices (fold (refund_payer e i t r) ps s) = es_invoices s"
  "es_admin (fold (refund_payer e i t r) ps s) = es_admin s"
  "es_pending_admin (fold (refund_payer e i t r) ps s) = es_pending_admin s"
  "es_counter (fold (refund_payer e i t r) ps s) = es_counter s"
  "es_approvals (fold (refund_payer e i t r) ps s) = es_approvals s"
  "es_graces (fold (refund_payer e i t r) ps s) = es_graces s"
  "es_blacklist (fold (refund_payer e i t r) ps s) = es_blacklist s"
  "es_default_grace (fold (refund_payer e i t r) ps s) = es_default_grace s"
  by (induction ps arbitrary: s) (simp_all add: refund_payer_fields)

lemma refund_payer_deposits:
  assumes "deposits_ok a (es_deposits s i)"
  shows "es_deposits (refund_payer e i t r p s)
    = (es_deposits s)(i := (es_deposits s i)(p := None))"
proof (cases "es_deposits s i p")
  case None
  then have "(es_deposits s i)(p := None) = es_deposits s i" by auto
  then show ?thesis using None by (simp add: refund_payer_def deposit_of_def)
next
  case (Some v)
  then have "0 < v" using assms by (simp add: deposits_ok_def)
  with Some show ?thesis by (simp add: refund_payer_def deposit_of_def escrow_emit set_deposit_def)
qed

lemma deposits_ok_remove: "deposits_ok a D \<Longrightarrow> deposits_ok a (D(p := None))"
  by (auto simp: deposits_ok_def)

lemma refund_payer_flow:
  assumes "deposits_ok (self_addr e) (es_deposits s i)"
  shows "flow (self_addr e) t' (es_effects (refund_payer e i t r p s)) - flow (self_addr e) t' (es_effects s)
    = (if t' = t then deposit_sum ((es_deposits s i)(p := None)) - deposit_sum (es_deposits s i) else 0)"
proof -
  have fin: "finite (dom (es_deposits s i))" using assms by (simp add: deposits_ok_def)
  have "\<And>v. es_deposits s i p = Some v \<Longrightarrow> 0 < v \<and> p \<noteq> self_addr e"
    using assms by (simp add: deposits_ok_def)
  then show ?thesis
    by (auto simp: refund_payer_def deposit_of_def escrow_emit set_deposit_def
        deposit_sum_remove [OF fin] split: option.splits)
qed

lemma refund_fold:
  assumes "deposits_ok (self_addr e) (es_deposits s i)"
  shows "es_deposits (fold (refund_payer e i t r) ps s)
      = (es_deposits s)(i := (\<lambda>p. if p \<in> set ps then None else es_deposits s i p))
    \<and> flow (self_addr e) t' (es_effects (fold (refund_payer e i t r) ps s)) - flow (self_addr e) t' (es_effects s)
      = (if t' = t then deposit_sum (\<lambda>p. if p \<in> set ps then None else es_deposits s i p)
           - deposit_sum (es_deposits s i) else 0)"
  using assms
proof (induction ps arbitrary: s)
  case Nil
  then show ?case by simp
next
  case (Cons p ps)
  let ?s1 = "refund_payer e i t r p s"
  have D1: "es_deposits ?s1 = (es_deposits s)(i := (es_deposits s i)(p := None))"
    by (rule refund_payer_deposits [OF Cons.prems])
  have eq: "(\<lambda>q. if q \<in> set ps then None else es_deposits ?s1 i q)
      = (\<lambda>q. if q \<in> set (p # ps) then None else es_deposits s i q)"
    by (auto simp: D1)
  have "deposits_ok (self_addr e) (es_deposits ?s1 i)"
    using deposits_ok_remove [OF Cons.prems] by (simp add: D1)
  note IH = Cons.IH [OF this, unfolded eq]
  note fl = refund_payer_flow [OF Cons.prems, of t' t r p]
  have D1i: "es_deposits ?s1 i = (es_deposits s i)(p := None)" using D1 by simp
  have "flow (self_addr e) t' (es_effects (fold (refund_payer e i t r) (p # ps) s))
      - flow (self_addr e) t' (es_effects s)
      = (if t' = t then deposit_sum (\<lambda>q. if q \<in> set (p # ps) then None else es_deposits s i q)
           - deposit_sum (es_deposits s i) else 0)"
    using IH [THEN conjunct2] fl unfolding D1i
    by (cases "t' = t") (simp only: fold_simps if_True if_False simp_thms refl; linarith)+
  moreover have "es_deposits (fold (refund_payer e i t r) (p # ps) s)
      = (es_deposits s)(i := (\<lambda>q. if q \<in> set (p # ps) then None else es_deposits s i q))"
    using IH [THEN conjunct1] by (auto simp: D1 fun_eq_iff)
  ultimately show ?case by blast
qed

lemma deposits_ok_restrict: "deposits_ok a D \<Longrightarrow> deposits_ok a (\<lambda>p. if p \<in> P then None else D p)"
  unfolding deposits_ok_def by (auto intro: finite_subset [of _ "dom D"] split: if_splits)

lemma refund_cases:
  assumes "refund e i ps r s = Inr s'"
  obtains ei where "es_invoices s i = Some ei" "\<not> closed ei" "inv_deadline ei < timestamp e"
    "refund_opens_at ei (es_graces s i) < timestamp e"
    "s' = save_invoice i (ei\<lparr>inv_status := Refunded, inv_refund_reason := Some r\<rparr>)
      (fold (refund_payer e i (inv_token ei) r) ps s)"
  using assms by (auto simp: refund_def get_invoice_def result_simps Let_def split: if_splits intro: that)

lemma refund_ok:
  assumes ok: "escrow_ok (self_addr e) s" and "refund e i ps r s = Inr s'"
  shows "escrow_ok (self_addr e) s'"
  using assms(2)
proof (rule refund_cases)
  fix ei
  assume inv: "es_invoices s i = Some ei" and st: "\<not> closed ei"
    and s': "s' = save_invoice i (ei\<lparr>inv_status := Refunded, inv_refund_reason := Some r\<rparr>)
      (fold (refund_payer e i (inv_token ei) r) ps s)"
  note iok = escrow_ok_invoice [OF ok inv, THEN conjunct2, unfolded invoice_ok_def]
  have dok: "deposits_ok (self_addr e) (es_deposits s i)" using iok by simp
  note rf = refund_fold [OF dok, of "inv_token ei" r ps]
  show ?thesis
    by (rule escrow_ok_update [OF ok inv,
          where ei' = "ei\<lparr>inv_status := Refunded, inv_refund_reason := Some r\<rparr>"
            and D' = "\<lambda>p. if p \<in> set ps then None else es_deposits s i p"])
      (use iok st rf deposits_ok_restrict [OF dok, of "set ps"] in
        \<open>auto simp: s' save_invoice_def refund_fold_fields next_id_def invoice_ok_def closed_def\<close>)
qed



section \<open>Runs of the escrow\<close>

definition escrow_env_ok :: "addr \<Rightarrow> escrow_env \<Rightarrow> bool" where
  "escrow_env_ok a e \<longleftrightarrow> self_addr e = a \<and> \<not> auth e a"

lemma exec_ok:
  assumes env: "escrow_env_ok a e" and ok: "escrow_ok a s" and ex: "exec e c s = Inr s'"
  shows "escrow_ok a s'"
proof (cases "moves_funds c")
  case False
  then show ?thesis using escrow_ok_same_funds [OF ok exec_same_funds [OF ex]] by blast
next
  case True
  have a: "self_addr e = a" "\<not> auth e a" using env by (simp_all add: escrow_env_ok_def)
  note ok' = ok [folded a(1)]
  show ?thesis
  proof (cases c)
    case (CCreateInvoice cr t n d)
    then show ?thesis using ex create_invoice_ok [OF ok a(2)] by (auto simp: result_simps)
  next
    case (CDeposit p i n)
    then show ?thesis using ex deposit_ok [OF ok'] a by auto
  next
    case (CPayInvoice p i n)
    then show ?thesis using ex deposit_ok [OF ok'] a by (auto simp: pay_invoice_def)
  next
    case (CRelease i)
    then show ?thesis using ex release_ok [OF ok'] a by auto
  next
    case (CRefund i ps r)
    then show ?thesis using ex refund_ok [OF ok'] a by auto
  next
    case (CCancelInvoice i)
    then show ?thesis using ex cancel_invoice_ok [OF ok] by auto
  next
    case (CInitialize x)
    then show ?thesis using ex initialize_ok [OF ok] by auto
  qed (use True in auto)
qed

interpretation escrow: contract_machine exec empty_escrow "escrow_env_ok a" "escrow_ok a" for a
  by unfold_locales (auto intro: escrow_ok_empty exec_ok)

definition open_funds :: "addr \<Rightarrow> escrow_state \<Rightarrow> int" where
  "open_funds t s = (\<Sum>i<next_id s. case es_invoices s i of None \<Rightarrow> 0
    | Some ei \<Rightarrow> if inv_token ei = t \<and> is_open ei then inv_funded_amount ei else 0)"

lemma holding_ge_open:
  assumes "slot_ok a n i io D"
  shows "(case io of None \<Rightarrow> 0 | Some ei \<Rightarrow> if inv_token ei = t \<and> is_open ei then inv_funded_amount ei else 0)
    \<le> holding t io D"
proof (cases io)
  case (Some ei)
  have "0 \<le> deposit_sum D"
    using assms Some by (intro deposit_sum_nonneg) (auto simp: invoice_ok_def deposits_ok_def)
  then show ?thesis using assms Some by (auto simp: invoice_ok_def is_open_def)
qed (simp add: holding_def)

lemma open_funds_le_held: "escrow_ok a s \<Longrightarrow> open_funds t s \<le> total_held t s"
  unfolding open_funds_def total_held_def by (rule sum_mono) (blast intro: holding_ge_open escrow_ok_slot)

text \<open>
  C1: Solvency. After any sequence of invocations of the escrow (failed ones rolled back), the
  contract's balance of every token is exactly what its unreleased invoices still owe their payers,
  and it covers the funded amounts of all open invoices.
\<close>

theorem escrow_solvent:
  assumes "list_all (\<lambda>(e, c). escrow_env_ok a e) xs"
  defines "s \<equiv> run exec xs empty_escrow"
  shows "flow a t (es_effects s) = total_held t s \<and> open_funds t s \<le> flow a t (es_effects s)"
proof -
  have "escrow_ok a s" unfolding s_def using assms(1) by (rule escrow.invar_run)
  then show ?thesis using open_funds_le_held escrow_ok_flow by metis
qed

definition demo_env :: "nat \<Rightarrow> nat \<Rightarrow> addr \<Rightarrow> escrow_env" where
  "demo_env t q x = \<lparr>timestamp = t, sequence = q, self_addr = 99, auth = (\<lambda>b. b = x),
    lastprice = (\<lambda>_ _. None), max_ttl = 1000\<rparr>"

definition demo_run :: "(escrow_env \<times> escrow_call) list" where
  "demo_run =
    [(demo_env 10 1 1, CInitialize 1), (demo_env 11 2 2, CCreateInvoice 2 7 100 50),
     (demo_env 12 3 3, CDeposit 3 0 40), (demo_env 12 3 4, CDeposit 4 0 25)]"

lemmas escrow_eval = demo_env_def empty_escrow_def escrow_ops escrow_emit do_effect_def deposit_def
  blacklist_blocks_def deposit_of_def set_deposit_def drop_value_def validate_deadline_def
  checked_nat_def checked_i128_def sat_add_def rust_int MAX_DEADLINE_HORIZON_def require_auth_def
  arith_def

theorem escrow_solvent_witness:
  "flow 99 7 (es_effects (run exec demo_run empty_escrow)) = 65
    \<and> open_funds 7 (run exec demo_run empty_escrow) \<le> 65"
proof -
  have "list_all (\<lambda>(e, c). escrow_env_ok 99 e) demo_run"
    by (simp add: demo_run_def demo_env_def escrow_env_ok_def)
  note sol = escrow_solvent [OF this, of 7]
  have "flow 99 7 (es_effects (run exec demo_run empty_escrow)) = 65"
    by (simp add: demo_run_def escrow_eval)
  then show ?thesis using sol by simp
qed

end
