(* ===== verification/Escrow_Safety.thy ===== *)
theory Escrow_Safety
  imports Escrow_Funds
begin

text \<open>
  Safety of the invoice-escrow contract beyond its balances: how a stored invoice can evolve, the
  co-signer records and the release gates they guard, the refund grace period, the two-step admin
  handover and the payer blacklist, each as an invariant or a relation kept by every entry point.
\<close>

section \<open>Evolution of an invoice\<close>

definition invoice_evol :: "escrow_invoice \<Rightarrow> escrow_invoice \<Rightarrow> bool" where
  "invoice_evol ei ei' \<longleftrightarrow>
    inv_creator ei' = inv_creator ei \<and> inv_token ei' = inv_token ei
    \<and> inv_total_amount ei' = inv_total_amount ei \<and> inv_deadline ei' = inv_deadline ei
    \<and> inv_funded_amount ei \<le> inv_funded_amount ei'
    \<and> (inv_status ei' = Pending \<longrightarrow> inv_status ei = Pending)
    \<and> (closed ei \<longrightarrow> ei' = ei)"

definition escrow_evol :: "escrow_state \<Rightarrow> escrow_state \<Rightarrow> bool" where
  "escrow_evol s s' \<longleftrightarrow>
    (\<forall>i ei. es_invoices s i = Some ei \<longrightarrow> (\<exists>ei'. es_invoices s' i = Some ei' \<and> invoice_evol ei ei'))"

lemma invoice_evol_refl [simp]: "invoice_evol ei ei"
  by (simp add: invoice_evol_def)

lemma invoice_evol_trans: "invoice_evol x y \<Longrightarrow> invoice_evol y z \<Longrightarrow> invoice_evol x z"
  by (auto simp: invoice_evol_def)

lemma escrow_evol_refl: "escrow_evol s s"
  by (simp add: escrow_evol_def)

lemma escrow_evol_trans: "escrow_evol s t \<Longrightarrow> escrow_evol t u \<Longrightarrow> escrow_evol s u"
  unfolding escrow_evol_def using invoice_evol_trans by meson

lemma escrow_evol_upd:
  assumes "es_invoices s' = (es_invoices s)(i \<mapsto> ei')"
    and "\<And>ei. es_invoices s i = Some ei \<Longrightarrow> invoice_evol ei ei'"
  shows "escrow_evol s s'"
  using assms by (simp add: escrow_evol_def)

lemma open_not_closed: "is_open ei \<Longrightarrow> \<not> closed ei"
  by (auto simp: is_open_def closed_def)

lemma closed_iff: "closed ei \<longleftrightarrow> \<not> is_open ei"
  by (cases "inv_status ei") (auto simp: is_open_def closed_def)

text \<open>The invoices that one successful deposit, release, refund or cancellation leaves.\<close>

lemma gates_invoices: "check_release_gates e i s = (r, s') \<Longrightarrow> es_invoices s' = es_invoices s"
  using gates_same_funds [of e i s r s' 0] by (simp add: same_funds_def)

lemma deposit_invoices:
  assumes "deposit e p i n s = Inr s'"
  obtains ei st where "es_invoices s i = Some ei" "is_open ei" "0 < n"
    "inv_funded_amount ei + n \<le> inv_total_amount ei"
    "es_invoices s' = (es_invoices s)(i \<mapsto>
      ei\<lparr>inv_funded_amount := inv_funded_amount ei + n, inv_status := st\<rparr>)"
    "st = Active \<or> st = Released \<and> inv_funded_amount ei + n = inv_total_amount ei"
  using assms
proof (rule deposit_cases)
  fix ei ei1 s3 s4
  assume n: "0 < n" and inv: "es_invoices s i = Some ei" and op: "is_open ei"
    and le: "inv_funded_amount ei + n \<le> inv_total_amount ei"
    and ei1: "ei1 = ei\<lparr>inv_funded_amount := inv_funded_amount ei + n, inv_status := Active\<rparr>"
    and s3: "s3 = after_deposit e p i n ei s"
    and res: "(s4 = s3 \<or> (\<exists>err. check_release_gates e i s3 = (Inl err, s4))) \<and> s' = save_invoice i ei1 s4
     \<or> inv_funded_amount ei + n = inv_total_amount ei
       \<and> check_release_gates e i s3 = (Inr (), s4) \<and> s' = snd (execute_release e i ei1 s4)"
  have s4: "es_invoices s4 = es_invoices s"
    using res gates_invoices s3 after_deposit_fields(1) by metis
  from res show ?thesis
  proof
    assume "(s4 = s3 \<or> (\<exists>err. check_release_gates e i s3 = (Inl err, s4))) \<and> s' = save_invoice i ei1 s4"
    then show ?thesis using that [OF inv op n le, of Active] by (simp add: save_invoice_def s4 ei1)
  next
    assume r: "inv_funded_amount ei + n = inv_total_amount ei
       \<and> check_release_gates e i s3 = (Inr (), s4) \<and> s' = snd (execute_release e i ei1 s4)"
    obtain v where "execute_release e i ei1 s4 = (v, s')" using r by (metis prod.collapse)
    from execute_release_fields(2) [OF this] show ?thesis
      using that [OF inv op n le, of Released] r by (simp add: s4 ei1)
  qed
qed

lemma release_invoices:
  assumes "release e i s = Inr s'"
  obtains ei s1 s2 where "es_invoices s i = Some ei" "is_open ei"
    "inv_total_amount ei \<le> inv_funded_amount ei"
    "check_release_gates e i s = (Inr (), s1)" "execute_release e i ei s1 = ((inv_creator ei, inv_total_amount ei), s2)"
    "s' = do_effect (Publish (EvEscrowReleased i (inv_creator ei) (inv_total_amount ei))) s2"
    "es_invoices s' = (es_invoices s)(i \<mapsto> ei\<lparr>inv_status := Released\<rparr>)"
proof -
  from assms obtain ei where inv: "es_invoices s i = Some ei" and st: "\<not> closed ei"
    and full: "inv_total_amount ei \<le> inv_funded_amount ei"
    by (auto simp: release_def get_invoice_def result_simps not_less split: if_splits)
  obtain r s1 where g: "check_release_gates e i s = (r, s1)" by (metis surj_pair)
  obtain v s2 where x: "execute_release e i ei s1 = (v, s2)" by (metis surj_pair)
  have v: "v = (inv_creator ei, inv_total_amount ei)" by (rule execute_release_fields(1) [OF x])
  have r: "r = Inr ()" using assms inv st full g
    by (cases r) (auto simp: release_def get_invoice_def)
  have s': "s' = do_effect (Publish (EvEscrowReleased i (inv_creator ei) (inv_total_amount ei))) s2"
    using assms inv st full g r x v by (auto simp: release_def get_invoice_def)
  show ?thesis
    by (rule that [OF inv _ full g [unfolded r] x [unfolded v] s'])
      (use st s' gates_invoices [OF g] execute_release_fields(2) [OF x] in \<open>simp_all add: closed_iff\<close>)
qed

lemma refund_invoices:
  assumes "refund e i ps r s = Inr s'"
  obtains ei where "es_invoices s i = Some ei" "is_open ei"
    "es_invoices s' = (es_invoices s)(i \<mapsto> ei\<lparr>inv_status := Refunded, inv_refund_reason := Some r\<rparr>)"
  using assms
  by (rule refund_cases) (auto simp: closed_iff save_invoice_def refund_fold_fields intro: that)

lemma cancel_invoices:
  assumes "cancel_invoice e i s = Inr s'"
  obtains ei where "es_invoices s i = Some ei" "is_open ei"
    "es_invoices s' = (es_invoices s)(i \<mapsto> ei\<lparr>inv_status := Cancelled\<rparr>)"
  using assms by (auto simp: escrow_ops result_simps closed_iff split: if_splits intro: that)

lemma create_invoices:
  assumes "create_invoice e cr t n d s = Inr (i, s')"
  shows "i = next_id s \<and> next_id s' = Suc i \<and> es_invoices s' = (es_invoices s)(i \<mapsto>
    \<lparr>inv_creator = cr, inv_token = t, inv_total_amount = n, inv_funded_amount = 0,
      inv_deadline = d, inv_status = Pending, inv_refund_reason = None\<rparr>)"
  using assms by (auto simp: escrow_ops escrow_emit result_simps Let_def next_id_def checked_nat_def
      split: if_splits)

lemma exec_evol:
  assumes ok: "escrow_ok a s" and ex: "exec e c s = Inr s'"
  shows "escrow_evol s s'"
proof (cases "moves_funds c")
  case False
  then show ?thesis
    using exec_same_funds [OF ex, of 0] by (simp add: same_funds_def escrow_evol_def)
next
  case True
  have dep: "escrow_evol s s'" if "deposit e p i n s = Inr s'" for p i n
    using that by (rule deposit_invoices)
      (erule escrow_evol_upd, auto simp: invoice_evol_def open_not_closed)
  show ?thesis
  proof (cases c)
    case (CCreateInvoice cr t n d)
    then obtain i where cr: "create_invoice e cr t n d s = Inr (i, s')"
      using ex by (auto simp: result_simps)
    have "es_invoices s (next_id s) = None"
      using escrow_ok_invoice [OF ok, of "next_id s"] by (cases "es_invoices s (next_id s)") auto
    then show ?thesis using create_invoices [OF cr] by (auto simp: escrow_evol_def)
  next
    case (CRelease i)
    with ex have "release e i s = Inr s'" by simp
    then show ?thesis by (rule release_invoices)
        (erule escrow_evol_upd, auto simp: invoice_evol_def open_not_closed)
  next
    case (CRefund i ps r)
    with ex have "refund e i ps r s = Inr s'" by simp
    then show ?thesis by (rule refund_invoices)
        (erule escrow_evol_upd, auto simp: invoice_evol_def open_not_closed)
  next
    case (CCancelInvoice i)
    with ex have "cancel_invoice e i s = Inr s'" by simp
    then show ?thesis by (rule cancel_invoices)
        (erule escrow_evol_upd, auto simp: invoice_evol_def open_not_closed)
  next
    case (CInitialize x)
    then show ?thesis using ex
      by (auto simp: initialize_def result_simps escrow_evol_def split: if_splits)
  qed (use True ex dep in \<open>auto simp: pay_invoice_def\<close>)
qed

interpretation escrow_life: evolving_machine exec empty_escrow "escrow_env_ok a" "escrow_ok a" escrow_evol
  for a
  by unfold_locales (blast intro: escrow_evol_refl escrow_evol_trans exec_evol)+

text \<open>
  C6: Lifecycle. However a run of the escrow continues, a stored invoice keeps its creator, token,
  total and deadline, its funded amount never decreases, it never returns to \<open>Pending\<close>, and once
  released, refunded or cancelled it is never changed again.
\<close>

theorem escrow_lifecycle:
  assumes "list_all (\<lambda>(e, c). escrow_env_ok a e) (xs @ ys)"
    and "es_invoices (run exec xs empty_escrow) i = Some ei"
  shows "\<exists>ei'. es_invoices (run exec (xs @ ys) empty_escrow) i = Some ei' \<and> invoice_evol ei ei'"
  using escrow_life.evol_run [OF assms(1)] assms(2) by (auto simp: escrow_evol_def)

definition demo_refund :: "(escrow_env \<times> escrow_call) list" where
  "demo_refund = [(demo_env 60 9 5, CRefund 0 [4] Escrow_Model.DeadlineExpired)]"

lemma demo_env_ok [simp]: "escrow_env_ok 99 (demo_env t q x) \<longleftrightarrow> x \<noteq> 99"
  by (auto simp: escrow_env_ok_def demo_env_def)

theorem escrow_lifecycle_witness:
  "\<exists>ei'. es_invoices (run exec (demo_run @ demo_refund) empty_escrow) 0 = Some ei'
    \<and> inv_total_amount ei' = 100 \<and> 65 \<le> inv_funded_amount ei'"
proof -
  have env: "list_all (\<lambda>(e, c). escrow_env_ok 99 e) (demo_run @ demo_refund)"
    by (simp add: demo_run_def demo_refund_def)
  have inv: "es_invoices (run exec demo_run empty_escrow) 0 = Some \<lparr>inv_creator = 2, inv_token = 7,
      inv_total_amount = 100, inv_funded_amount = 65, inv_deadline = 50, inv_status = Active,
      inv_refund_reason = None\<rparr>"
    by (simp add: demo_run_def escrow_eval)
  from escrow_lifecycle [OF env inv] show ?thesis by (auto simp: invoice_evol_def)
qed



section \<open>Frames of the fund-moving calls\<close>

definition same_config :: "escrow_state \<Rightarrow> escrow_state \<Rightarrow> bool" where
  "same_config s s' \<longleftrightarrow> es_approvals s' = es_approvals s \<and> es_graces s' = es_graces s
    \<and> es_blacklist s' = es_blacklist s \<and> es_admin s' = es_admin s
    \<and> es_pending_admin s' = es_pending_admin s \<and> es_default_grace s' = es_default_grace s"

lemma gates_config: "check_release_gates e i s = (r, s') \<Longrightarrow> same_config s s'"
  by (simp add: same_config_def gates_frame)

lemma execute_release_config: "execute_release e i ei s = (v, s') \<Longrightarrow> same_config s s'"
  by (simp add: same_config_def execute_release_fields)

lemma after_deposit_config: "same_config s (after_deposit e p i n ei s)"
  by (simp add: same_config_def after_deposit_fields)

lemma save_invoice_config [simp]: "same_config s (save_invoice i ei s') \<longleftrightarrow> same_config s s'"
  by (simp add: same_config_def save_invoice_def)

lemma same_config_frame [simp]:
  "same_config s s"
  "same_config s (do_effect x t) \<longleftrightarrow> same_config s t"
  "same_config s (t\<lparr>es_counter := n\<rparr>) \<longleftrightarrow> same_config s t"
  "same_config s (t\<lparr>es_invoices := m\<rparr>) \<longleftrightarrow> same_config s t"
  "same_config s (t\<lparr>es_oracle_cond := oc\<rparr>) \<longleftrightarrow> same_config s t"
  "same_config s (t\<lparr>es_oracle_read := rd\<rparr>) \<longleftrightarrow> same_config s t"
  "same_config s (t\<lparr>es_schedules := sc\<rparr>) \<longleftrightarrow> same_config s t"
  by (simp_all add: same_config_def)

lemma same_config_trans: "same_config s t \<Longrightarrow> same_config t u \<Longrightarrow> same_config s u"
  by (simp add: same_config_def)

lemma deposit_config:
  assumes "deposit e p i n s = Inr s'"
  shows "same_config s s'"
  using assms
proof (rule deposit_cases)
  fix ei ei1 s3 s4
  assume s3: "s3 = after_deposit e p i n ei s"
    and res: "(s4 = s3 \<or> (\<exists>err. check_release_gates e i s3 = (Inl err, s4))) \<and> s' = save_invoice i ei1 s4
     \<or> inv_funded_amount ei + n = inv_total_amount ei
       \<and> check_release_gates e i s3 = (Inr (), s4) \<and> s' = snd (execute_release e i ei1 s4)"
  have "same_config s s3" using after_deposit_config s3 by simp
  moreover have "same_config s3 s4" using res gates_config by (auto simp: same_config_def)
  moreover have "same_config s4 s'"
    using res execute_release_config [of e i ei1 s4 _ s'] by (auto simp: same_config_def prod_eq_iff
        save_invoice_def)
  ultimately show ?thesis using same_config_trans by blast
qed

lemma release_config:
  assumes "release e i s = Inr s'"
  shows "same_config s s'"
  using assms
proof (rule release_invoices)
  fix ei s1 s2
  assume "check_release_gates e i s = (Inr (), s1)"
    and "execute_release e i ei s1 = ((inv_creator ei, inv_total_amount ei), s2)"
    and s': "s' = do_effect (Publish (EvEscrowReleased i (inv_creator ei) (inv_total_amount ei))) s2"
  then have "same_config s s2" by (blast intro: same_config_trans gates_config execute_release_config)
  then show ?thesis by (simp add: s' same_config_def)
qed

lemma refund_config: "refund e i ps r s = Inr s' \<Longrightarrow> same_config s s'"
  by (erule refund_cases) (simp add: same_config_def refund_fold_fields save_invoice_def)

lemma cancel_config: "cancel_invoice e i s = Inr s' \<Longrightarrow> same_config s s'"
  by (auto simp: escrow_ops result_simps same_config_def split: if_splits)


lemma evaluate_config: "evaluate_oracle_condition e i c s = (r, s') \<Longrightarrow> same_config s s'"
  by (auto simp: evaluate_oracle_condition_def escrow_emit Let_def same_config_def
      split: sum.splits option.splits)

lemma check_config: "check_oracle_condition e i s = Inr (v, s') \<Longrightarrow> same_config s s'"
  by (erule check_oracle_condition_eq_Inr) (rule evaluate_config)

lemma oracle_config:
  "set_oracle_condition e i c s = Inr s' \<Longrightarrow> same_config s s'"
  "clear_oracle_condition e i s = Inr s' \<Longrightarrow> same_config s s'"
  "schedule_release e i r m s = Inr (sch, s') \<Longrightarrow> same_config s s'"
  "cancel_release_schedule e i s = Inr s' \<Longrightarrow> same_config s s'"
  by (auto simp: escrow_ops escrow_emit result_simps Let_def same_config_def split: if_splits)

text \<open>Which part of the configuration a call may change, and that it changes nothing else of it.\<close>

datatype config_part = NoPart | Votes | Graces | Blacklists | Admins

fun touches :: "escrow_call \<Rightarrow> config_part" where
  "touches (CSetCosigners i xs m) = Votes"
| "touches (CApproveRelease x i) = Votes"
| "touches (CRejectRelease x i) = Votes"
| "touches (CRevokeVote x i) = Votes"
| "touches (CCreateInvoice c t n d) = Graces"
| "touches (CSetDefaultRefundGrace g) = Graces"
| "touches (CSetRefundGrace i g) = Graces"
| "touches (CExtendRefundGrace i g) = Graces"
| "touches (CWaiveRefundGrace i) = Graces"
| "touches (CBlacklistPayer a p h) = Blacklists"
| "touches (CSubmitAppeal p i h) = Blacklists"
| "touches (CFinaliseBlacklist a p u) = Blacklists"
| "touches (CInitialize a) = Admins"
| "touches (CTransferAdmin a) = Admins"
| "touches CAcceptAdmin = Admins"
| "touches CCancelTransfer = Admins"
| "touches _ = NoPart"

fun rest_of :: "config_part \<Rightarrow> escrow_state \<Rightarrow> escrow_state \<Rightarrow> escrow_state" where
  "rest_of NoPart s s' = s"
| "rest_of Votes s s' = s\<lparr>es_approvals := es_approvals s'\<rparr>"
| "rest_of Graces s s' = s\<lparr>es_graces := es_graces s', es_default_grace := es_default_grace s'\<rparr>"
| "rest_of Blacklists s s' = s\<lparr>es_blacklist := es_blacklist s'\<rparr>"
| "rest_of Admins s s' = s\<lparr>es_admin := es_admin s', es_pending_admin := es_pending_admin s'\<rparr>"

lemma store_vote_config: "store_vote e act i x old ap s = (v, s') \<Longrightarrow> same_config (rest_of Votes s s') s'"
  by (auto simp: store_vote_def Let_def escrow_emit save_approval_def same_config_def)

lemma vote_config:
  "cast_vote e x i b s = Inr (v, s') \<Longrightarrow> same_config (rest_of Votes s s') s'"
  "revoke_vote e x i s = Inr (v, s') \<Longrightarrow> same_config (rest_of Votes s s') s'"
  by (auto elim!: cast_vote_cases revoke_vote_cases dest: store_vote_config)

lemma cosigners_config: "set_cosigners e i xs m s = Inr s' \<Longrightarrow> same_config (rest_of Votes s s') s'"
  by (auto simp: set_cosigners_def save_approval_def escrow_emit result_simps Let_def same_config_def
      split: if_splits)

lemma create_invoice_state:
  assumes "create_invoice e cr t n d s = Inr (j, s')"
  defines "s2 \<equiv> save_invoice j \<lparr>inv_creator = cr, inv_token = t, inv_total_amount = n,
    inv_funded_amount = 0, inv_deadline = d, inv_status = Pending, inv_refund_reason = None\<rparr>
    (s\<lparr>es_counter := Some (j + 1)\<rparr>)"
  shows "s' = emit_invoice_created j cr n d
    (if 0 < get_default_refund_grace s
     then save_grace j \<lparr>gr_grace_secs = get_default_refund_grace s, gr_extension_secs = 0,
       gr_waived = False\<rparr> s2 else s2)"
proof -
  have "es_default_grace (save_invoice j x (s\<lparr>es_counter := m\<rparr>)) = es_default_grace s" for x m
    by (simp add: save_invoice_def)
  then show ?thesis
    using assms(1) unfolding create_invoice_def s2_def get_default_refund_grace_def Let_def
    by (auto simp: result_simps checked_nat_def split: if_splits)
qed

lemma create_config:
  assumes "create_invoice e cr t n d s = Inr (j, s')"
  shows "same_config (rest_of Graces s s') s'"
  unfolding create_invoice_state [OF assms]
  by (simp add: escrow_emit save_invoice_def save_grace_def same_config_def)

lemma grace_config:
  "set_default_refund_grace e g s = Inr s' \<Longrightarrow> same_config (rest_of Graces s s') s'"
  "set_refund_grace e i g s = Inr s' \<Longrightarrow> same_config (rest_of Graces s s') s'"
  by (auto simp: escrow_ops escrow_emit result_simps Let_def same_config_def split: if_splits)

lemma extend_refund_grace_cases:
  assumes "extend_refund_grace e i x s = Inr s'"
  obtains ei g where "es_invoices s i = Some ei" "is_open ei"
    "g = (case es_graces s i of Some g \<Rightarrow> g
          | None \<Rightarrow> \<lparr>gr_grace_secs = 0, gr_extension_secs = 0, gr_waived = False\<rparr>)"
    "gr_grace_secs g + gr_extension_secs g + x \<le> MAX_REFUND_GRACE_SECS"
    "s' = emit_grace_changed GraceExt i (g\<lparr>gr_extension_secs := gr_extension_secs g + x\<rparr>)
      (save_grace i (g\<lparr>gr_extension_secs := gr_extension_secs g + x\<rparr>) s)"
proof -
  define g where "g = (case es_graces s i of Some g \<Rightarrow> g
          | None \<Rightarrow> \<lparr>gr_grace_secs = 0, gr_extension_secs = 0, gr_waived = False\<rparr>)"
  from assms obtain ei where ei: "es_invoices s i = Some ei" "is_open ei"
    by (auto simp: extend_refund_grace_def get_invoice_def result_simps split: if_splits)
  have "gr_grace_secs g + gr_extension_secs g + x \<le> MAX_REFUND_GRACE_SECS
    \<and> s' = emit_grace_changed GraceExt i (g\<lparr>gr_extension_secs := gr_extension_secs g + x\<rparr>)
      (save_grace i (g\<lparr>gr_extension_secs := gr_extension_secs g + x\<rparr>) s)"
    using assms ei unfolding extend_refund_grace_def g_def [symmetric] Let_def
    by (auto simp: get_invoice_def result_simps checked_nat_def bind_eq_Some_conv split: if_splits)
  then show ?thesis using that [OF ei g_def] by blast
qed

lemma waive_refund_grace_cases:
  assumes "waive_refund_grace e i s = Inr s'"
  obtains g where "es_graces s i = Some g"
    "s' = emit_grace_changed GraceWvd i (g\<lparr>gr_waived := True\<rparr>) (save_grace i (g\<lparr>gr_waived := True\<rparr>) s)"
  using assms by (auto simp: waive_refund_grace_def get_invoice_def result_simps Let_def split: if_splits)

lemma grace_change_config:
  "extend_refund_grace e i g s = Inr s' \<Longrightarrow> same_config (rest_of Graces s s') s'"
  "waive_refund_grace e i s = Inr s' \<Longrightarrow> same_config (rest_of Graces s s') s'"
  by (auto elim!: extend_refund_grace_cases waive_refund_grace_cases
      simp: escrow_emit save_grace_def same_config_def)

lemma blacklist_config:
  "blacklist_payer e adm p h s = Inr s' \<Longrightarrow> same_config (rest_of Blacklists s s') s'"
  "submit_appeal e p i h s = Inr s' \<Longrightarrow> same_config (rest_of Blacklists s s') s'"
  "finalise_blacklist e adm p u s = Inr s' \<Longrightarrow> same_config (rest_of Blacklists s s') s'"
  by (auto simp: escrow_ops escrow_emit result_simps Let_def same_config_def split: if_splits)

lemma admin_config:
  "initialize e x s = Inr s' \<Longrightarrow> same_config (rest_of Admins s s') s'"
  "transfer_admin e x s = Inr s' \<Longrightarrow> same_config (rest_of Admins s s') s'"
  "accept_admin e s = Inr s' \<Longrightarrow> same_config (rest_of Admins s s') s'"
  "cancel_transfer e s = Inr s' \<Longrightarrow> same_config (rest_of Admins s s') s'"
  by (auto simp: escrow_ops escrow_emit result_simps same_config_def split: if_splits)

lemmas config_rules = deposit_config release_config refund_config cancel_config check_config
  oracle_config vote_config cosigners_config create_config grace_config grace_change_config blacklist_config admin_config

lemma exec_config:
  assumes "exec e c s = Inr s'"
  shows "same_config (rest_of (touches c) s s') s'"
  using assms
  by (cases c) (auto simp: drop_value_eq_Inr pay_invoice_def approve_release_def reject_release_def
    simp del: rest_of.simps(2-) dest: config_rules)

section \<open>Co-signer approval\<close>

definition computed_status :: "cosigner_approval \<Rightarrow> approval_status" where
  "computed_status ap =
    (if ap_threshold ap \<le> length (ap_approvals ap) then Approved
     else if length (ap_signers ap) - length (ap_rejections ap) < ap_threshold ap then Rejected
     else ApprPending)"

definition approval_ok :: "cosigner_approval \<Rightarrow> bool" where
  "approval_ok ap \<longleftrightarrow> distinct (ap_signers ap) \<and> distinct (ap_approvals ap)
    \<and> distinct (ap_rejections ap) \<and> set (ap_approvals ap) \<subseteq> set (ap_signers ap)
    \<and> set (ap_rejections ap) \<subseteq> set (ap_signers ap)
    \<and> set (ap_approvals ap) \<inter> set (ap_rejections ap) = {}
    \<and> 0 < ap_threshold ap \<and> ap_threshold ap \<le> length (ap_signers ap)
    \<and> length (ap_signers ap) \<le> MAX_COSIGNERS \<and> ap_status ap = computed_status ap"

definition approvals_ok :: "escrow_state \<Rightarrow> bool" where
  "approvals_ok s \<longleftrightarrow> (\<forall>i ap. es_approvals s i = Some ap \<longrightarrow> approval_ok ap)"

lemma rejections_le: "approval_ok ap \<Longrightarrow> length (ap_rejections ap) \<le> length (ap_signers ap)"
  unfolding approval_ok_def by (metis distinct_card card_mono List.finite_set)

lemma length_le_signers:
  "distinct xs \<Longrightarrow> set xs \<subseteq> set ys \<Longrightarrow> length xs \<le> length ys"
  by (metis card_length card_mono distinct_card le_trans List.finite_set)

lemma recompute_ok:
  assumes "recompute_approval_status ap = Inr ap2"
    and "approval_ok (ap\<lparr>ap_status := computed_status ap\<rparr>)"
  shows "approval_ok (ap2\<lparr>ap_updated_ledger := q\<rparr>)"
  using assms by (auto simp: recompute_approval_status_def computed_status_def approval_ok_def Let_def
      split: if_splits)

lemma approval_ok_distinct:
  "approval_ok ap \<Longrightarrow> distinct (ap_approvals ap)" "approval_ok ap \<Longrightarrow> distinct (ap_rejections ap)"
  by (simp_all add: approval_ok_def)

lemma approval_ok_fewer_approvals:
  assumes "approval_ok ap" and "distinct xs" and "set xs \<subseteq> set (ap_approvals ap)"
  shows "approval_ok (ap\<lparr>ap_approvals := xs, ap_status := computed_status (ap\<lparr>ap_approvals := xs\<rparr>)\<rparr>)"
  using assms unfolding approval_ok_def by (simp add: computed_status_def) blast

lemma approval_ok_fewer_rejections:
  assumes "approval_ok ap" and "distinct xs" and "set xs \<subseteq> set (ap_rejections ap)"
  shows "approval_ok (ap\<lparr>ap_rejections := xs, ap_status := computed_status (ap\<lparr>ap_rejections := xs\<rparr>)\<rparr>)"
  using assms unfolding approval_ok_def by (simp add: computed_status_def) blast

lemma cast_vote_approvals_ok:
  assumes ok: "approvals_ok s" and "cast_vote e x i b s = Inr (v, s')"
  shows "approvals_ok s'"
  using assms(2)
proof (rule cast_vote_cases)
  fix ei and ap ap2 :: cosigner_approval
  let ?ap1 = "if b then ap\<lparr>ap_approvals := ap_approvals ap @ [x]\<rparr>
       else ap\<lparr>ap_rejections := ap_rejections ap @ [x]\<rparr>"
  assume ap: "es_approvals s i = Some ap" and x: "x \<in> set (ap_signers ap)"
    "x \<notin> set (ap_approvals ap)" "x \<notin> set (ap_rejections ap)"
    and rc: "recompute_approval_status ?ap1 = Inr ap2"
    and st: "store_vote e (if b then VoteApproved else VoteRejected) i x (ap_status ap) ap2 s = (v, s')"
  have "approval_ok ap" using ok ap by (simp add: approvals_ok_def)
  then have "approval_ok (?ap1\<lparr>ap_status := computed_status ?ap1\<rparr>)"
    using x by (cases b) (auto simp: approval_ok_def computed_status_def)
  from recompute_ok [OF rc this] show ?thesis
    using ok store_vote_frame(2) [OF st] by (auto simp: approvals_ok_def)
qed

lemma revoke_vote_approvals_ok:
  assumes ok: "approvals_ok s" and "revoke_vote e x i s = Inr (v, s')"
  shows "approvals_ok s'"
  using assms(2)
proof (rule revoke_vote_cases)
  fix ei and ap ap1 ap2 :: cosigner_approval
  assume ap: "es_approvals s i = Some ap"
    and ap1: "x \<in> set (ap_approvals ap) \<and> ap1 = ap\<lparr>ap_approvals := remove1 x (ap_approvals ap)\<rparr>
      \<or> x \<notin> set (ap_approvals ap) \<and> x \<in> set (ap_rejections ap)
        \<and> ap1 = ap\<lparr>ap_rejections := remove1 x (ap_rejections ap)\<rparr>"
    and rc: "recompute_approval_status ap1 = Inr ap2"
    and st: "store_vote e VoteRevoked i x (ap_status ap1) ap2 s = (v, s')"
  have "approval_ok ap" using ok ap by (simp add: approvals_ok_def)
  then have "approval_ok (ap1\<lparr>ap_status := computed_status ap1\<rparr>)"
    using ap1 approval_ok_fewer_approvals [of ap "remove1 x (ap_approvals ap)"]
      approval_ok_fewer_rejections [of ap "remove1 x (ap_rejections ap)"]
    by (auto simp: set_remove1_subset approval_ok_distinct)
  from recompute_ok [OF rc this] show ?thesis
    using ok store_vote_frame(2) [OF st] by (auto simp: approvals_ok_def)
qed

lemma set_cosigners_approvals:
  assumes "set_cosigners e i xs m s = Inr s'"
  shows "es_approvals s' = (es_approvals s)(i \<mapsto> \<lparr>ap_signers = xs, ap_threshold = m,
      ap_approvals = [], ap_rejections = [], ap_status = ApprPending, ap_updated_ledger = sequence e\<rparr>)"
    and "distinct xs" "0 < m" "m \<le> length xs" "length xs \<le> MAX_COSIGNERS"
  using assms
  by (auto simp: set_cosigners_def save_approval_def escrow_emit result_simps Let_def split: if_splits)

lemma set_cosigners_approvals_ok:
  assumes "approvals_ok s" and "set_cosigners e i xs m s = Inr s'"
  shows "approvals_ok s'"
  using assms(1) set_cosigners_approvals [OF assms(2)]
  by (simp add: approvals_ok_def approval_ok_def computed_status_def)

lemma exec_approvals:
  assumes "exec e c s = Inr s'" and "touches c \<noteq> Votes"
  shows "es_approvals s' = es_approvals s"
  using exec_config [OF assms(1)] assms(2) by (cases "touches c") (simp_all add: same_config_def)

lemma exec_approvals_ok:
  assumes ok: "approvals_ok s" and ex: "exec e c s = Inr s'"
  shows "approvals_ok s'"
proof (cases "touches c = Votes")
  case False
  then show ?thesis using ok exec_approvals [OF ex] by (simp add: approvals_ok_def)
next
  case True
  then show ?thesis using ex
    by (cases c) (auto simp: drop_value_eq_Inr approve_release_def reject_release_def
      intro: cast_vote_approvals_ok [OF ok] revoke_vote_approvals_ok [OF ok]
        set_cosigners_approvals_ok [OF ok])
qed

lemma approvals_ok_empty: "approvals_ok empty_escrow"
  by (simp add: approvals_ok_def empty_escrow_def)

interpretation cosigners: contract_machine exec empty_escrow "escrow_env_ok a" approvals_ok for a
  by unfold_locales (auto intro: exec_approvals_ok approvals_ok_empty)

text \<open>
  C10: In every reachable state a co-signer of an open invoice who has not voted can vote: the vote
  never traps in the unsigned subtraction of the rejections, it is recorded once, and the stored
  status is the one that the threshold and the votes determine.
\<close>

theorem vote_recorded:
  assumes "list_all (\<lambda>(e, c). escrow_env_ok a e) xs" and "s = run exec xs empty_escrow"
    and "es_invoices s i = Some ei" and "is_open ei" and "es_approvals s i = Some ap"
    and "x \<in> set (ap_signers ap)" and "x \<notin> set (ap_approvals ap)" and "x \<notin> set (ap_rejections ap)"
    and "auth e x"
  shows "\<exists>st s' ap'. approve_release e x i s = Inr (st, s') \<and> es_approvals s' i = Some ap'
    \<and> ap_approvals ap' = ap_approvals ap @ [x] \<and> ap_rejections ap' = ap_rejections ap
    \<and> st = computed_status ap' \<and> approval_ok ap'"
proof -
  have ok: "approvals_ok s" unfolding assms(2) by (rule cosigners.invar_run [OF assms(1)])
  then have "approval_ok ap" using assms(5) by (simp add: approvals_ok_def)
  then have le: "\<not> length (ap_signers ap) < length (ap_rejections ap)" using rejections_le by force
  let ?ap1 = "ap\<lparr>ap_approvals := ap_approvals ap @ [x]\<rparr>"
  let ?ap2 = "?ap1\<lparr>ap_status := computed_status ?ap1\<rparr>"
  have rc: "recompute_approval_status ?ap1 = Inr ?ap2"
    using le by (simp add: recompute_approval_status_def computed_status_def Let_def)
  obtain st s' where sv: "store_vote e VoteApproved i x (ap_status ap) ?ap2 s = (st, s')"
    by (metis surj_pair)
  have cv: "cast_vote e x i True s = Inr (st, s')"
    using assms(3-9) rc sv by (simp add: cast_vote_def get_invoice_def Let_def)
  have "es_approvals s' i = Some (?ap2\<lparr>ap_updated_ledger := sequence e\<rparr>)"
    and st: "st = computed_status ?ap1"
    using store_vote_frame(1,2) [OF sv] by simp_all
  moreover have "approval_ok (?ap2\<lparr>ap_updated_ledger := sequence e\<rparr>)"
    using cast_vote_approvals_ok [OF ok cv] calculation(1) by (simp add: approvals_ok_def)
  ultimately show ?thesis using cv by (simp add: approve_release_def computed_status_def)
qed

definition demo_cosign :: "(escrow_env \<times> escrow_call) list" where
  "demo_cosign =
    [(demo_env 10 1 1, CInitialize 1), (demo_env 11 2 2, CCreateInvoice 2 7 100 50),
     (demo_env 11 2 2, CSetCosigners 0 [5, 6, 8] 2), (demo_env 11 3 5, CApproveRelease 5 0)]"

lemmas vote_eval = cast_vote_def store_vote_def recompute_approval_status_def MAX_COSIGNERS_def
  is_open_def

theorem vote_recorded_witness:
  "\<exists>s'. approve_release (demo_env 12 4 6) 6 0 (run exec demo_cosign empty_escrow) = Inr (Approved, s')"
proof -
  let ?s = "run exec demo_cosign empty_escrow"
  have inv: "es_invoices ?s 0 = Some \<lparr>inv_creator = 2, inv_token = 7, inv_total_amount = 100,
      inv_funded_amount = 0, inv_deadline = 50, inv_status = Pending, inv_refund_reason = None\<rparr>"
    by (simp add: demo_cosign_def escrow_eval vote_eval)
  have ap: "es_approvals ?s 0 = Some \<lparr>ap_signers = [5, 6, 8], ap_threshold = 2,
      ap_approvals = [5], ap_rejections = [], ap_status = ApprPending, ap_updated_ledger = 3\<rparr>"
    by (simp add: demo_cosign_def escrow_eval vote_eval)
  have env: "list_all (\<lambda>(e, c). escrow_env_ok 99 e) demo_cosign" by (simp add: demo_cosign_def)
  obtain st s' ap' where r: "approve_release (demo_env 12 4 6) 6 0 ?s = Inr (st, s')"
    and "ap_approvals ap' = [5, 6]" and "st = computed_status ap'" and "es_approvals s' 0 = Some ap'"
    using vote_recorded [OF env refl inv _ ap, of 6 "demo_env 12 4 6"]
    by (auto simp: is_open_def demo_env_def)
  have "ap_threshold ap' = 2"
    using r \<open>es_approvals s' 0 = Some ap'\<close> inv ap
    by (auto simp: approve_release_def vote_eval get_invoice_def Let_def save_approval_def escrow_emit
        demo_env_def require_auth_def)
  then show ?thesis using r \<open>st = computed_status ap'\<close> \<open>ap_approvals ap' = [5, 6]\<close>
    by (simp add: computed_status_def)
qed


section \<open>Release gates\<close>

definition oracle_confirms :: "escrow_env \<Rightarrow> oracle_condition \<Rightarrow> bool" where
  "oracle_confirms e c \<longleftrightarrow> (\<exists>x d. (x = oc_oracle c \<or> oc_fallback_oracle c = Some x)
    \<and> lastprice e x (oc_asset c) = Some d \<and> 0 < pd_price d \<and> pd_timestamp d \<le> timestamp e
    \<and> timestamp e - pd_timestamp d \<le> oc_max_staleness_secs c \<and> condition_holds c (pd_price d))"

definition gates_open :: "escrow_env \<Rightarrow> escrow_state \<Rightarrow> nat \<Rightarrow> bool" where
  "gates_open e s i \<longleftrightarrow> is_release_due e s i
    \<and> (case es_approvals s i of None \<Rightarrow> True
       | Some ap \<Rightarrow> ap_threshold ap \<le> card (set (ap_approvals ap))
           \<and> set (ap_approvals ap) \<subseteq> set (ap_signers ap))
    \<and> (case es_oracle_cond s i of None \<Rightarrow> True | Some c \<Rightarrow> oracle_confirms e c)"

lemma read_oracle_Inr:
  "read_oracle e x asset stale = Inr d \<Longrightarrow> lastprice e x asset = Some d \<and> 0 < pd_price d
    \<and> pd_timestamp d \<le> timestamp e \<and> timestamp e - pd_timestamp d \<le> stale"
  by (auto simp: read_oracle_def not_less split: option.splits if_splits)

lemma evaluate_confirms:
  assumes "evaluate_oracle_condition e i c s = (Inr reading, s')" and "or_condition_met reading"
  shows "oracle_confirms e c"
  using assms
  by (auto simp: evaluate_oracle_condition_def Let_def mk_reading_def oracle_confirms_def
      dest!: read_oracle_Inr split: sum.splits option.splits)

lemma gates_pass:
  assumes ok: "approvals_ok s" and g: "check_release_gates e i s = (Inr u, s')"
  shows "gates_open e s i"
proof -
  have sg: "schedule_gate e (es_schedules s i) = None" and ag: "approval_gate (es_approvals s i) = None"
    using g by (auto simp: check_release_gates_def split: option.splits)
  have "is_release_due e s i"
    using sg by (auto simp: is_release_due_def schedule_gate_def not_less split: option.splits if_splits)
  moreover have "ap_threshold ap \<le> card (set (ap_approvals ap)) \<and> set (ap_approvals ap) \<subseteq> set (ap_signers ap)"
    if ap: "es_approvals s i = Some ap" for ap
  proof -
    have "approval_ok ap" using ok ap by (simp add: approvals_ok_def)
    moreover have "ap_status ap = Approved"
      using ag ap by (auto simp: approval_gate_def split: approval_status.splits)
    ultimately show ?thesis
      by (auto simp: approval_ok_def computed_status_def distinct_card split: if_splits)
  qed
  moreover have "oracle_confirms e c" if c: "es_oracle_cond s i = Some c" for c
  proof -
    obtain r s1 where ev: "evaluate_oracle_condition e i c s = (r, s1)" by (metis surj_pair)
    then show ?thesis using g sg ag c evaluate_confirms [of e i c s]
      by (cases r) (auto simp: check_release_gates_def Let_def split: if_splits)
  qed
  ultimately show ?thesis by (auto simp: gates_open_def split: option.splits)
qed

end
