(* ===== verification/Escrow_Guards.thy ===== *)
theory Escrow_Guards
  imports Escrow_Safety
begin

text \<open>
  When the escrow lets money or power change hands: an invoice is released only fully funded and
  through open gates; a refund opens only after the deadline and the grace period and pays each
  listed payer its own deposit; a closed invoice locks what it still holds; the admin changes only
  by the two-step handover; a finally blacklisted payer cannot deposit.
\<close>

section \<open>Releases pass the gates\<close>

lemma gates_open_after_deposit: "gates_open e (after_deposit e p i n ei s) i = gates_open e s i"
  by (simp add: gates_open_def is_release_due_def after_deposit_fields)

lemma deposit_release_guarded:
  assumes ok: "approvals_ok s" and dep: "deposit e p i n s = Inr s'"
    and st: "es_invoices s' i = Some ei'" "inv_status ei' = Released"
  shows "inv_funded_amount ei' = inv_total_amount ei' \<and> gates_open e s i"
  using dep
proof (rule deposit_cases)
  fix ei ei1 s3 s4
  assume ei1: "ei1 = ei\<lparr>inv_funded_amount := inv_funded_amount ei + n, inv_status := Active\<rparr>"
    and s3: "s3 = after_deposit e p i n ei s"
    and res: "(s4 = s3 \<or> (\<exists>err. check_release_gates e i s3 = (Inl err, s4))) \<and> s' = save_invoice i ei1 s4
     \<or> inv_funded_amount ei + n = inv_total_amount ei
       \<and> check_release_gates e i s3 = (Inr (), s4) \<and> s' = snd (execute_release e i ei1 s4)"
  have "s' \<noteq> save_invoice i ei1 s4" using st by (auto simp: save_invoice_def ei1)
  then have full: "inv_funded_amount ei + n = inv_total_amount ei"
    and g: "check_release_gates e i s3 = (Inr (), s4)" and s': "s' = snd (execute_release e i ei1 s4)"
    using res by auto
  have "approvals_ok s3" using ok by (simp add: s3 approvals_ok_def after_deposit_fields)
  from gates_pass [OF this g] have "gates_open e s i" by (simp add: s3 gates_open_after_deposit)
  moreover obtain v where "execute_release e i ei1 s4 = (v, s')" using s' by (metis prod.collapse)
  then have "ei' = ei1\<lparr>inv_status := Released\<rparr>" using execute_release_fields(2) st(1) by fastforce
  ultimately show ?thesis using full by (simp add: ei1)
qed

lemma exec_release_guarded:
  assumes ok: "approvals_ok s" "escrow_ok a s" and ex: "exec e c s = Inr s'"
    and old: "es_invoices s i = Some ei" "inv_status ei \<noteq> Released"
    and new: "es_invoices s' i = Some ei'" "inv_status ei' = Released"
  shows "inv_funded_amount ei' = inv_total_amount ei' \<and> gates_open e s i"
proof (cases "moves_funds c")
  case False
  then show ?thesis using exec_same_funds [OF ex, of 0] old new by (simp add: same_funds_def)
next
  case True
  have dep: ?thesis if d: "deposit e p j n s = Inr s'" for p j n
  proof (cases "j = i")
    case True
    then show ?thesis using deposit_release_guarded [OF ok(1)] d new by blast
  next
    case False
    from d show ?thesis by (rule deposit_invoices) (use False old new in auto)
  qed
  show ?thesis
  proof (cases c)
    case (CRelease j)
    with ex have "release e j s = Inr s'" by simp
    then show ?thesis
    proof (rule release_invoices)
      fix fi s1 s2
      assume j: "es_invoices s j = Some fi" "inv_total_amount fi \<le> inv_funded_amount fi"
        and g: "check_release_gates e j s = (Inr (), s1)"
        and s': "es_invoices s' = (es_invoices s)(j \<mapsto> fi\<lparr>inv_status := Released\<rparr>)"
      have "i = j" using s' old new by (auto split: if_splits)
      then show ?thesis
        using gates_pass [OF ok(1) g] s' new j escrow_ok_invoice [OF ok(2) j(1)]
        by (auto simp: invoice_ok_def)
    qed
  next
    case (CCreateInvoice cr t n d)
    then obtain j where "create_invoice e cr t n d s = Inr (j, s')" using ex by (auto simp: result_simps)
    from create_invoices [OF this] show ?thesis using old new by (auto split: if_splits)
  next
    case (CRefund j ps r)
    with ex have "refund e j ps r s = Inr s'" by simp
    then show ?thesis by (rule refund_invoices) (use old new in \<open>auto split: if_splits\<close>)
  next
    case (CCancelInvoice j)
    with ex have "cancel_invoice e j s = Inr s'" by simp
    then show ?thesis by (rule cancel_invoices) (use old new in \<open>auto split: if_splits\<close>)
  next
    case (CInitialize x)
    then show ?thesis using ex old new by (auto simp: initialize_def result_simps split: if_splits)
  qed (use True ex dep in \<open>auto simp: pay_invoice_def\<close>)
qed

text \<open>
  C3: An invoice becomes released only when it is funded exactly to its total and every gate is
  open: its schedule is due in time and in ledgers, at least the threshold of distinct configured
  co-signers have approved, and an oracle of its condition reports a fresh positive price that
  meets the condition.
\<close>

theorem release_guarded:
  assumes "list_all (\<lambda>(e, c). escrow_env_ok a e) xs" and "s = run exec xs empty_escrow"
    and "exec e c s = Inr s'"
    and "es_invoices s i = Some ei" and "inv_status ei \<noteq> Released"
    and "es_invoices s' i = Some ei'" and "inv_status ei' = Released"
  shows "inv_funded_amount ei' = inv_total_amount ei' \<and> gates_open e s i"
  using exec_release_guarded [OF _ _ assms(3-7)] cosigners.invar_run [OF assms(1)]
    escrow.invar_run [OF assms(1)] assms(2) by blast

theorem release_guarded_witness:
  "\<exists>s' ei'. exec (demo_env 13 5 3) (CDeposit 3 0 35) (run exec demo_run empty_escrow) = Inr s'
    \<and> es_invoices s' 0 = Some ei' \<and> inv_status ei' = Released \<and> inv_funded_amount ei' = 100
    \<and> gates_open (demo_env 13 5 3) (run exec demo_run empty_escrow) 0"
proof -
  let ?s = "run exec demo_run empty_escrow" and ?e = "demo_env 13 5 3"
  have env: "list_all (\<lambda>(e, c). escrow_env_ok 99 e) demo_run" by (simp add: demo_run_def)
  have inv: "es_invoices ?s 0 = Some \<lparr>inv_creator = 2, inv_token = 7,
      inv_total_amount = 100, inv_funded_amount = 65, inv_deadline = 50, inv_status = Active,
      inv_refund_reason = None\<rparr>"
    by (simp add: demo_run_def escrow_eval)
  have "\<exists>s'. exec ?e (CDeposit 3 0 35) ?s = Inr s' \<and> es_invoices s' 0 = Some \<lparr>inv_creator = 2,
      inv_token = 7, inv_total_amount = 100, inv_funded_amount = 100, inv_deadline = 50,
      inv_status = Released, inv_refund_reason = None\<rparr>"
    by (simp add: demo_run_def escrow_eval check_release_gates_def schedule_gate_def approval_gate_def
        execute_release_def)
  then obtain s' where ex: "exec ?e (CDeposit 3 0 35) ?s = Inr s'"
    and new: "es_invoices s' 0 = Some \<lparr>inv_creator = 2, inv_token = 7, inv_total_amount = 100,
      inv_funded_amount = 100, inv_deadline = 50, inv_status = Released, inv_refund_reason = None\<rparr>"
    by blast
  have "gates_open ?e ?s 0" using release_guarded [OF env refl ex inv _ new] by simp
  with ex new show ?thesis by force
qed


section \<open>The refund grace period\<close>

definition graces_ok :: "escrow_state \<Rightarrow> bool" where
  "graces_ok s \<longleftrightarrow> get_default_refund_grace s \<le> MAX_REFUND_GRACE_SECS
    \<and> (\<forall>i g. es_graces s i = Some g \<longrightarrow> gr_grace_secs g + gr_extension_secs g \<le> MAX_REFUND_GRACE_SECS)"

lemma graces_ok_upd:
  assumes "graces_ok s" and "es_graces s' = (es_graces s)(i \<mapsto> g)"
    and "es_default_grace s' = es_default_grace s"
    and "gr_grace_secs g + gr_extension_secs g \<le> MAX_REFUND_GRACE_SECS"
  shows "graces_ok s'"
  using assms by (auto simp: graces_ok_def get_default_refund_grace_def)

lemma graces_ok_same:
  "graces_ok s \<Longrightarrow> es_graces s' = es_graces s \<Longrightarrow> es_default_grace s' = es_default_grace s \<Longrightarrow> graces_ok s'"
  by (simp add: graces_ok_def get_default_refund_grace_def)

lemma create_graces_ok:
  assumes "graces_ok s" and cr: "create_invoice e cr t n d s = Inr (j, s')"
  shows "graces_ok s'"
proof (cases "0 < get_default_refund_grace s")
  case True
  show ?thesis
    by (rule graces_ok_upd [OF assms(1), of _ j "\<lparr>gr_grace_secs = get_default_refund_grace s,
        gr_extension_secs = 0, gr_waived = False\<rparr>"])
      (use True assms(1) in \<open>simp_all add: create_invoice_state [OF cr] escrow_emit save_grace_def
        save_invoice_def graces_ok_def\<close>)
next
  case False
  then show ?thesis
    by (intro graces_ok_same [OF assms(1)])
      (simp_all add: create_invoice_state [OF cr] escrow_emit save_invoice_def)
qed

lemma set_grace_graces_ok:
  assumes "graces_ok s" and "set_refund_grace e i g s = Inr s'"
  shows "graces_ok s'"
proof (rule graces_ok_upd [OF assms(1)])
  show "es_graces s' = (es_graces s)(i \<mapsto> \<lparr>gr_grace_secs = g, gr_extension_secs = 0, gr_waived = False\<rparr>)"
    "es_default_grace s' = es_default_grace s"
    "gr_grace_secs \<lparr>gr_grace_secs = g, gr_extension_secs = 0, gr_waived = False\<rparr>
      + gr_extension_secs \<lparr>gr_grace_secs = g, gr_extension_secs = 0, gr_waived = False\<rparr>
      \<le> MAX_REFUND_GRACE_SECS"
    using assms(2) by (auto simp: set_refund_grace_def save_grace_def result_simps Let_def escrow_emit
        split: if_splits)
qed

lemma extend_grace_graces_ok:
  assumes "graces_ok s" and "extend_refund_grace e i x s = Inr s'"
  shows "graces_ok s'"
  using assms(2)
  by (rule extend_refund_grace_cases)
    (rule graces_ok_upd [OF assms(1)], auto simp: escrow_emit save_grace_def)

lemma waive_grace_graces_ok:
  assumes "graces_ok s" and "waive_refund_grace e i s = Inr s'"
  shows "graces_ok s'"
  using assms(2)
  by (rule waive_refund_grace_cases)
    (rule graces_ok_upd [OF assms(1)], use assms(1) in \<open>auto simp: escrow_emit save_grace_def graces_ok_def\<close>)

lemma set_default_graces_ok:
  assumes "graces_ok s" and "set_default_refund_grace e g s = Inr s'"
  shows "graces_ok s'"
  using assms by (auto simp: set_default_refund_grace_def escrow_emit result_simps graces_ok_def
      get_default_refund_grace_def split: if_splits)

lemma exec_graces_ok:
  assumes ok: "graces_ok s" and ex: "exec e c s = Inr s'"
  shows "graces_ok s'"
proof (cases "touches c = Graces")
  case False
  then show ?thesis using exec_config [OF ex]
    by (cases "touches c") (auto simp: same_config_def intro: graces_ok_same [OF ok])
next
  case True
  then show ?thesis using ex
    by (cases c) (auto simp: drop_value_eq_Inr intro: create_graces_ok [OF ok] set_grace_graces_ok [OF ok]
      extend_grace_graces_ok [OF ok] waive_grace_graces_ok [OF ok] set_default_graces_ok [OF ok])
qed

lemma graces_ok_empty: "graces_ok empty_escrow"
  by (simp add: graces_ok_def empty_escrow_def get_default_refund_grace_def)

interpretation graces: contract_machine exec empty_escrow "escrow_env_ok a" graces_ok for a
  by unfold_locales (auto intro: exec_graces_ok graces_ok_empty)


section \<open>Refunds\<close>

lemma refund_payer_payee:
  assumes "deposits_ok (self_addr e) (es_deposits s i)" and "q \<noteq> self_addr e"
  shows "flow q t' (es_effects (refund_payer e i t r p s)) - flow q t' (es_effects s)
    = (if t' = t \<and> q = p then deposit_of s i q else 0)"
proof -
  have "0 \<le> deposit_of s i p"
    using assms(1) by (auto simp: deposit_of_def deposits_ok_def intro: less_imp_le split: option.splits)
  then show ?thesis using assms(2)
    by (auto simp: refund_payer_def Let_def escrow_emit set_deposit_def)
qed

lemma deposit_of_refund_payer:
  assumes "deposits_ok (self_addr e) (es_deposits s i)"
  shows "deposit_of (refund_payer e i t r p s) i q = (if q = p then 0 else deposit_of s i q)"
  by (simp add: deposit_of_def refund_payer_deposits [OF assms])

lemma refund_fold_payee:
  assumes "deposits_ok (self_addr e) (es_deposits s i)" and "q \<noteq> self_addr e"
  shows "flow q t' (es_effects (fold (refund_payer e i t r) ps s)) - flow q t' (es_effects s)
    = (if t' = t \<and> q \<in> set ps then deposit_of s i q else 0)"
  using assms
proof (induction ps arbitrary: s)
  case Nil
  then show ?case by simp
next
  case (Cons p ps)
  have "deposits_ok (self_addr e) (es_deposits (refund_payer e i t r p s) i)"
    using Cons.prems(1) by (simp add: refund_payer_deposits [OF Cons.prems(1)] deposits_ok_remove)
  from Cons.IH [OF this Cons.prems(2)] refund_payer_payee [OF Cons.prems, of t' t r p]
  show ?case by (auto simp: deposit_of_refund_payer [OF Cons.prems(1)] split: if_splits)
qed

text \<open>
  C4: A refund that succeeds in a reachable state comes after the deadline and, unless the grace
  period was waived, after deadline plus grace plus extension; that wait is at most 30 days beyond
  the deadline. It pays every listed payer exactly its recorded deposit (listed twice: once), pays
  nobody else, clears the deposits it paid and leaves the others.
\<close>

theorem refund_correct:
  assumes "list_all (\<lambda>(e, c). escrow_env_ok a e) xs" and "s = run exec xs empty_escrow"
    and "escrow_env_ok a e" and "refund e i ps r s = Inr s'"
  shows "\<exists>ei ei'. es_invoices s i = Some ei \<and> is_open ei \<and> es_invoices s' i = Some ei'
    \<and> inv_status ei' = Refunded \<and> inv_deadline ei < timestamp e
    \<and> (\<forall>g. es_graces s i = Some g \<and> \<not> gr_waived g
        \<and> inv_deadline ei + MAX_REFUND_GRACE_SECS \<le> u64_max
        \<longrightarrow> inv_deadline ei + gr_grace_secs g + gr_extension_secs g < timestamp e
          \<and> gr_grace_secs g + gr_extension_secs g \<le> MAX_REFUND_GRACE_SECS)
    \<and> (\<forall>p t. p \<noteq> a \<longrightarrow> flow p t (es_effects s') - flow p t (es_effects s)
        = (if t = inv_token ei \<and> p \<in> set ps then deposit_of s i p else 0))
    \<and> (\<forall>p. es_deposits s' i p = (if p \<in> set ps then None else es_deposits s i p))"
  using assms(4)
proof (rule refund_cases)
  fix ei
  assume inv: "es_invoices s i = Some ei" and op: "\<not> closed ei" and dl: "inv_deadline ei < timestamp e"
    and gr: "refund_opens_at ei (es_graces s i) < timestamp e"
    and s': "s' = save_invoice i (ei\<lparr>inv_status := Refunded, inv_refund_reason := Some r\<rparr>)
      (fold (refund_payer e i (inv_token ei) r) ps s)"
  have a: "self_addr e = a" using assms(3) by (simp add: escrow_env_ok_def)
  have ok: "escrow_ok a s" and gok: "graces_ok s"
    using assms(1,2) escrow.invar_run graces.invar_run by blast+
  have dok: "deposits_ok (self_addr e) (es_deposits s i)"
    using escrow_ok_invoice [OF ok inv] a by (simp add: invoice_ok_def)
  have grace: "inv_deadline ei + gr_grace_secs g + gr_extension_secs g < timestamp e
      \<and> gr_grace_secs g + gr_extension_secs g \<le> MAX_REFUND_GRACE_SECS"
    if g: "es_graces s i = Some g" "\<not> gr_waived g" "inv_deadline ei + MAX_REFUND_GRACE_SECS \<le> u64_max" for g
  proof -
    have le: "gr_grace_secs g + gr_extension_secs g \<le> MAX_REFUND_GRACE_SECS"
      using gok g by (simp add: graces_ok_def)
    then show ?thesis using gr g by (simp add: refund_opens_at_def sat_add_def)
  qed
  have pay: "flow p t (es_effects s') - flow p t (es_effects s)
      = (if t = inv_token ei \<and> p \<in> set ps then deposit_of s i p else 0)" if "p \<noteq> a" for p t
    using refund_fold_payee [OF dok, of p t "inv_token ei" r ps] that a by (simp add: s' save_invoice_def)
  have dep: "es_deposits s' i p = (if p \<in> set ps then None else es_deposits s i p)" for p
    using refund_fold [OF dok, of "inv_token ei" r ps] by (simp add: s' save_invoice_def)
  show ?thesis
    using inv op dl grace pay dep by (simp add: s' save_invoice_def closed_iff)
qed

theorem refund_correct_witness:
  "\<exists>s'. refund (demo_env 60 9 5) 0 [4, 3, 4] Escrow_Model.DeadlineExpired
      (run exec demo_run empty_escrow) = Inr s'
    \<and> flow 3 7 (es_effects s') = 0 \<and> flow 4 7 (es_effects s') = 0"
proof -
  let ?s = "run exec demo_run empty_escrow" and ?e = "demo_env 60 9 5"
  have env: "list_all (\<lambda>(e, c). escrow_env_ok 99 e) demo_run" by (simp add: demo_run_def)
  have inv: "es_invoices ?s 0 = Some \<lparr>inv_creator = 2, inv_token = 7,
      inv_total_amount = 100, inv_funded_amount = 65, inv_deadline = 50, inv_status = Active,
      inv_refund_reason = None\<rparr>"
    and g: "es_graces ?s 0 = None"
    and d: "deposit_of ?s 0 3 = 40" "deposit_of ?s 0 4 = 25"
    and f: "flow 3 7 (es_effects ?s) = -40" "flow 4 7 (es_effects ?s) = -25"
    by (simp_all add: demo_run_def escrow_eval)
  obtain s' where rf: "refund ?e 0 [4, 3, 4] Escrow_Model.DeadlineExpired ?s = Inr s'"
    using inv g by (simp add: refund_def get_invoice_def closed_def refund_opens_at_def demo_env_def Let_def)
  have "flow p 7 (es_effects s') - flow p 7 (es_effects ?s)
      = (if p \<in> set [4, 3, 4] then deposit_of ?s 0 p else 0)" if "p \<noteq> 99" for p
    using refund_correct [OF env refl _ rf] inv that by auto
  from this [of 3] this [of 4] have "flow 3 7 (es_effects s') = 0" "flow 4 7 (es_effects s') = 0"
    using d f by simp_all
  with rf show ?thesis by blast
qed


section \<open>Funds locked in closed invoices\<close>

definition locked :: "escrow_state \<Rightarrow> escrow_state \<Rightarrow> bool" where
  "locked s s' \<longleftrightarrow> (\<forall>i ei. es_invoices s i = Some ei \<and> closed ei \<longrightarrow>
    es_invoices s' i = Some ei \<and> es_deposits s' i = es_deposits s i)"

lemma locked_refl: "locked s s"
  by (simp add: locked_def)

lemma locked_trans: "locked s t \<Longrightarrow> locked t u \<Longrightarrow> locked s u"
  by (auto simp: locked_def)

lemma deposit_deposits:
  assumes "deposit e p i n s = Inr s'" and "j \<noteq> i"
  shows "es_deposits s' j = es_deposits s j"
  using assms(1)
proof (rule deposit_cases)
  fix ei ei1 s3 s4
  assume s3: "s3 = after_deposit e p i n ei s"
    and res: "(s4 = s3 \<or> (\<exists>err. check_release_gates e i s3 = (Inl err, s4))) \<and> s' = save_invoice i ei1 s4
     \<or> inv_funded_amount ei + n = inv_total_amount ei
       \<and> check_release_gates e i s3 = (Inr (), s4) \<and> s' = snd (execute_release e i ei1 s4)"
  have "es_deposits s4 = es_deposits s3"
    using res gates_same_funds [of e i s3 _ s4 0] by (auto simp: same_funds_def)
  moreover have "es_deposits s' = es_deposits s4"
    using res execute_release_fields(3) [of e i ei1 s4 _ s'] by (auto simp: save_invoice_def prod_eq_iff)
  ultimately show ?thesis using assms(2) by (simp add: s3 after_deposit_fields)
qed

lemma release_deposits: "release e i s = Inr s' \<Longrightarrow> es_deposits s' = es_deposits s"
  by (erule release_invoices)
    (metis do_effect_fields(6) execute_release_fields(3) gates_same_funds same_funds_def)

lemma refund_deposits:
  assumes "escrow_ok (self_addr e) s" and "refund e i ps r s = Inr s'" and "j \<noteq> i"
  shows "es_deposits s' j = es_deposits s j"
  using assms(2)
proof (rule refund_cases)
  fix ei
  assume inv: "es_invoices s i = Some ei"
    and s': "s' = save_invoice i (ei\<lparr>inv_status := Refunded, inv_refund_reason := Some r\<rparr>)
      (fold (refund_payer e i (inv_token ei) r) ps s)"
  have "deposits_ok (self_addr e) (es_deposits s i)"
    using escrow_ok_invoice [OF assms(1) inv] by (simp add: invoice_ok_def)
  from refund_fold [OF this, of "inv_token ei" r ps] assms(3) show ?thesis
    by (simp add: s' save_invoice_def)
qed

lemma cancel_create_deposits:
  "cancel_invoice e i s = Inr s' \<Longrightarrow> es_deposits s' = es_deposits s"
  "create_invoice e cr t n d s = Inr (j, s') \<Longrightarrow> es_deposits s' = es_deposits s"
  "initialize e x s = Inr s' \<Longrightarrow> es_deposits s' = es_deposits s"
  by (auto simp: escrow_ops escrow_emit result_simps Let_def split: if_splits)


lemma exec_locked:
  assumes env: "escrow_env_ok a e" and ok: "escrow_ok a s" and ex: "exec e c s = Inr s'"
  shows "locked s s'"
proof -
  have ok': "escrow_ok (self_addr e) s" using env ok by (simp add: escrow_env_ok_def)
  have "es_deposits s' j = es_deposits s j" if j: "es_invoices s j = Some fi" "closed fi" for j fi
  proof (cases "moves_funds c")
    case False
    then show ?thesis using exec_same_funds [OF ex, of 0] by (simp add: same_funds_def)
  next
    case True
    have dep: ?thesis if d: "deposit e p i n s = Inr s'" for p i n
    proof -
      have "j \<noteq> i" using d by (rule deposit_invoices) (use j in \<open>auto simp: closed_iff\<close>)
      then show ?thesis by (rule deposit_deposits [OF d])
    qed
    have ref: ?thesis if r: "refund e i ps r s = Inr s'" for i ps r
    proof -
      have "j \<noteq> i" using r by (rule refund_invoices) (use j in \<open>auto simp: closed_iff\<close>)
      then show ?thesis by (rule refund_deposits [OF ok' r])
    qed
    show ?thesis using True ex dep ref
      by (cases c) (auto simp: drop_value_eq_Inr pay_invoice_def release_deposits cancel_create_deposits)
  qed
  then show ?thesis using exec_evol [OF ok ex] unfolding locked_def escrow_evol_def invoice_evol_def by metis
qed

interpretation escrow_lock: evolving_machine exec empty_escrow "escrow_env_ok a" "escrow_ok a" locked
  for a
  by unfold_locales (blast intro: locked_refl locked_trans exec_locked)+

text \<open>
  C18: What a closed invoice still holds is locked. Whatever calls follow, a cancelled or refunded
  invoice keeps the deposits it has, so a payer left out of the list of a refund (which anybody may
  call once the grace period is over) or one of a cancelled invoice is never paid back: the admin's
  cancellation, which its documentation says is followed by a refund, makes refunds fail.
\<close>

theorem closed_invoice_locks_deposits:
  assumes "list_all (\<lambda>(e, c). escrow_env_ok a e) (xs @ ys)"
    and "es_invoices (run exec xs empty_escrow) i = Some ei" and "closed ei"
    and "es_deposits (run exec xs empty_escrow) i p = Some v"
  shows "es_deposits (run exec (xs @ ys) empty_escrow) i p = Some v
    \<and> (\<forall>e ps r. refund e i ps r (run exec (xs @ ys) empty_escrow) = Inl (Err InvalidStatus))"
proof -
  have "locked (run exec xs empty_escrow) (run exec (xs @ ys) empty_escrow)"
    by (rule escrow_lock.evol_run [OF assms(1)])
  then have "es_invoices (run exec (xs @ ys) empty_escrow) i = Some ei"
    and "es_deposits (run exec (xs @ ys) empty_escrow) i = es_deposits (run exec xs empty_escrow) i"
    using assms(2,3) by (auto simp: locked_def)
  then show ?thesis using assms(3,4) by (simp add: refund_def get_invoice_def)
qed

theorem closed_invoice_locks_deposits_witness:
  "\<forall>c. es_deposits (run exec ((demo_run @ demo_refund) @ [(demo_env 70 9 3, c)]) empty_escrow) 0 3 = Some 40"
proof
  fix c
  let ?xs = "demo_run @ demo_refund"
  have env: "list_all (\<lambda>(e, c). escrow_env_ok 99 e) (?xs @ [(demo_env 70 9 3, c)])"
    by (simp add: demo_run_def demo_refund_def)
  have inv: "es_invoices (run exec ?xs empty_escrow) 0 = Some \<lparr>inv_creator = 2, inv_token = 7,
      inv_total_amount = 100, inv_funded_amount = 65, inv_deadline = 50, inv_status = Refunded,
      inv_refund_reason = Some Escrow_Model.DeadlineExpired\<rparr>"
    and d: "es_deposits (run exec ?xs empty_escrow) 0 3 = Some 40"
    by (simp_all add: demo_run_def demo_refund_def escrow_eval refund_def closed_def refund_opens_at_def
        refund_payer_def)
  show "es_deposits (run exec (?xs @ [(demo_env 70 9 3, c)]) empty_escrow) 0 3 = Some 40"
    using closed_invoice_locks_deposits [OF env inv _ d] by (simp add: closed_def)
qed

text \<open>
  C19: The balance query of a released invoice still reports the amount that was paid out, although
  its documentation says that it returns zero once the invoice has been released or refunded.
\<close>

theorem balance_after_release:
  assumes "list_all (\<lambda>(e, c). escrow_env_ok a e) xs"
    and "es_invoices (run exec xs empty_escrow) i = Some ei" and "inv_status ei = Released"
  shows "get_escrow_balance (run exec xs empty_escrow) i = inv_total_amount ei
    \<and> 0 < get_escrow_balance (run exec xs empty_escrow) i
    \<and> holding (inv_token ei) (Some ei) (es_deposits (run exec xs empty_escrow) i) = 0"
  using escrow_ok_invoice [OF escrow.invar_run [OF assms(1)] assms(2)] assms(2,3)
  by (simp add: get_escrow_balance_def invoice_ok_def)

theorem balance_after_release_witness:
  "get_escrow_balance (run exec (demo_run @ [(demo_env 13 5 3, CDeposit 3 0 35)]) empty_escrow) 0 = 100"
proof -
  let ?xs = "demo_run @ [(demo_env 13 5 3, CDeposit 3 0 35)]"
  have env: "list_all (\<lambda>(e, c). escrow_env_ok 99 e) ?xs" by (simp add: demo_run_def)
  have inv: "es_invoices (run exec ?xs empty_escrow) 0 = Some \<lparr>inv_creator = 2, inv_token = 7,
      inv_total_amount = 100, inv_funded_amount = 100, inv_deadline = 50, inv_status = Released,
      inv_refund_reason = None\<rparr>"
    by (simp add: demo_run_def escrow_eval check_release_gates_def schedule_gate_def approval_gate_def
        execute_release_def)
  from balance_after_release [OF env inv] show ?thesis by simp
qed


section \<open>Admin handover and blacklist\<close>

text \<open>
  C16: The admin of the escrow changes only by the two-step handover: a call changes the stored
  admin only if it is the first initialisation or \<open>accept_admin\<close> authorised by the pending admin,
  and a pending admin is stored only by the current admin's own call.
\<close>

theorem admin_handover:
  assumes "exec e c s = Inr s'"
  shows "(es_admin s' \<noteq> es_admin s \<longrightarrow>
      (\<exists>x. es_admin s' = Some x \<and> auth e x
        \<and> (es_admin s = None \<and> c = CInitialize x \<or> c = CAcceptAdmin \<and> es_pending_admin s = Some x)))
    \<and> (es_pending_admin s' \<noteq> es_pending_admin s \<longrightarrow>
      es_pending_admin s' = None
        \<and> (c = CAcceptAdmin \<or> c = CCancelTransfer \<and> (\<exists>x. es_admin s = Some x \<and> auth e x))
      \<or> (\<exists>x y. c = CTransferAdmin y \<and> es_pending_admin s' = Some y \<and> es_admin s = Some x \<and> auth e x))"
proof (cases "touches c = Admins")
  case False
  then show ?thesis using exec_config [OF assms] by (cases "touches c") (auto simp: same_config_def)
next
  case True
  then show ?thesis using assms
    by (cases c) (auto simp: escrow_ops escrow_emit result_simps split: if_splits)
qed

theorem admin_handover_witness:
  "\<exists>s'. exec (demo_env 20 6 8) CAcceptAdmin
      (run exec [(demo_env 10 1 1, CInitialize 1), (demo_env 10 1 1, CTransferAdmin 8)] empty_escrow)
      = Inr s' \<and> es_admin s' = Some 8"
proof -
  let ?s = "run exec [(demo_env 10 1 1, CInitialize 1), (demo_env 10 1 1, CTransferAdmin 8)] empty_escrow"
  obtain s' where ex: "exec (demo_env 20 6 8) CAcceptAdmin ?s = Inr s'"
    and adm: "es_admin ?s = Some 1" "es_admin s' \<noteq> Some 1" and p: "es_pending_admin ?s = Some 8"
    by (simp add: escrow_eval)
  from admin_handover [OF ex] adm p show ?thesis using ex by auto
qed

text \<open>
  C17: A payer whose ban was finally upheld cannot deposit, by either entry point, and the ban
  lasts until a new ban for the same payer is entered, in a call that names the stored admin and
  that the stored admin authorised: it survives every other call.
\<close>

theorem blacklist_enforced:
  assumes "blacklist_blocks s p"
  shows "(0 < n \<and> auth e p \<longrightarrow> deposit e p i n s = Inl (Err PayerBlacklisted)
      \<and> pay_invoice e p i n s = Inl (Err PayerBlacklisted))
    \<and> (exec e c s = Inr s' \<and> \<not> blacklist_blocks s' p
        \<longrightarrow> (\<exists>x h. c = CBlacklistPayer x p h \<and> es_admin s = Some x \<and> auth e x))"
proof -
  have "0 < n \<and> auth e p \<longrightarrow> deposit e p i n s = Inl (Err PayerBlacklisted)
      \<and> pay_invoice e p i n s = Inl (Err PayerBlacklisted)"
    using assms by (simp add: pay_invoice_def deposit_def)
  moreover have "\<exists>x h. c = CBlacklistPayer x p h \<and> es_admin s = Some x \<and> auth e x"
    if ex: "exec e c s = Inr s'" and nb: "\<not> blacklist_blocks s' p"
  proof (cases "touches c = Blacklists")
    case False
    then show ?thesis using exec_config [OF ex] assms nb
      by (cases "touches c") (auto simp: same_config_def blacklist_blocks_def)
  next
    case True
    then show ?thesis using ex assms nb
      by (cases c) (auto simp: escrow_ops escrow_emit result_simps blacklist_blocks_def
        split: if_splits option.splits)
  qed
  ultimately show ?thesis by blast
qed

theorem blacklist_enforced_witness:
  "deposit (demo_env 12 3 3) 3 0 10 (run exec [(demo_env 10 1 1, CInitialize 1),
      (demo_env 10 1 1, CBlacklistPayer 1 3 77), (demo_env 11 1 1, CFinaliseBlacklist 1 3 True)]
      empty_escrow) = Inl (Err PayerBlacklisted)"
proof -
  let ?s = "run exec [(demo_env 10 1 1, CInitialize 1), (demo_env 10 1 1, CBlacklistPayer 1 3 77),
    (demo_env 11 1 1, CFinaliseBlacklist 1 3 True)] empty_escrow"
  have "blacklist_blocks ?s 3" by (simp add: escrow_eval)
  from blacklist_enforced [OF this, of 10 "demo_env 12 3 3" 0] show ?thesis by (simp add: demo_env_def)
qed


section \<open>Error codes\<close>

text \<open>
  C20: The error codes of the escrow round-trip: \<open>error_from_code\<close> recovers every error from its
  discriminant, and every code it accepts is the discriminant of the error it returns.
\<close>

theorem error_code_roundtrip:
  "error_from_code (escrow_error_code err) = Some err
    \<and> (error_from_code n = Some err' \<longleftrightarrow> escrow_error_code err' = n)"
proof -
  have r: "error_from_code (escrow_error_code x) = Some x" for x
    by (cases x) (simp_all add: error_from_code_def)
  have "escrow_error_code err' = n" if "error_from_code n = Some err'"
    using that by (auto simp: error_from_code_def split: if_splits)
  then show ?thesis using r by auto
qed

end
