(* ===== verification/Split_Rules.thy ===== *)
theory Split_Rules
  imports Split_Error Soroban_Base
begin

text \<open>
  Model of the split rules engine (\<open>contracts/split/src/split_rules.rs\<close>): validation of a rule set,
  selection of the winning rule of a recipient and evaluation of a rule set against the state of an
  invoice, as used by \<open>preview_split_rules\<close>. A failed \<open>assert!\<close> or \<open>expect\<close> is a trap.
\<close>

section \<open>Definitions\<close>

definition MAX_RULES :: nat where "MAX_RULES = 50"

datatype rule_criteria =
    Always
  | FundedAtLeast int
  | FundedBelow int
  | PayerCountAtLeast nat
  | AfterTimestamp nat
  | BeforeTimestamp nat

datatype rule_amount = Fixed int | Percentage nat | Remainder

record split_rule_def =
  rd_recipient_index :: nat
  rd_priority :: nat
  rd_criteria :: rule_criteria
  rd_amount :: rule_amount

record rule_context =
  rc_funded :: int
  rc_payer_count :: nat
  rc_timestamp :: nat

definition threshold_ok :: "rule_criteria \<Rightarrow> bool" where
  "threshold_ok c = (case c of FundedAtLeast v \<Rightarrow> 0 \<le> v | FundedBelow v \<Rightarrow> 0 \<le> v | _ \<Rightarrow> True)"

fun validate_loop ::
  "nat \<Rightarrow> split_rule_def list \<Rightarrow> nat option \<Rightarrow> nat \<Rightarrow> nat split_result" where
  "validate_loop recipient_count [] remainder_recipient always_bps = Inr always_bps"
| "validate_loop recipient_count (rule # rules) remainder_recipient always_bps =
    bindr (ensure (rd_recipient_index rule < recipient_count)
      (Trap ''rule recipient index out of range'')) (\<lambda>_.
    bindr (ensure (list_all (\<lambda>oth. \<not> (rd_recipient_index oth = rd_recipient_index rule
        \<and> rd_priority oth = rd_priority rule)) rules)
      (Trap ''duplicate rule priority for recipient'')) (\<lambda>_.
    bindr (ensure (threshold_ok (rd_criteria rule)) (Trap ''rule threshold must be non-negative'')) (\<lambda>_.
    case rd_amount rule of
      Fixed amt \<Rightarrow>
        bindr (ensure (0 < amt) (Trap ''fixed rule amount must be positive'')) (\<lambda>_.
        validate_loop recipient_count rules remainder_recipient always_bps)
    | Percentage bps \<Rightarrow>
        bindr (ensure (1 \<le> bps \<and> bps \<le> 10000) (Trap ''rule percentage must be 1..=10000 bps'')) (\<lambda>_.
        validate_loop recipient_count rules remainder_recipient
          (if rd_criteria rule = Always then sat_add u32_max always_bps bps else always_bps))
    | Remainder \<Rightarrow>
        (case remainder_recipient of
           Some r \<Rightarrow>
             bindr (ensure (r = rd_recipient_index rule)
               (Trap ''only one recipient may take the remainder'')) (\<lambda>_.
             validate_loop recipient_count rules remainder_recipient always_bps)
         | None \<Rightarrow>
             validate_loop recipient_count rules (Some (rd_recipient_index rule)) always_bps))))"

definition validate_rules :: "split_rule_def list \<Rightarrow> nat \<Rightarrow> unit split_result" where
  "validate_rules rules recipient_count =
    bindr (ensure (rules \<noteq> []) (Trap ''split rules must not be empty'')) (\<lambda>_.
    bindr (ensure (length rules \<le> MAX_RULES) (Trap ''too many split rules'')) (\<lambda>_.
    bindr (validate_loop recipient_count rules None 0) (\<lambda>always_bps.
    ensure (always_bps \<le> 10000) (Trap ''unconditional percentages exceed 100%''))))"

fun criteria_matches :: "rule_criteria \<Rightarrow> rule_context \<Rightarrow> bool" where
  "criteria_matches Always ctx = True"
| "criteria_matches (FundedAtLeast v) ctx = (v \<le> rc_funded ctx)"
| "criteria_matches (FundedBelow v) ctx = (rc_funded ctx < v)"
| "criteria_matches (PayerCountAtLeast v) ctx = (v \<le> rc_payer_count ctx)"
| "criteria_matches (AfterTimestamp v) ctx = (v \<le> rc_timestamp ctx)"
| "criteria_matches (BeforeTimestamp v) ctx = (rc_timestamp ctx < v)"

fun select_loop ::
  "split_rule_def list \<Rightarrow> nat \<Rightarrow> rule_context \<Rightarrow> split_rule_def option \<Rightarrow> split_rule_def option" where
  "select_loop [] recipient_index ctx best = best"
| "select_loop (rule # rules) recipient_index ctx best =
    (if rd_recipient_index rule \<noteq> recipient_index \<or> \<not> criteria_matches (rd_criteria rule) ctx
     then select_loop rules recipient_index ctx best
     else if (case best of Some b \<Rightarrow> rd_priority rule < rd_priority b | None \<Rightarrow> True)
       then select_loop rules recipient_index ctx (Some rule)
     else select_loop rules recipient_index ctx best)"

definition select_rule :: "split_rule_def list \<Rightarrow> nat \<Rightarrow> rule_context \<Rightarrow> split_rule_def option" where
  "select_rule rules recipient_index ctx = select_loop rules recipient_index ctx None"

text \<open>The amount of one recipient, and whether the recipient takes the remainder.\<close>

definition rule_share :: "split_rule_def list \<Rightarrow> rule_context \<Rightarrow> int \<Rightarrow> nat \<Rightarrow> (int \<times> bool) split_result" where
  "rule_share rules ctx funded i =
    (case select_rule rules i ctx of
       None \<Rightarrow> Inr (0, False)
     | Some rule \<Rightarrow>
         (case rd_amount rule of
            Fixed amt \<Rightarrow> Inr (amt, False)
          | Percentage bps \<Rightarrow>
              bindr (ok_or (checked_i128 (funded * int bps)) (Trap ''ArithmeticOverflow'')) (\<lambda>p.
              Inr (p sdiv 10000, False))
          | Remainder \<Rightarrow> Inr (0, True)))"

fun evaluate_loop ::
  "split_rule_def list \<Rightarrow> rule_context \<Rightarrow> int \<Rightarrow> nat list \<Rightarrow> int list \<Rightarrow> nat option \<Rightarrow> int
    \<Rightarrow> (int list \<times> nat option \<times> int) split_result" where
  "evaluate_loop rules ctx funded [] amounts remainder_idx allocated =
    Inr (amounts, remainder_idx, allocated)"
| "evaluate_loop rules ctx funded (i # is) amounts remainder_idx allocated =
    bindr (rule_share rules ctx funded i) (\<lambda>(amount, rem).
    bindr (ok_or (checked_i128 (allocated + amount)) (Trap ''ArithmeticOverflow'')) (\<lambda>allocated'.
    evaluate_loop rules ctx funded is (amounts @ [amount])
      (if rem then Some i else remainder_idx) allocated'))"

definition evaluate :: "split_rule_def list \<Rightarrow> nat \<Rightarrow> rule_context \<Rightarrow> int list split_result" where
  "evaluate rules recipient_count ctx =
    (let funded = (if 0 < rc_funded ctx then rc_funded ctx else 0) in
     bindr (evaluate_loop rules ctx funded [0..<recipient_count] [] None 0)
       (\<lambda>(amounts, remainder_idx, allocated).
     bindr (ensure (allocated \<le> funded) (Trap ''split rules exceed funded amount'')) (\<lambda>_.
     case remainder_idx of
       None \<Rightarrow> Inr amounts
     | Some idx \<Rightarrow> bindr (arith (funded - allocated)) (\<lambda>v. Inr (amounts[idx := v])))))"

definition preview_split_rules :: "split_rule_def list \<Rightarrow> nat \<Rightarrow> rule_context \<Rightarrow> int list split_result" where
  "preview_split_rules rules recipient_count ctx =
    bindr (validate_rules rules recipient_count) (\<lambda>_. evaluate rules recipient_count ctx)"


section \<open>Selection\<close>

lemma select_loop_spec:
  assumes "select_loop rules i ctx best = res"
    and "\<And>b. best = Some b \<Longrightarrow> rd_recipient_index b = i \<and> criteria_matches (rd_criteria b) ctx"
  shows "case res of
      None \<Rightarrow> best = None \<and> (\<forall>r\<in>set rules. \<not> (rd_recipient_index r = i \<and> criteria_matches (rd_criteria r) ctx))
    | Some w \<Rightarrow> (w \<in> set rules \<or> best = Some w) \<and> rd_recipient_index w = i
        \<and> criteria_matches (rd_criteria w) ctx
        \<and> (\<forall>r. r \<in> set rules \<or> best = Some r \<longrightarrow> rd_recipient_index r = i
            \<and> criteria_matches (rd_criteria r) ctx \<longrightarrow> rd_priority w \<le> rd_priority r)"
  using assms
proof (induction rules arbitrary: best)
  case Nil
  then show ?case by (cases best) auto
next
  case (Cons rule rules)
  show ?case
  proof (cases "rd_recipient_index rule = i \<and> criteria_matches (rd_criteria rule) ctx
      \<and> (case best of Some b \<Rightarrow> rd_priority rule < rd_priority b | None \<Rightarrow> True)")
    case True
    then have step: "select_loop rules i ctx (Some rule) = res" using Cons.prems(1) by simp
    have "case res of None \<Rightarrow> False
      | Some w \<Rightarrow> (w \<in> set rules \<or> rule = w) \<and> rd_recipient_index w = i
        \<and> criteria_matches (rd_criteria w) ctx
        \<and> (\<forall>r. r \<in> set rules \<or> rule = r \<longrightarrow> rd_recipient_index r = i
            \<and> criteria_matches (rd_criteria r) ctx \<longrightarrow> rd_priority w \<le> rd_priority r)"
      using Cons.IH [OF step] True by (auto split: option.splits)
    then show ?thesis using True by (auto split: option.splits)
  next
    case False
    then have step: "select_loop rules i ctx best = res" using Cons.prems(1) by (auto split: if_splits)
    have bound: "rd_priority w \<le> rd_priority rule"
      if "best = Some b" "\<not> rd_priority rule < rd_priority b" "rd_priority w \<le> rd_priority b" for w b
      using that by simp
    show ?thesis
      using Cons.IH [OF step Cons.prems(2)] False Cons.prems(2) bound
      by (auto split: option.splits)
  qed
qed

lemma select_rule_Some:
  assumes "select_rule rules i ctx = Some w"
  shows "w \<in> set rules" "rd_recipient_index w = i" "criteria_matches (rd_criteria w) ctx"
  using select_loop_spec [OF assms [unfolded select_rule_def]] by auto

text \<open>
  C12: The winning rule of a recipient is one of its own rules whose criterion holds, of lowest
  priority value among them; there is none exactly when no rule of the recipient matches.
\<close>

theorem select_rule_correct:
  "(case select_rule rules i ctx of
      None \<Rightarrow> (\<forall>r\<in>set rules. \<not> (rd_recipient_index r = i \<and> criteria_matches (rd_criteria r) ctx))
    | Some w \<Rightarrow> w \<in> set rules \<and> rd_recipient_index w = i \<and> criteria_matches (rd_criteria w) ctx
        \<and> (\<forall>r\<in>set rules. rd_recipient_index r = i \<and> criteria_matches (rd_criteria r) ctx
            \<longrightarrow> rd_priority w \<le> rd_priority r))"
  using select_loop_spec [OF refl, where best = None and rules = rules and i = i and ctx = ctx]
  by (auto simp: select_rule_def split: option.splits)

theorem select_rule_correct_witness:
  "\<exists>w. select_rule [\<lparr>rd_recipient_index = 0, rd_priority = 2, rd_criteria = Always, rd_amount = Fixed 5\<rparr>,
      \<lparr>rd_recipient_index = 0, rd_priority = 1, rd_criteria = FundedAtLeast 10, rd_amount = Percentage 100\<rparr>]
      0 \<lparr>rc_funded = 10, rc_payer_count = 0, rc_timestamp = 0\<rparr> = Some w \<and> rd_priority w \<le> 2"
  using select_rule_correct [of "[\<lparr>rd_recipient_index = 0, rd_priority = 2, rd_criteria = Always, rd_amount = Fixed 5\<rparr>,
      \<lparr>rd_recipient_index = 0, rd_priority = 1, rd_criteria = FundedAtLeast 10, rd_amount = Percentage 100\<rparr>]"
      0 "\<lparr>rc_funded = 10, rc_payer_count = 0, rc_timestamp = 0\<rparr>"]
  by (simp split: option.splits)



section \<open>Validation\<close>

definition rule_ok :: "nat \<Rightarrow> split_rule_def \<Rightarrow> bool" where
  "rule_ok n r \<longleftrightarrow> rd_recipient_index r < n
    \<and> (case rd_amount r of Fixed a \<Rightarrow> 0 < a | Percentage b \<Rightarrow> 1 \<le> b \<and> b \<le> 10000 | Remainder \<Rightarrow> True)"

definition always_bps_of :: "split_rule_def \<Rightarrow> nat" where
  "always_bps_of r = (case rd_amount r of Percentage b \<Rightarrow> if rd_criteria r = Always then b else 0 | _ \<Rightarrow> 0)"

lemma validate_loop_Inr:
  assumes "validate_loop n rules ro bps = Inr b" and "bps \<le> u32_max"
  shows "list_all (rule_ok n) rules \<and> b = min u32_max (bps + sum_list (map always_bps_of rules))"
  using assms
proof (induction rules arbitrary: ro bps)
  case Nil
  then show ?case by simp
next
  case (Cons rule rules)
  show ?case
  proof (cases "rd_amount rule")
    case (Fixed a)
    then have v: "validate_loop n rules ro bps = Inr b" and ok: "rule_ok n rule"
      using Cons.prems(1) by (simp_all add: result_simps rule_ok_def)
    from Cons.IH [OF v Cons.prems(2)] ok Fixed show ?thesis by (simp add: always_bps_of_def)
  next
    case (Percentage x)
    let ?bps = "if rd_criteria rule = Always then sat_add u32_max bps x else bps"
    have v: "validate_loop n rules ro ?bps = Inr b" and ok: "rule_ok n rule"
      using Cons.prems(1) Percentage by (simp_all add: result_simps rule_ok_def)
    have "?bps \<le> u32_max" using Cons.prems(2) by (simp add: sat_add_def)
    from Cons.IH [OF v this] show ?thesis
      using ok Percentage by (simp add: always_bps_of_def sat_add_def min_def)
  next
    case Remainder
    have ok: "rule_ok n rule" using Cons.prems(1) Remainder by (simp add: result_simps rule_ok_def)
    from Remainder have "\<exists>ro'. validate_loop n rules ro' bps = Inr b"
      using Cons.prems(1) by (cases ro) (auto simp: result_simps)
    then obtain ro' where "validate_loop n rules ro' bps = Inr b" ..
    from Cons.IH [OF this Cons.prems(2)] ok Remainder show ?thesis by (simp add: always_bps_of_def)
  qed
qed

lemma validate_rules_Inr:
  assumes "validate_rules rules n = Inr u"
  shows "list_all (rule_ok n) rules" "sum_list (map always_bps_of rules) \<le> 10000"
proof -
  from assms obtain b where v: "validate_loop n rules None 0 = Inr b" and b: "b \<le> 10000"
    by (auto simp: validate_rules_def result_simps)
  have "list_all (rule_ok n) rules \<and> b = min u32_max (sum_list (map always_bps_of rules))"
    using validate_loop_Inr [OF v] by simp
  with b show "list_all (rule_ok n) rules" "sum_list (map always_bps_of rules) \<le> 10000"
    by (simp_all add: u32_max_def min_def split: if_splits)
qed


section \<open>Evaluation\<close>

lemma evaluate_loop_Inr:
  assumes "evaluate_loop rules ctx f ks am ri al = Inr (am', ri', al')"
  shows "\<exists>xs. am' = am @ xs \<and> length xs = length ks \<and> al' = al + sum_list xs
    \<and> (\<forall>k<length ks. \<exists>rm. rule_share rules ctx f (ks ! k) = Inr (xs ! k, rm))
    \<and> (case ri' of
         None \<Rightarrow> ri = None \<and> (\<forall>k<length ks. \<forall>v. rule_share rules ctx f (ks ! k) \<noteq> Inr (v, True))
       | Some i \<Rightarrow> (\<exists>k<length ks. i = ks ! k \<and> rule_share rules ctx f i = Inr (xs ! k, True)) \<or> ri = Some i)"
  using assms
proof (induction ks arbitrary: am ri al)
  case Nil
  then show ?case by (cases ri') auto
next
  case (Cons i ks)
  from Cons.prems obtain v rm where sh: "rule_share rules ctx f i = Inr (v, rm)"
    and rest: "evaluate_loop rules ctx f ks (am @ [v]) (if rm then Some i else ri) (al + v) = Inr (am', ri', al')"
    by (auto simp: result_simps)
  from Cons.IH [OF rest] obtain xs where xs: "am' = (am @ [v]) @ xs" "length xs = length ks"
    "al' = al + v + sum_list xs"
    "\<forall>k<length ks. \<exists>rm. rule_share rules ctx f (ks ! k) = Inr (xs ! k, rm)"
    and ri: "case ri' of
         None \<Rightarrow> (if rm then Some i else ri) = None
           \<and> (\<forall>k<length ks. \<forall>v. rule_share rules ctx f (ks ! k) \<noteq> Inr (v, True))
       | Some j \<Rightarrow> (\<exists>k<length ks. j = ks ! k \<and> rule_share rules ctx f j = Inr (xs ! k, True))
           \<or> (if rm then Some i else ri) = Some j"
    by blast
  have shares: "\<forall>k<length (i # ks). \<exists>rm. rule_share rules ctx f ((i # ks) ! k) = Inr ((v # xs) ! k, rm)"
    using xs(4) sh by (auto simp: nth_Cons split: nat.splits)
  have "case ri' of
         None \<Rightarrow> ri = None \<and> (\<forall>k<length (i # ks). \<forall>v. rule_share rules ctx f ((i # ks) ! k) \<noteq> Inr (v, True))
       | Some j \<Rightarrow> (\<exists>k<length (i # ks). j = (i # ks) ! k \<and> rule_share rules ctx f j = Inr ((v # xs) ! k, True))
           \<or> ri = Some j"
  proof (cases ri')
    case None
    then show ?thesis using ri sh by (auto simp: nth_Cons split: nat.splits if_splits)
  next
    case (Some j)
    then consider (later) k where "k < length ks" "j = ks ! k" "rule_share rules ctx f j = Inr (xs ! k, True)"
      | (here) "rm" "j = i" | (before) "ri = Some j"
      using ri by (auto split: if_splits)
    then show ?thesis
    proof cases
      case later
      then show ?thesis using Some by (auto intro!: exI [of _ "Suc k"])
    next
      case here
      then show ?thesis using Some sh by auto
    next
      case before
      then show ?thesis using Some by simp
    qed
  qed
  with xs shares show ?case by (intro exI [of _ "v # xs"]) simp
qed

lemma rule_share_cases:
  assumes "rule_share rules ctx f i = Inr (v, rm)" and "list_all (rule_ok n) rules" and "0 \<le> f"
  shows "0 \<le> v \<and> (rm \<longrightarrow> v = 0)
    \<and> (rm \<longleftrightarrow> (\<exists>w. select_rule rules i ctx = Some w \<and> rd_amount w = Remainder))"
proof (cases "select_rule rules i ctx")
  case None
  then show ?thesis using assms(1) by (simp add: rule_share_def)
next
  case (Some w)
  then have "rule_ok n w" using assms(2) select_rule_Some(1) by (simp add: list_all_iff)
  then show ?thesis using assms(1,3) Some
    by (cases "rd_amount w") (auto simp: rule_share_def rule_ok_def result_simps
        intro: pos_imp_zdiv_nonneg_iff [THEN iffD2])
qed

text \<open>
  C7: A rule set that passes validation never distributes more than the funded amount: the preview
  returns one non-negative amount per recipient, together at most the funded amount, and exactly the
  funded amount when the winning rule of some recipient takes the remainder.
\<close>

theorem rules_conserve_funds:
  assumes "preview_split_rules rules n ctx = Inr amounts"
  shows "length amounts = n \<and> (\<forall>a\<in>set amounts. 0 \<le> a) \<and> sum_list amounts \<le> max 0 (rc_funded ctx)
    \<and> ((\<exists>i<n. \<exists>w. select_rule rules i ctx = Some w \<and> rd_amount w = Remainder)
        \<longrightarrow> sum_list amounts = max 0 (rc_funded ctx))"
proof -
  define f where "f = max 0 (rc_funded ctx)"
  have f0: "0 \<le> f" and ff: "(if 0 < rc_funded ctx then rc_funded ctx else 0) = f" by (auto simp: f_def)
  from assms obtain u where "validate_rules rules n = Inr u" and ev: "evaluate rules n ctx = Inr amounts"
    by (auto simp: preview_split_rules_def result_simps)
  note ok = validate_rules_Inr(1) [OF this(1)]
  from ev obtain am ri al where lp: "evaluate_loop rules ctx f [0..<n] [] None 0 = Inr (am, ri, al)"
    and le: "al \<le> f"
    and fin: "(case ri of None \<Rightarrow> Inr am | Some idx \<Rightarrow> bindr (arith (f - al)) (\<lambda>v. Inr (am[idx := v])))
      = (Inr amounts :: int list split_result)"
    unfolding evaluate_def Let_def ff bindr_eq_Inr ensure_eq_Inr by (elim exE conjE) (case_tac x, simp add: result_simps)
  from evaluate_loop_Inr [OF lp] have len: "length am = n" and al: "al = sum_list am"
    and sh: "\<forall>k<n. \<exists>rm. rule_share rules ctx f k = Inr (am ! k, rm)"
    and ri: "case ri of None \<Rightarrow> (\<forall>k<n. \<forall>v. rule_share rules ctx f k \<noteq> Inr (v, True))
       | Some i \<Rightarrow> (\<exists>k<n. i = k \<and> rule_share rules ctx f i = Inr (am ! k, True))"
    by (auto split: option.splits)
  have nn: "0 \<le> am ! k" if "k < n" for k using sh that rule_share_cases [OF _ ok f0] by blast
  show ?thesis
  proof (cases ri)
    case None
    then have "amounts = am" using fin by simp
    moreover have "\<not> (\<exists>i<n. \<exists>w. select_rule rules i ctx = Some w \<and> rd_amount w = Remainder)"
      using None ri sh rule_share_cases [OF _ ok f0] by fastforce
    ultimately show ?thesis using len nn al le by (auto simp: in_set_conv_nth f_def)
  next
    case (Some i)
    then have i: "i < n" "rule_share rules ctx f i = Inr (am ! i, True)" using ri by auto
    then have z: "am ! i = 0" using rule_share_cases [OF _ ok f0] by blast
    have am': "amounts = am[i := f - al]" using fin Some by (auto simp: result_simps)
    have "sum_list amounts = f"
      using sum_list_update [of i am "f - al"] i len z al by (simp add: am')
    moreover have "0 \<le> a" if "a \<in> set amounts" for a
    proof -
      have "a = f - al \<or> a \<in> set am" using that set_update_subset_insert by (fastforce simp: am')
      then show ?thesis using nn le len by (auto simp: in_set_conv_nth)
    qed
    ultimately show ?thesis using len by (simp add: am' f_def)
  qed
qed

definition demo_rules :: "split_rule_def list" where
  "demo_rules =
    [\<lparr>rd_recipient_index = 0, rd_priority = 0, rd_criteria = Always, rd_amount = Percentage 3000\<rparr>,
     \<lparr>rd_recipient_index = 1, rd_priority = 0, rd_criteria = FundedAtLeast 500, rd_amount = Fixed 100\<rparr>,
     \<lparr>rd_recipient_index = 2, rd_priority = 0, rd_criteria = Always, rd_amount = Remainder\<rparr>]"

theorem rules_conserve_funds_witness:
  "preview_split_rules demo_rules 3 \<lparr>rc_funded = 1001, rc_payer_count = 2, rc_timestamp = 9\<rparr>
      = Inr [300, 100, 601] \<and> sum_list [300, 100, 601] \<le> (1001 :: int)"
proof -
  have "preview_split_rules demo_rules 3 \<lparr>rc_funded = 1001, rc_payer_count = 2, rc_timestamp = 9\<rparr>
      = Inr [300, 100, 601]"
    by (simp add: preview_split_rules_def validate_rules_def demo_rules_def MAX_RULES_def threshold_ok_def
        evaluate_def rule_share_def select_rule_def numeral_3_eq_3 checked_i128_def rust_int arith_def
        sat_add_def)
  from rules_conserve_funds [OF this] this show ?thesis by simp
qed


text \<open>Unconditional percentage rules.\<close>

definition bps_share :: "split_rule_def list \<Rightarrow> rule_context \<Rightarrow> nat \<Rightarrow> nat" where
  "bps_share rules ctx i = (case select_rule rules i ctx of None \<Rightarrow> 0 | Some w \<Rightarrow> always_bps_of w)"

lemma sum_by_recipient:
  assumes "\<forall>r\<in>set rules. rd_recipient_index r < n"
  shows "(\<Sum>i<n. sum_list (map always_bps_of (filter (\<lambda>r. rd_recipient_index r = i) rules)))
    = sum_list (map always_bps_of rules)"
  using assms
proof (induction rules)
  case Nil
  then show ?case by simp
next
  case (Cons r rules)
  have "(\<Sum>i<n. sum_list (map always_bps_of (filter (\<lambda>q. rd_recipient_index q = i) (r # rules))))
      = (\<Sum>i<n. (if i = rd_recipient_index r then always_bps_of r else 0)
          + sum_list (map always_bps_of (filter (\<lambda>q. rd_recipient_index q = i) rules)))"
    by (rule sum.cong) auto
  also have "\<dots> = always_bps_of r + sum_list (map always_bps_of rules)"
    using Cons by (simp add: sum.distrib sum.delta)
  finally show ?case by simp
qed

lemma bps_share_bound:
  "bps_share rules ctx i \<le> sum_list (map always_bps_of (filter (\<lambda>r. rd_recipient_index r = i) rules))"
proof (cases "select_rule rules i ctx")
  case None
  then show ?thesis by (simp add: bps_share_def)
next
  case (Some w)
  then have "w \<in> set (filter (\<lambda>r. rd_recipient_index r = i) rules)" using select_rule_Some by simp
  then show ?thesis using Some by (simp add: bps_share_def member_le_sum_list)
qed

lemma sum_bps_shares:
  assumes "validate_rules rules n = Inr u"
  shows "(\<Sum>i<n. bps_share rules ctx i) \<le> 10000"
proof -
  have "(\<Sum>i<n. bps_share rules ctx i)
      \<le> (\<Sum>i<n. sum_list (map always_bps_of (filter (\<lambda>r. rd_recipient_index r = i) rules)))"
    by (rule sum_mono) (rule bps_share_bound)
  also have "\<dots> = sum_list (map always_bps_of rules)"
    using validate_rules_Inr(1) [OF assms] by (intro sum_by_recipient) (auto simp: list_all_iff rule_ok_def)
  finally show ?thesis using validate_rules_Inr(2) [OF assms] by simp
qed

definition unconditional :: "split_rule_def list \<Rightarrow> bool" where
  "unconditional rules = list_all (\<lambda>r. rd_criteria r = Always \<and> (case rd_amount r of Percentage _ \<Rightarrow> True | _ \<Rightarrow> False)) rules"

lemma unconditional_share:
  assumes "unconditional rules" and "list_all (rule_ok n) rules" and "0 \<le> f" and "f * 10000 \<le> i128_max"
  shows "rule_share rules ctx f i = Inr (f * int (bps_share rules ctx i) div 10000, False)"
proof (cases "select_rule rules i ctx")
  case None
  then show ?thesis by (simp add: rule_share_def bps_share_def)
next
  case (Some w)
  then have w: "w \<in> set rules" by (rule select_rule_Some)
  then obtain b where b: "rd_amount w = Percentage b" and aw: "rd_criteria w = Always"
    using assms(1) by (cases "rd_amount w") (auto simp: unconditional_def list_all_iff)
  have "b \<le> 10000" using assms(2) w b by (auto simp: list_all_iff rule_ok_def)
  then have "f * int b \<le> f * 10000" using assms(3) by (intro mult_left_mono) simp_all
  then have "fits_i128 (f * int b)" using assms(3,4) by (simp add: fits_i128_nonneg)
  then show ?thesis using Some b aw assms(3)
    by (simp add: rule_share_def bps_share_def always_bps_of_def checked_i128_def)
qed

lemma div_mult_le_int: "0 < d \<Longrightarrow> a div d * d \<le> (a::int)"
  using div_mult_mod_eq [of a d] pos_mod_sign [of d a] by linarith

lemma sum_floor_le:
  assumes "0 \<le> (f::int)" and "(\<Sum>i\<in>A. g i) \<le> (10000::nat)" and "finite A"
  shows "(\<Sum>i\<in>A. f * int (g i) div 10000) \<le> f"
proof -
  have "(\<Sum>i\<in>A. f * int (g i) div 10000) * 10000 \<le> (\<Sum>i\<in>A. f * int (g i))"
    unfolding sum_distrib_right by (rule sum_mono) (simp add: div_mult_le_int)
  also have "\<dots> = f * int (\<Sum>i\<in>A. g i)" by (simp add: sum_distrib_left)
  also have "\<dots> \<le> f * 10000" using assms(1,2) by (intro mult_left_mono) (simp_all only: of_nat_le_numeral_iff)
  finally show ?thesis by simp
qed


lemma evaluate_loop_ok:
  assumes "\<forall>i\<in>set ks. rule_share rules ctx f i = Inr (x i, False) \<and> 0 \<le> x i"
    and "0 \<le> al" and "al + sum_list (map x ks) \<le> i128_max"
  shows "evaluate_loop rules ctx f ks am ri al = Inr (am @ map x ks, ri, al + sum_list (map x ks))"
  using assms
proof (induction ks arbitrary: am al)
  case Nil
  then show ?case by simp
next
  case (Cons i ks)
  have nn: "0 \<le> x i" "0 \<le> sum_list (map x ks)"
    using Cons.prems(1) by (auto intro!: sum_list_nonneg)
  then have "fits_i128 (al + x i)" using Cons.prems(2,3) by (simp add: fits_i128_nonneg)
  then show ?case using Cons nn by (simp add: checked_i128_def add.assoc)
qed

text \<open>
  C11: A validated rule set of unconditional percentages always evaluates: as long as the funded
  amount is not negative and, times 10000, fits an i128, the preview returns, and each recipient gets the floor of its
  percentage of the funded amount.
\<close>

theorem unconditional_rules_total:
  assumes "unconditional rules" and "validate_rules rules n = Inr ()"
    and "0 \<le> rc_funded ctx" and "rc_funded ctx * 10000 \<le> i128_max"
  shows "preview_split_rules rules n ctx
    = Inr (map (\<lambda>i. rc_funded ctx * int (bps_share rules ctx i) div 10000) [0..<n])"
proof -
  let ?f = "rc_funded ctx"
  let ?x = "\<lambda>i. ?f * int (bps_share rules ctx i) div 10000"
  have ff: "(if 0 < ?f then ?f else 0) = ?f" using assms(3) by simp
  have sh: "rule_share rules ctx ?f i = Inr (?x i, False) \<and> 0 \<le> ?x i" for i
    using unconditional_share [OF assms(1) validate_rules_Inr(1) [OF assms(2)] assms(3,4)] assms(3)
    by (simp add: pos_imp_zdiv_nonneg_iff)
  have sum: "sum_list (map ?x [0..<n]) \<le> ?f"
    using sum_floor_le [OF assms(3) sum_bps_shares [OF assms(2), of ctx]]
    by (simp add: interv_sum_list_conv_sum_set_nat atLeast0LessThan)
  also have "?f \<le> i128_max" using assms(3,4) by simp
  finally have "evaluate_loop rules ctx ?f [0..<n] [] None 0
      = Inr ([] @ map ?x [0..<n], None, 0 + sum_list (map ?x [0..<n]))"
    using sh by (intro evaluate_loop_ok) simp_all
  then show ?thesis using sum assms(2) by (simp add: preview_split_rules_def evaluate_def ff)
qed

theorem unconditional_rules_total_witness:
  "preview_split_rules
     [\<lparr>rd_recipient_index = 0, rd_priority = 0, rd_criteria = Always, rd_amount = Percentage 3333\<rparr>,
      \<lparr>rd_recipient_index = 1, rd_priority = 0, rd_criteria = Always, rd_amount = Percentage 6667\<rparr>] 2
     \<lparr>rc_funded = 1000, rc_payer_count = 1, rc_timestamp = 5\<rparr> = Inr [333, 666]"
proof -
  let ?r = "[\<lparr>rd_recipient_index = 0, rd_priority = 0, rd_criteria = Always, rd_amount = Percentage 3333\<rparr>,
      \<lparr>rd_recipient_index = 1, rd_priority = 0, rd_criteria = Always, rd_amount = Percentage 6667\<rparr>]"
  let ?c = "\<lparr>rc_funded = 1000, rc_payer_count = 1, rc_timestamp = 5\<rparr>"
  have "unconditional ?r" by (simp add: unconditional_def)
  moreover have "validate_rules ?r 2 = Inr ()"
    by (simp add: validate_rules_def MAX_RULES_def threshold_ok_def sat_add_def u32_max_def)
  ultimately show ?thesis
    using unconditional_rules_total [of ?r 2 ?c]
    by (simp add: bps_share_def select_rule_def always_bps_of_def i128_max_def upt_rec numeral_2_eq_2)
qed

end
