(* ===== verification/Charity_Split.thy ===== *)
theory Charity_Split
  imports Token_Accounts "HOL-Library.Signed_Division"
begin

text \<open>
  Model of the charity-split contract (\<open>contracts/charity-split/src/lib.rs\<close>, \<open>types.rs\<close>,
  \<open>errors.rs\<close>): invoices that donate a share of every payout. The storage is one record with a map
  per key family; transfers and events are appended to the log \<open>cs_log\<close>. The token contracts are
  not part of the repository: whether a \<open>transfer\<close> goes through is the parameter \<open>transfer_ok\<close> of
  the environment, and a transfer that does not go through traps, which aborts the call. Afterwards:
  the split is exact, the contract stays solvent in every run, and contributions to a cancelled
  invoice can be reclaimed from a token that pays out what the contract holds.
\<close>

section \<open>Data\<close>

datatype charity_error =
    AlreadyInitialized | NotInitialized | NotAdmin | CharityAlreadyRegistered | CharityNotFound
  | CharityInactive | InvalidDonationBps | InvalidRecipients | InvalidAmount | TotalMismatch
  | InvoiceNotFound | InvoiceNotOpen | OverFunded | NotCreator | NotCancelled | NothingToRefund
  | CharityIsRecipient | Overflow

type_synonym 'a charity_result = "(charity_error, 'a) result"

record charity =
  chr_address :: addr
  chr_name :: nat
  chr_active :: bool
  chr_registered_at :: nat
  chr_donation_count :: nat

datatype charity_invoice_status = COpen | CReleased | CCancelled

record charity_invoice =
  ci_id :: nat
  ci_creator :: addr
  ci_token :: addr
  ci_total :: int
  ci_funded :: int
  ci_recipients :: "addr list"
  ci_amounts :: "int list"
  ci_charity :: addr
  ci_donation_bps :: nat
  ci_donated :: int
  ci_status :: charity_invoice_status
  ci_created_at :: nat

record donation_split =
  ds_payouts :: "int list"
  ds_donation :: int

datatype charity_event =
    CeRegistered addr nat
  | CeStatus addr bool
  | CeCreated nat addr int addr nat
  | CePaid nat addr int int
  | CeReleased nat int int
  | CeDonated nat addr addr int
  | CeCancelled nat int
  | CeRefunded nat addr int

record charity_state =
  cs_admin :: "addr option"
  cs_counter :: "nat option"
  cs_charities :: "addr \<rightharpoonup> charity"
  cs_invoices :: "nat \<rightharpoonup> charity_invoice"
  cs_contributions :: "nat \<Rightarrow> addr \<rightharpoonup> int"
  cs_charity_total :: "addr \<times> addr \<rightharpoonup> int"
  cs_donor_total :: "addr \<times> addr \<rightharpoonup> int"
  cs_log :: "charity_event action list"

definition empty_charity :: charity_state where
  "empty_charity = \<lparr>cs_admin = None, cs_counter = None, cs_charities = Map.empty,
    cs_invoices = Map.empty, cs_contributions = (\<lambda>_. Map.empty), cs_charity_total = Map.empty,
    cs_donor_total = Map.empty, cs_log = []\<rparr>"

definition MIN_DONATION_BPS :: nat where "MIN_DONATION_BPS = 1"

definition MAX_DONATION_BPS :: nat where "MAX_DONATION_BPS = 5000"

definition CHARITY_MAX_RECIPIENTS :: nat where "CHARITY_MAX_RECIPIENTS = 20"

definition CHARITY_BPS_DENOMINATOR :: int where "CHARITY_BPS_DENOMINATOR = 10000"


section \<open>Operations\<close>

text \<open>
  \<open>transfer_ok e k t src dst n\<close>: the token \<open>t\<close> accepts a transfer of \<open>n\<close> from \<open>src\<close> to \<open>dst\<close> in
  this invocation, when the log has \<open>k\<close> entries (the state of a token changes with every transfer,
  so its answer may differ at every point of the log).
\<close>

record charity_env = ledger_env +
  transfer_ok :: "nat \<Rightarrow> addr \<Rightarrow> addr \<Rightarrow> addr \<Rightarrow> int \<Rightarrow> bool"

definition clog :: "charity_event action \<Rightarrow> charity_state \<Rightarrow> charity_state" where
  "clog x s = s\<lparr>cs_log := cs_log s @ [x]\<rparr>"

definition charity_transfer ::
  "'x charity_env_scheme \<Rightarrow> addr \<Rightarrow> addr \<Rightarrow> addr \<Rightarrow> int \<Rightarrow> charity_state \<Rightarrow> charity_state charity_result" where
  "charity_transfer e tok src dst n s =
    (if transfer_ok e (length (cs_log s)) tok src dst n then Inr (clog (Sent tok src dst n) s)
     else Inl (Trap ''token transfer failed''))"

lemma charity_transfer_eq_Inr [result_simps]:
  "charity_transfer e tok src dst n s = Inr s' \<longleftrightarrow>
    transfer_ok e (length (cs_log s)) tok src dst n \<and> s' = clog (Sent tok src dst n) s"
  by (auto simp: charity_transfer_def)

definition charity_require_admin :: "'x ledger_env_scheme \<Rightarrow> addr \<Rightarrow> charity_state \<Rightarrow> unit charity_result" where
  "charity_require_admin e admin s =
    bindr (ok_or (cs_admin s) (Err NotInitialized)) (\<lambda>stored.
    if stored \<noteq> admin then Inl (Err NotAdmin) else require_auth e admin)"

definition load_charity :: "charity_state \<Rightarrow> addr \<Rightarrow> charity charity_result" where
  "load_charity s c = ok_or (cs_charities s c) (Err CharityNotFound)"

definition load_charity_invoice :: "charity_state \<Rightarrow> nat \<Rightarrow> charity_invoice charity_result" where
  "load_charity_invoice s i = ok_or (cs_invoices s i) (Err InvoiceNotFound)"

definition save_charity_invoice :: "charity_invoice \<Rightarrow> charity_state \<Rightarrow> charity_state" where
  "save_charity_invoice ci s = s\<lparr>cs_invoices := (cs_invoices s)(ci_id ci \<mapsto> ci)\<rparr>"

definition add_to_total :: "int option \<Rightarrow> int \<Rightarrow> int charity_result" where
  "add_to_total current amount =
    ok_or (checked_i128 ((case current of None \<Rightarrow> 0 | Some c \<Rightarrow> c) + amount)) (Err Overflow)"

fun split_loop :: "nat \<Rightarrow> int list \<Rightarrow> int \<Rightarrow> (int list \<times> int) charity_result" where
  "split_loop bps [] paid_out = Inr ([], paid_out)"
| "split_loop bps (amount # amounts) paid_out =
    bindr (ok_or (checked_i128 (amount * int bps)) (Err Overflow)) (\<lambda>p.
    bindr (arith (amount - p sdiv CHARITY_BPS_DENOMINATOR)) (\<lambda>net.
    bindr (ok_or (checked_i128 (paid_out + net)) (Err Overflow)) (\<lambda>paid_out'.
    bindr (split_loop bps amounts paid_out') (\<lambda>(payouts, r).
    Inr (net # payouts, r)))))"

definition compute_split :: "charity_invoice \<Rightarrow> donation_split charity_result" where
  "compute_split ci =
    bindr (split_loop (ci_donation_bps ci) (ci_amounts ci) 0) (\<lambda>(payouts, paid_out).
    bindr (arith (ci_total ci - paid_out)) (\<lambda>donation.
    Inr \<lparr>ds_payouts = payouts, ds_donation = donation\<rparr>))"

definition pay_recipient ::
  "'x charity_env_scheme \<Rightarrow> addr \<Rightarrow> addr \<times> int \<Rightarrow> charity_state \<Rightarrow> charity_state charity_result" where
  "pay_recipient e tok rp s =
    (if 0 < snd rp then charity_transfer e tok (self_addr e) (fst rp) (snd rp) s else Inr s)"

definition charity_release ::
  "'x charity_env_scheme \<Rightarrow> charity_invoice \<Rightarrow> charity_state \<Rightarrow> (charity_invoice \<times> charity_state) charity_result" where
  "charity_release e ci s =
    bindr (compute_split ci) (\<lambda>split.
    bindr (foldr_res (pay_recipient e (ci_token ci)) (zip (ci_recipients ci) (ds_payouts split)) s) (\<lambda>s1.
    bindr (if 0 < ds_donation split then
             bindr (charity_transfer e (ci_token ci) (self_addr e) (ci_charity ci) (ds_donation split) s1) (\<lambda>s2.
              bindr (add_to_total (cs_charity_total s2 (ci_charity ci, ci_token ci)) (ds_donation split)) (\<lambda>v.
              Inr (s2\<lparr>cs_charity_total := (cs_charity_total s2)((ci_charity ci, ci_token ci) \<mapsto> v)\<rparr>)))
           else Inr s1) (\<lambda>s3.
    bindr (load_charity s3 (ci_charity ci)) (\<lambda>ch.
    let ch1 = ch\<lparr>chr_donation_count := sat_add u32_max (chr_donation_count ch) 1\<rparr>;
        s4 = s3\<lparr>cs_charities := (cs_charities s3)(ci_charity ci \<mapsto> ch1)\<rparr>;
        ci1 = ci\<lparr>ci_donated := ds_donation split, ci_status := CReleased\<rparr>;
        s5 = clog (Event (CeReleased (ci_id ci) (ci_total ci) (ds_donation split))) s4;
        s6 = clog (Event (CeDonated (ci_id ci) (ci_charity ci) (ci_creator ci) (ds_donation split))) s5
    in Inr (ci1, s6)))))"

definition charity_initialize :: "addr \<Rightarrow> charity_state \<Rightarrow> charity_state charity_result" where
  "charity_initialize admin s =
    (if cs_admin s \<noteq> None then Inl (Err AlreadyInitialized)
     else Inr (s\<lparr>cs_admin := Some admin, cs_counter := Some 0\<rparr>))"

definition register_charity ::
  "'x ledger_env_scheme \<Rightarrow> addr \<Rightarrow> addr \<Rightarrow> nat \<Rightarrow> charity_state \<Rightarrow> charity_state charity_result" where
  "register_charity e admin c name s =
    bindr (charity_require_admin e admin s) (\<lambda>_.
    if cs_charities s c \<noteq> None then Inl (Err CharityAlreadyRegistered)
    else
      (let entry = \<lparr>chr_address = c, chr_name = name, chr_active = True,
            chr_registered_at = timestamp e, chr_donation_count = 0\<rparr>
       in Inr (clog (Event (CeRegistered c name)) (s\<lparr>cs_charities := (cs_charities s)(c \<mapsto> entry)\<rparr>))))"

definition set_charity_active ::
  "'x ledger_env_scheme \<Rightarrow> addr \<Rightarrow> addr \<Rightarrow> bool \<Rightarrow> charity_state \<Rightarrow> charity_state charity_result" where
  "set_charity_active e admin c active s =
    bindr (charity_require_admin e admin s) (\<lambda>_.
    bindr (load_charity s c) (\<lambda>entry.
    Inr (clog (Event (CeStatus c active))
      (s\<lparr>cs_charities := (cs_charities s)(c \<mapsto> entry\<lparr>chr_active := active\<rparr>)\<rparr>))))"

fun charity_total_loop :: "int list \<Rightarrow> int \<Rightarrow> int charity_result" where
  "charity_total_loop [] tot = Inr tot"
| "charity_total_loop (amount # amounts) tot =
    (if amount \<le> 0 then Inl (Err InvalidAmount)
     else bindr (ok_or (checked_i128 (tot + amount)) (Err Overflow)) (charity_total_loop amounts))"

definition create_charity_invoice ::
  "'x ledger_env_scheme \<Rightarrow> addr \<Rightarrow> addr \<Rightarrow> addr list \<Rightarrow> int list \<Rightarrow> addr \<Rightarrow> nat \<Rightarrow> charity_state
    \<Rightarrow> (nat \<times> charity_state) charity_result" where
  "create_charity_invoice e creator tok recipients amounts c donation_bps s =
    bindr (require_auth e creator) (\<lambda>_.
    if \<not> (MIN_DONATION_BPS \<le> donation_bps \<and> donation_bps \<le> MAX_DONATION_BPS)
      then Inl (Err InvalidDonationBps)
    else if recipients = [] \<or> length recipients \<noteq> length amounts
        \<or> CHARITY_MAX_RECIPIENTS < length recipients
      then Inl (Err InvalidRecipients)
    else if c \<in> set recipients then Inl (Err CharityIsRecipient)
    else
      bindr (load_charity s c) (\<lambda>entry.
      if \<not> chr_active entry then Inl (Err CharityInactive)
      else
        bindr (charity_total_loop amounts 0) (\<lambda>tot.
        bindr (ok_or (cs_counter s) (Err NotInitialized)) (\<lambda>i.
        bindr (ok_or (checked_nat u64_max (i + 1)) (Err Overflow)) (\<lambda>nxt.
        let s1 = s\<lparr>cs_counter := Some nxt\<rparr>;
            ci = \<lparr>ci_id = i, ci_creator = creator, ci_token = tok, ci_total = tot, ci_funded = 0,
              ci_recipients = recipients, ci_amounts = amounts, ci_charity = c,
              ci_donation_bps = donation_bps, ci_donated = 0, ci_status = COpen,
              ci_created_at = timestamp e\<rparr>
        in Inr (i, clog (Event (CeCreated i creator tot c donation_bps)) (save_charity_invoice ci s1)))))))"

definition charity_pay ::
  "'x charity_env_scheme \<Rightarrow> addr \<Rightarrow> nat \<Rightarrow> int \<Rightarrow> charity_state \<Rightarrow> (int \<times> charity_state) charity_result" where
  "charity_pay e payer i amount s =
    bindr (require_auth e payer) (\<lambda>_.
    if amount \<le> 0 then Inl (Err InvalidAmount)
    else
      bindr (load_charity_invoice s i) (\<lambda>ci.
      if ci_status ci \<noteq> COpen then Inl (Err InvoiceNotOpen)
      else
        bindr (ok_or (checked_i128 (ci_funded ci + amount)) (Err Overflow)) (\<lambda>funded.
        if ci_total ci < funded then Inl (Err OverFunded)
        else
          bindr (charity_transfer e (ci_token ci) payer (self_addr e) amount s) (\<lambda>s1.
           bindr (add_to_total (cs_contributions s1 i payer) amount) (\<lambda>v.
           let s2 = s1\<lparr>cs_contributions := (cs_contributions s1)(i := (cs_contributions s1 i)(payer \<mapsto> v))\<rparr>;
               ci1 = ci\<lparr>ci_funded := funded\<rparr>;
               s3 = clog (Event (CePaid i payer amount funded)) s2
           in bindr (if ci_funded ci1 = ci_total ci1 then charity_release e ci1 s3 else Inr (ci1, s3))
                (\<lambda>(ci2, s4). Inr (funded, save_charity_invoice ci2 s4)))))))"

definition donate_extra ::
  "'x charity_env_scheme \<Rightarrow> addr \<Rightarrow> nat \<Rightarrow> int \<Rightarrow> charity_state \<Rightarrow> charity_state charity_result" where
  "donate_extra e donor i amount s =
    bindr (require_auth e donor) (\<lambda>_.
    if amount \<le> 0 then Inl (Err InvalidAmount)
    else
      bindr (load_charity_invoice s i) (\<lambda>ci.
      if ci_status ci = CCancelled then Inl (Err InvoiceNotOpen)
      else
        bindr (charity_transfer e (ci_token ci) donor (ci_charity ci) amount s) (\<lambda>s1.
         bindr (add_to_total (cs_charity_total s1 (ci_charity ci, ci_token ci)) amount) (\<lambda>v.
         let s2 = s1\<lparr>cs_charity_total := (cs_charity_total s1)((ci_charity ci, ci_token ci) \<mapsto> v)\<rparr> in
         bindr (add_to_total (cs_donor_total s2 (donor, ci_token ci)) amount) (\<lambda>w.
         Inr (clog (Event (CeDonated i (ci_charity ci) donor amount))
           (s2\<lparr>cs_donor_total := (cs_donor_total s2)((donor, ci_token ci) \<mapsto> w)\<rparr>)))))))"

definition cancel_charity_invoice ::
  "'x ledger_env_scheme \<Rightarrow> addr \<Rightarrow> nat \<Rightarrow> charity_state \<Rightarrow> charity_state charity_result" where
  "cancel_charity_invoice e creator i s =
    bindr (require_auth e creator) (\<lambda>_.
    bindr (load_charity_invoice s i) (\<lambda>ci.
    if ci_creator ci \<noteq> creator then Inl (Err NotCreator)
    else if ci_status ci \<noteq> COpen then Inl (Err InvoiceNotOpen)
    else Inr (clog (Event (CeCancelled i (ci_funded ci)))
      (save_charity_invoice (ci\<lparr>ci_status := CCancelled\<rparr>) s))))"

definition claim_refund ::
  "'x charity_env_scheme \<Rightarrow> addr \<Rightarrow> nat \<Rightarrow> charity_state \<Rightarrow> (int \<times> charity_state) charity_result" where
  "claim_refund e payer i s =
    bindr (require_auth e payer) (\<lambda>_.
    bindr (load_charity_invoice s i) (\<lambda>ci.
    if ci_status ci \<noteq> CCancelled then Inl (Err NotCancelled)
    else
      (let amount = (case cs_contributions s i payer of None \<Rightarrow> 0 | Some v \<Rightarrow> v) in
       if amount \<le> 0 then Inl (Err NothingToRefund)
       else
         (let s1 = s\<lparr>cs_contributions := (cs_contributions s)(i := (cs_contributions s i)(payer := None))\<rparr> in
          bindr (arith (ci_funded ci - amount)) (\<lambda>funded.
          let s2 = save_charity_invoice (ci\<lparr>ci_funded := funded\<rparr>) s1 in
          bindr (charity_transfer e (ci_token ci) (self_addr e) payer amount s2) (\<lambda>s3.
          Inr (amount, clog (Event (CeRefunded i payer amount)) s3)))))))"

definition preview_split :: "charity_state \<Rightarrow> nat \<Rightarrow> donation_split charity_result" where
  "preview_split s i = bindr (load_charity_invoice s i) compute_split"

definition get_contribution :: "charity_state \<Rightarrow> nat \<Rightarrow> addr \<Rightarrow> int" where
  "get_contribution s i payer = (case cs_contributions s i payer of None \<Rightarrow> 0 | Some v \<Rightarrow> v)"

definition get_charity_total :: "charity_state \<Rightarrow> addr \<Rightarrow> addr \<Rightarrow> int" where
  "get_charity_total s c tok = (case cs_charity_total s (c, tok) of None \<Rightarrow> 0 | Some v \<Rightarrow> v)"

definition get_donor_total :: "charity_state \<Rightarrow> addr \<Rightarrow> addr \<Rightarrow> int" where
  "get_donor_total s d tok = (case cs_donor_total s (d, tok) of None \<Rightarrow> 0 | Some v \<Rightarrow> v)"

datatype charity_call =
    ChInitialize addr
  | ChRegister addr addr nat
  | ChSetActive addr addr bool
  | ChCreate addr addr "addr list" "int list" addr nat
  | ChPay addr nat int
  | ChDonate addr nat int
  | ChCancel addr nat
  | ChClaim addr nat

definition drop_result :: "('f + ('a \<times> 's)) \<Rightarrow> 'f + 's" where
  "drop_result r = bindr r (\<lambda>(_, s). Inr s)"

lemma drop_result_eq_Inr [result_simps]: "drop_result r = Inr s \<longleftrightarrow> (\<exists>v. r = Inr (v, s))"
  by (auto simp: drop_result_def result_simps)

fun charity_exec :: "charity_env \<Rightarrow> charity_call \<Rightarrow> charity_state \<Rightarrow> charity_state charity_result" where
  "charity_exec e (ChInitialize a) s = charity_initialize a s"
| "charity_exec e (ChRegister a c n) s = register_charity e a c n s"
| "charity_exec e (ChSetActive a c b) s = set_charity_active e a c b s"
| "charity_exec e (ChCreate cr t rs ams c b) s = drop_result (create_charity_invoice e cr t rs ams c b s)"
| "charity_exec e (ChPay p i n) s = drop_result (charity_pay e p i n s)"
| "charity_exec e (ChDonate d i n) s = donate_extra e d i n s"
| "charity_exec e (ChCancel c i) s = cancel_charity_invoice e c i s"
| "charity_exec e (ChClaim p i) s = drop_result (claim_refund e p i s)"


section \<open>The split\<close>

lemma split_loop_Inr:
  assumes "split_loop bps amounts q = Inr (payouts, r)" and "\<forall>x\<in>set amounts. 0 < x"
  shows "payouts = map (\<lambda>x. x - x * int bps div 10000) amounts \<and> r = q + sum_list payouts"
  using assms
proof (induction amounts arbitrary: q payouts)
  case Nil
  then show ?case by simp
next
  case (Cons x amounts)
  from Cons.prems obtain ps where rest: "split_loop bps amounts (q + (x - x * int bps div 10000)) = Inr (ps, r)"
    and p: "payouts = (x - x * int bps div 10000) # ps"
    by (auto simp: result_simps CHARITY_BPS_DENOMINATOR_def)
  from Cons.IH [OF rest] Cons.prems(2) p show ?case by simp
qed

definition charity_invoice_ok :: "charity_invoice \<Rightarrow> bool" where
  "charity_invoice_ok ci \<longleftrightarrow> ci_total ci = sum_list (ci_amounts ci) \<and> (\<forall>x\<in>set (ci_amounts ci). 0 < x)
    \<and> length (ci_recipients ci) = length (ci_amounts ci) \<and> ci_donation_bps ci \<le> MAX_DONATION_BPS"

lemma compute_split_Inr:
  assumes "compute_split ci = Inr d" and ok: "charity_invoice_ok ci"
  shows "ds_payouts d = map (\<lambda>x. x - x * int (ci_donation_bps ci) div 10000) (ci_amounts ci)"
    and "sum_list (ds_payouts d) + ds_donation d = ci_total ci"
    and "ds_donation d = sum_list (map (\<lambda>x. x * int (ci_donation_bps ci) div 10000) (ci_amounts ci))"
    and "0 \<le> ds_donation d" and "\<forall>x\<in>set (ds_payouts d). 0 < x"
proof -
  let ?b = "int (ci_donation_bps ci)"
  from assms obtain payouts r where sl: "split_loop (ci_donation_bps ci) (ci_amounts ci) 0 = Inr (payouts, r)"
    and d: "d = \<lparr>ds_payouts = payouts, ds_donation = ci_total ci - r\<rparr>"
    by (auto simp: compute_split_def result_simps)
  have pos: "\<forall>x\<in>set (ci_amounts ci). 0 < x" and b: "?b \<le> 5000"
    using ok by (auto simp: charity_invoice_ok_def MAX_DONATION_BPS_def)
  have p: "payouts = map (\<lambda>x. x - x * ?b div 10000) (ci_amounts ci)" and r: "r = sum_list payouts"
    using split_loop_Inr [OF sl pos] by simp_all
  show "ds_payouts d = map (\<lambda>x. x - x * ?b div 10000) (ci_amounts ci)" by (simp add: d p)
  show "sum_list (ds_payouts d) + ds_donation d = ci_total ci" by (simp add: d r)
  show don: "ds_donation d = sum_list (map (\<lambda>x. x * ?b div 10000) (ci_amounts ci))"
    using ok by (simp add: d r p charity_invoice_ok_def sum_list_subtractf)
  show "0 \<le> ds_donation d" unfolding don
    using pos by (intro sum_list_nonneg) (auto simp: pos_imp_zdiv_nonneg_iff)
  have "x * ?b div 10000 < x" if "0 < x" for x
  proof -
    have "x * ?b \<le> x * 5000" using that b by simp
    then show ?thesis using that by linarith
  qed
  then show "\<forall>x\<in>set (ds_payouts d). 0 < x" using pos by (auto simp: d p)
qed


text \<open>
  C13: The split of a release is exact: every recipient gets its gross amount minus the floor of its
  donation share, which stays positive, the charity gets the sum of the deductions, and together
  they are the invoice total, so no rounding dust stays in the contract.
\<close>

theorem charity_split_exact:
  assumes "compute_split ci = Inr d" and "charity_invoice_ok ci"
  shows "sum_list (ds_payouts d) + ds_donation d = ci_total ci
    \<and> ds_payouts d = map (\<lambda>x. x - x * int (ci_donation_bps ci) div 10000) (ci_amounts ci)
    \<and> ds_donation d = sum_list (map (\<lambda>x. x * int (ci_donation_bps ci) div 10000) (ci_amounts ci))
    \<and> 0 \<le> ds_donation d \<and> (\<forall>x\<in>set (ds_payouts d). 0 < x)"
  using compute_split_Inr [OF assms] by blast

theorem charity_split_exact_witness:
  "\<exists>d. compute_split \<lparr>ci_id = 0, ci_creator = 1, ci_token = 2, ci_total = 1100, ci_funded = 0,
      ci_recipients = [3, 4], ci_amounts = [101, 999], ci_charity = 5, ci_donation_bps = 250,
      ci_donated = 0, ci_status = COpen, ci_created_at = 0\<rparr> = Inr d
    \<and> ds_payouts d = [99, 975] \<and> ds_donation d = 26"
proof -
  let ?ci = "\<lparr>ci_id = 0, ci_creator = 1, ci_token = 2, ci_total = 1100, ci_funded = 0,
      ci_recipients = [3, 4], ci_amounts = [101, 999], ci_charity = 5, ci_donation_bps = 250,
      ci_donated = 0, ci_status = COpen, ci_created_at = 0\<rparr>"
  have "\<exists>d. compute_split ?ci = Inr d"
    by (simp add: compute_split_def CHARITY_BPS_DENOMINATOR_def checked_i128_def arith_def rust_int)
  then obtain d where d: "compute_split ?ci = Inr d" ..
  have "charity_invoice_ok ?ci" by (simp add: charity_invoice_ok_def MAX_DONATION_BPS_def)
  from charity_split_exact [OF d this] d show ?thesis by auto
qed


section \<open>Solvency\<close>

definition charity_next :: "charity_state \<Rightarrow> nat" where
  "charity_next s = (case cs_counter s of None \<Rightarrow> 0 | Some n \<Rightarrow> n)"

definition charity_holding :: "addr \<Rightarrow> charity_invoice option \<Rightarrow> (addr \<rightharpoonup> int) \<Rightarrow> int" where
  "charity_holding t io D = (case io of None \<Rightarrow> 0
    | Some ci \<Rightarrow> if ci_token ci = t \<and> ci_status ci \<noteq> CReleased then deposit_sum D else 0)"

definition charity_held :: "addr \<Rightarrow> charity_state \<Rightarrow> int" where
  "charity_held t s = (\<Sum>i<charity_next s. charity_holding t (cs_invoices s i) (cs_contributions s i))"

definition contributions_ok :: "addr \<Rightarrow> (addr \<rightharpoonup> int) \<Rightarrow> bool" where
  "contributions_ok a D \<longleftrightarrow> finite (dom D) \<and> (\<forall>p v. D p = Some v \<longrightarrow> 0 < v \<and> p \<noteq> a)"

definition charity_slot_ok :: "addr \<Rightarrow> nat \<Rightarrow> nat \<Rightarrow> charity_invoice option \<Rightarrow> (addr \<rightharpoonup> int) \<Rightarrow> bool" where
  "charity_slot_ok a n i io D \<longleftrightarrow> (case io of None \<Rightarrow> D = Map.empty
    | Some ci \<Rightarrow> i < n \<and> ci_id ci = i \<and> charity_invoice_ok ci \<and> contributions_ok a D
        \<and> 0 \<le> ci_funded ci \<and> ci_funded ci \<le> ci_total ci \<and> ci_total ci \<le> i128_max
        \<and> (ci_status ci = CReleased \<longrightarrow> ci_funded ci = ci_total ci)
        \<and> (ci_status ci \<noteq> CReleased \<longrightarrow> deposit_sum D = ci_funded ci))"

definition charity_ok :: "addr \<Rightarrow> charity_state \<Rightarrow> bool" where
  "charity_ok a s \<longleftrightarrow>
    (\<forall>i. charity_slot_ok a (charity_next s) i (cs_invoices s i) (cs_contributions s i))
    \<and> (cs_admin s = None \<longrightarrow> cs_invoices s = Map.empty \<and> cs_counter s = None)
    \<and> (\<forall>t. charity_held t s \<le> inflow a t (cs_log s))"

lemma charity_slot_simps [simp]:
  "charity_slot_ok a n i None D \<longleftrightarrow> D = Map.empty"
  "charity_holding t None D = 0"
  "charity_holding t (Some ci) D = (if ci_token ci = t \<and> ci_status ci \<noteq> CReleased then deposit_sum D else 0)"
  by (simp_all add: charity_slot_ok_def charity_holding_def)

lemma charity_ok_slot: "charity_ok a s \<Longrightarrow> charity_slot_ok a (charity_next s) i (cs_invoices s i) (cs_contributions s i)"
  by (simp add: charity_ok_def)

lemma charity_ok_empty: "charity_ok a empty_charity"
  by (simp add: charity_ok_def empty_charity_def charity_held_def charity_next_def)

lemma charity_ok_update:
  assumes ok: "charity_ok a s" and old: "cs_invoices s i = Some ci"
    and invs: "cs_invoices s' = (cs_invoices s)(i \<mapsto> ci')"
    and con: "cs_contributions s' = (cs_contributions s)(i := D')"
    and cnt: "cs_counter s' = cs_counter s" and adm: "cs_admin s' = cs_admin s"
    and new: "charity_slot_ok a (charity_next s) i (Some ci') D'"
    and fl: "\<And>t. charity_holding t (Some ci') D' - charity_holding t (Some ci) (cs_contributions s i)
      \<le> inflow a t (cs_log s') - inflow a t (cs_log s)"
  shows "charity_ok a s'"
proof -
  have nxt: "charity_next s' = charity_next s" by (simp add: charity_next_def cnt)
  have lt: "i < charity_next s" using new by (simp add: charity_slot_ok_def)
  have "charity_held t s' = charity_held t s - charity_holding t (Some ci) (cs_contributions s i)
      + charity_holding t (Some ci') D'" for t
    unfolding charity_held_def nxt
    using sum_slot_change [OF lt, of "\<lambda>j. charity_holding t (cs_invoices s' j) (cs_contributions s' j)"
        "\<lambda>j. charity_holding t (cs_invoices s j) (cs_contributions s j)"]
    by (simp add: invs con old)
  moreover have "charity_held t s \<le> inflow a t (cs_log s)" for t using ok by (simp add: charity_ok_def)
  ultimately have "charity_held t s' \<le> inflow a t (cs_log s')" for t using fl [of t] by (smt (verit))
  moreover have "charity_slot_ok a (charity_next s') j (cs_invoices s' j) (cs_contributions s' j)" for j
    using charity_ok_slot [OF ok, of j] new by (simp add: invs con nxt)
  moreover have "cs_admin s \<noteq> None" using ok old by (metis charity_ok_def option.distinct(1))
  ultimately show ?thesis by (auto simp: charity_ok_def adm)
qed

lemma charity_ok_frame:
  assumes "charity_ok a s" and "cs_invoices s' = cs_invoices s" "cs_contributions s' = cs_contributions s"
    "cs_counter s' = cs_counter s" "cs_admin s' = cs_admin s"
    and "\<And>t. inflow a t (cs_log s) \<le> inflow a t (cs_log s')"
  shows "charity_ok a s'"
  using assms by (auto simp: charity_ok_def charity_next_def charity_held_def intro: order_trans)

lemma pay_recipients:
  assumes "foldr_res (pay_recipient e tok) (zip rs ps) s = Inr s'"
    and "\<forall>x\<in>set ps. 0 < x" and "length rs = length ps"
  shows "inflow (self_addr e) t (cs_log s) - (if t = tok then sum_list ps else 0)
      \<le> inflow (self_addr e) t (cs_log s')
    \<and> cs_invoices s' = cs_invoices s \<and> cs_contributions s' = cs_contributions s
    \<and> cs_counter s' = cs_counter s \<and> cs_admin s' = cs_admin s"
  using assms
proof (induction ps arbitrary: rs s)
  case Nil
  then show ?case by simp
next
  case (Cons x ps)
  obtain r rs' where rs: "rs = r # rs'" and len: "length rs' = length ps" using Cons.prems(3) by (cases rs) auto
  have pos: "\<forall>y\<in>set ps. 0 < y" "0 < x" using Cons.prems(2) by simp_all
  let ?s1 = "clog (Sent tok (self_addr e) r x) s"
  have rest: "foldr_res (pay_recipient e tok) (zip rs' ps) ?s1 = Inr s'"
    using Cons.prems(1) pos(2) by (auto simp: rs pay_recipient_def [of e tok "(r, x)" s] result_simps)
  show ?case using Cons.IH [OF rest pos(1) len] pos(2) by (auto simp: clog_def split: if_splits)
qed

lemma charity_release_Inr:
  assumes "charity_release e ci s = Inr (ci', s')" and ok: "charity_invoice_ok ci"
  shows "\<exists>dn. ci' = ci\<lparr>ci_donated := dn, ci_status := CReleased\<rparr>"
    and "cs_invoices s' = cs_invoices s" "cs_contributions s' = cs_contributions s"
      "cs_counter s' = cs_counter s" "cs_admin s' = cs_admin s"
    and "inflow (self_addr e) t (cs_log s) - (if t = ci_token ci then ci_total ci else 0)
      \<le> inflow (self_addr e) t (cs_log s')"
proof -
  from assms(1) obtain d s1 where d: "compute_split ci = Inr d"
    and s1: "foldr_res (pay_recipient e (ci_token ci)) (zip (ci_recipients ci) (ds_payouts d)) s = Inr s1"
    by (auto simp: charity_release_def result_simps)
  note cs = compute_split_Inr [OF d ok]
  have len: "length (ci_recipients ci) = length (ds_payouts d)"
    using ok by (simp add: cs(1) charity_invoice_ok_def)
  note pr = pay_recipients [OF s1 cs(5) len]
  have "ci' = ci\<lparr>ci_donated := ds_donation d, ci_status := CReleased\<rparr>
    \<and> cs_invoices s' = cs_invoices s1 \<and> cs_contributions s' = cs_contributions s1
    \<and> cs_counter s' = cs_counter s1 \<and> cs_admin s' = cs_admin s1
    \<and> inflow (self_addr e) t (cs_log s1) - (if t = ci_token ci then ds_donation d else 0)
        \<le> inflow (self_addr e) t (cs_log s')"
    using assms(1) d s1 cs(4)
    by (auto simp: charity_release_def result_simps Let_def clog_def split: if_splits)
  with pr [of t] cs(2) show "\<exists>dn. ci' = ci\<lparr>ci_donated := dn, ci_status := CReleased\<rparr>"
    "cs_invoices s' = cs_invoices s" "cs_contributions s' = cs_contributions s"
    "cs_counter s' = cs_counter s" "cs_admin s' = cs_admin s"
    "inflow (self_addr e) t (cs_log s) - (if t = ci_token ci then ci_total ci else 0)
      \<le> inflow (self_addr e) t (cs_log s')"
    by (auto split: if_splits)
qed


lemma charity_ok_invoice:
  assumes "charity_ok a s" and "cs_invoices s i = Some ci"
  shows "i < charity_next s" "ci_id ci = i" "charity_invoice_ok ci" "contributions_ok a (cs_contributions s i)"
    "0 \<le> ci_funded ci" "ci_funded ci \<le> ci_total ci" "ci_total ci \<le> i128_max"
    "ci_status ci \<noteq> CReleased \<Longrightarrow> deposit_sum (cs_contributions s i) = ci_funded ci"
  using charity_ok_slot [OF assms(1), of i] assms(2) by (simp_all add: charity_slot_ok_def)

lemma charity_invoice_ok_upd [simp]:
  "charity_invoice_ok (ci\<lparr>ci_funded := n\<rparr>) = charity_invoice_ok ci"
  "charity_invoice_ok (ci\<lparr>ci_status := st\<rparr>) = charity_invoice_ok ci"
  "charity_invoice_ok (ci\<lparr>ci_donated := d\<rparr>) = charity_invoice_ok ci"
  by (simp_all add: charity_invoice_ok_def)

lemma charity_pay_cases:
  assumes "charity_pay e p i n s = Inr (v, s')"
  obtains ci s3 ci2 s4 where "auth e p" "0 < n" "cs_invoices s i = Some ci" "ci_status ci = COpen"
    "ci_funded ci + n \<le> ci_total ci"
    "s3 = s\<lparr>cs_contributions := (cs_contributions s)(i := (cs_contributions s i)(p \<mapsto> get_contribution s i p + n)),
        cs_log := cs_log s @ [Sent (ci_token ci) p (self_addr e) n, Event (CePaid i p n (ci_funded ci + n))]\<rparr>"
    "if ci_funded ci + n = ci_total ci
      then charity_release e (ci\<lparr>ci_funded := ci_funded ci + n\<rparr>) s3 = Inr (ci2, s4)
      else ci2 = ci\<lparr>ci_funded := ci_funded ci + n\<rparr> \<and> s4 = s3"
    "s' = save_charity_invoice ci2 s4" "v = ci_funded ci + n"
  using assms
  by (auto simp: charity_pay_def load_charity_invoice_def result_simps Let_def add_to_total_def clog_def
      get_contribution_def split: if_splits intro: that)

lemma pay_release_step:
  assumes "charity_invoice_ok ci1"
    and "if b then charity_release e ci1 s3 = Inr (ci2, s4) else ci2 = ci1 \<and> s4 = s3"
  shows "cs_invoices s4 = cs_invoices s3 \<and> cs_contributions s4 = cs_contributions s3
    \<and> cs_counter s4 = cs_counter s3 \<and> cs_admin s4 = cs_admin s3
    \<and> (\<exists>dn. ci2 = ci1\<lparr>ci_donated := dn, ci_status := (if b then CReleased else ci_status ci1)\<rparr>)
    \<and> inflow (self_addr e) t (cs_log s3) - (if b \<and> t = ci_token ci1 then ci_total ci1 else 0)
      \<le> inflow (self_addr e) t (cs_log s4)"
proof (cases b)
  case True
  then have r: "charity_release e ci1 s3 = Inr (ci2, s4)" using assms(2) by simp
  show ?thesis using charity_release_Inr [OF r assms(1)] True by simp
next
  case False
  then have "ci2 = ci1" "s4 = s3" using assms(2) by simp_all
  moreover have "\<exists>dn. ci1 = ci1\<lparr>ci_donated := dn, ci_status := ci_status ci1\<rparr>"
    by (rule exI [of _ "ci_donated ci1"]) simp
  ultimately show ?thesis using False by simp
qed

lemma charity_pay_ok:
  assumes ok: "charity_ok (self_addr e) s" and na: "\<not> auth e (self_addr e)"
    and pay: "charity_pay e p i n s = Inr (v, s')"
  shows "charity_ok (self_addr e) s'"
  using pay
proof (rule charity_pay_cases)
  fix ci ci2 :: charity_invoice and s3 s4
  let ?D = "(cs_contributions s i)(p \<mapsto> get_contribution s i p + n)"
  let ?ci1 = "ci\<lparr>ci_funded := ci_funded ci + n\<rparr>"
  assume au: "auth e p" and n: "0 < n" and inv: "cs_invoices s i = Some ci" and op: "ci_status ci = COpen"
    and le: "ci_funded ci + n \<le> ci_total ci"
    and s3: "s3 = s\<lparr>cs_contributions := (cs_contributions s)(i := ?D),
        cs_log := cs_log s @ [Sent (ci_token ci) p (self_addr e) n, Event (CePaid i p n (ci_funded ci + n))]\<rparr>"
    and rel: "if ci_funded ci + n = ci_total ci then charity_release e ?ci1 s3 = Inr (ci2, s4)
      else ci2 = ?ci1 \<and> s4 = s3"
    and s': "s' = save_charity_invoice ci2 s4"
  note iok = charity_ok_invoice [OF ok inv]
  have p: "p \<noteq> self_addr e" using au na by auto
  have fin: "finite (dom (cs_contributions s i))" using iok(4) by (simp add: contributions_ok_def)
  have sum: "deposit_sum ?D = deposit_sum (cs_contributions s i) + n"
    using deposit_sum_upd [OF fin, of p] by (auto simp: get_contribution_def split: option.splits)
  have "0 \<le> get_contribution s i p"
    using iok(4) by (auto simp: get_contribution_def contributions_ok_def intro: less_imp_le split: option.splits)
  then have con: "contributions_ok (self_addr e) ?D"
    using iok(4) p n by (auto simp: contributions_ok_def)
  have ok1: "charity_invoice_ok ?ci1" using iok(3) by simp
  note step = pay_release_step [OF ok1 rel]
  have ci2: "ci_id ci2 = i" "ci_token ci2 = ci_token ci" "charity_invoice_ok ci2"
    "ci_funded ci2 = ci_funded ci + n" "ci_total ci2 = ci_total ci"
    "ci_status ci2 = (if ci_funded ci + n = ci_total ci then CReleased else COpen)"
    using step [of 0] iok(2) op ok1 by auto
  show ?thesis
  proof (rule charity_ok_update [OF ok inv])
    show "cs_invoices s' = (cs_invoices s)(i \<mapsto> ci2)" "cs_contributions s' = (cs_contributions s)(i := ?D)"
      "cs_counter s' = cs_counter s" "cs_admin s' = cs_admin s"
      by (simp_all add: s' save_charity_invoice_def step s3 ci2(1) charity_next_def)
    show "charity_slot_ok (self_addr e) (charity_next s) i (Some ci2) ?D"
      using iok con le n op by (simp add: charity_slot_ok_def ci2 sum)
    show "charity_holding t (Some ci2) ?D - charity_holding t (Some ci) (cs_contributions s i)
      \<le> inflow (self_addr e) t (cs_log s') - inflow (self_addr e) t (cs_log s)" for t
      using step [of t] iok(8) op p
      by (auto simp: s' save_charity_invoice_def ci2 sum s3 split: if_splits)
  qed
qed


lemma charity_total_loop_Inr:
  assumes "charity_total_loop amounts q = Inr r"
  shows "r = q + sum_list amounts \<and> (\<forall>x\<in>set amounts. 0 < x) \<and> (q \<le> i128_max \<longrightarrow> r \<le> i128_max)"
  using assms
proof (induction amounts arbitrary: q)
  case Nil
  then show ?case by simp
next
  case (Cons x amounts)
  then have "0 < x" and f: "fits_i128 (q + x)" and rest: "charity_total_loop amounts (q + x) = Inr r"
    by (auto simp: result_simps split: if_splits)
  with Cons.IH [OF rest] show ?case by (simp add: fits_i128_def)
qed

lemma create_charity_ok:
  assumes ok: "charity_ok a s"
    and cr: "create_charity_invoice e creator tok rs ams c b s = Inr (i, s')"
  shows "charity_ok a s'"
proof -
  from cr obtain tot where tot: "charity_total_loop ams 0 = Inr tot"
    and i: "cs_counter s = Some i" and b: "b \<le> MAX_DONATION_BPS" and len: "length rs = length ams"
    and s': "s' = clog (Event (CeCreated i creator tot c b)) (save_charity_invoice
      \<lparr>ci_id = i, ci_creator = creator, ci_token = tok, ci_total = tot, ci_funded = 0,
        ci_recipients = rs, ci_amounts = ams, ci_charity = c, ci_donation_bps = b, ci_donated = 0,
        ci_status = COpen, ci_created_at = timestamp e\<rparr> (s\<lparr>cs_counter := Some (i + 1)\<rparr>))"
    by (auto simp: create_charity_invoice_def result_simps Let_def checked_nat_def split: if_splits)
  note tl = charity_total_loop_Inr [OF tot]
  have tot0: "0 \<le> tot" using tl by (auto intro!: sum_list_nonneg intro: less_imp_le)
  have nx: "charity_next s = i" "charity_next s' = Suc i"
    by (simp_all add: charity_next_def i s' clog_def save_charity_invoice_def)
  have fresh: "cs_invoices s i = None"
    using charity_ok_invoice(1) [OF ok, of i] nx by (cases "cs_invoices s i") auto
  then have D: "cs_contributions s i = Map.empty" using charity_ok_slot [OF ok, of i] by simp
  have adm: "cs_admin s \<noteq> None" using ok i by (auto simp: charity_ok_def)
  have "charity_slot_ok a (charity_next s') j (cs_invoices s' j) (cs_contributions s' j)" for j
    using charity_ok_slot [OF ok, of j] tl len b D nx tot0
    by (cases "cs_invoices s j")
      (auto simp: s' clog_def save_charity_invoice_def charity_slot_ok_def charity_invoice_ok_def
        contributions_ok_def)
  moreover have "charity_held t s' = charity_held t s" for t
    unfolding charity_held_def nx using D by (simp add: s' clog_def save_charity_invoice_def)
  ultimately show ?thesis
    using adm ok by (auto simp: charity_ok_def s' clog_def save_charity_invoice_def)
qed

lemma cancel_charity_ok:
  assumes ok: "charity_ok a s" and "cancel_charity_invoice e c i s = Inr s'"
  shows "charity_ok a s'"
proof -
  from assms(2) obtain ci where inv: "cs_invoices s i = Some ci" and st: "ci_status ci = COpen"
    and s': "s' = clog (Event (CeCancelled i (ci_funded ci))) (save_charity_invoice (ci\<lparr>ci_status := CCancelled\<rparr>) s)"
    by (auto simp: cancel_charity_invoice_def load_charity_invoice_def result_simps split: if_splits)
  note iok = charity_ok_invoice [OF ok inv]
  show ?thesis
    by (rule charity_ok_update [OF ok inv, where ci' = "ci\<lparr>ci_status := CCancelled\<rparr>"
          and D' = "cs_contributions s i"])
      (use iok st in \<open>auto simp: s' clog_def save_charity_invoice_def charity_slot_ok_def\<close>)
qed

lemma claim_refund_cases:
  assumes "claim_refund e p i s = Inr (v, s')"
  obtains ci where "auth e p" "cs_invoices s i = Some ci" "ci_status ci = CCancelled"
    "cs_contributions s i p = Some v" "0 < v"
    "s' = clog (Event (CeRefunded i p v)) (clog (Sent (ci_token ci) (self_addr e) p v)
      (save_charity_invoice (ci\<lparr>ci_funded := ci_funded ci - v\<rparr>)
        (s\<lparr>cs_contributions := (cs_contributions s)(i := (cs_contributions s i)(p := None))\<rparr>)))"
  using assms
  by (auto simp: claim_refund_def load_charity_invoice_def result_simps Let_def
      split: if_splits option.splits intro: that)

lemma claim_refund_ok:
  assumes ok: "charity_ok (self_addr e) s" and "claim_refund e p i s = Inr (v, s')"
  shows "charity_ok (self_addr e) s'"
  using assms(2)
proof (rule claim_refund_cases)
  fix ci
  let ?D = "(cs_contributions s i)(p := None)"
  assume inv: "cs_invoices s i = Some ci" and st: "ci_status ci = CCancelled"
    and v: "cs_contributions s i p = Some v" "0 < v"
    and s': "s' = clog (Event (CeRefunded i p v)) (clog (Sent (ci_token ci) (self_addr e) p v)
      (save_charity_invoice (ci\<lparr>ci_funded := ci_funded ci - v\<rparr>)
        (s\<lparr>cs_contributions := (cs_contributions s)(i := ?D)\<rparr>)))"
  note iok = charity_ok_invoice [OF ok inv]
  have fin: "finite (dom (cs_contributions s i))" using iok(4) by (simp add: contributions_ok_def)
  have sum: "deposit_sum ?D = ci_funded ci - v"
    using deposit_sum_remove [OF fin, of p] v iok(8) st by simp
  have con: "contributions_ok (self_addr e) ?D" using iok(4) by (auto simp: contributions_ok_def)
  have nn: "0 \<le> deposit_sum ?D"
    using con by (intro deposit_sum_nonneg) (auto simp: contributions_ok_def)
  show ?thesis
    by (rule charity_ok_update [OF ok inv, where ci' = "ci\<lparr>ci_funded := ci_funded ci - v\<rparr>" and D' = ?D])
      (use iok st v sum con nn in \<open>auto simp: s' clog_def save_charity_invoice_def charity_slot_ok_def\<close>)
qed

lemma charity_frame_ok:
  assumes "charity_ok a s"
  shows "register_charity e adm c n s = Inr s' \<Longrightarrow> charity_ok a s'"
    and "set_charity_active e adm c b s = Inr s' \<Longrightarrow> charity_ok a s'"
    and "a = self_addr e \<Longrightarrow> \<not> auth e a \<Longrightarrow> donate_extra e d i v s = Inr s' \<Longrightarrow> charity_ok a s'"
  by (rule charity_ok_frame [OF assms];
      auto simp: register_charity_def set_charity_active_def donate_extra_def result_simps clog_def Let_def
        split: if_splits)+

lemma charity_initialize_ok:
  assumes "charity_ok a s" and "charity_initialize x s = Inr s'"
  shows "charity_ok a s'"
  using assms
  by (auto simp: charity_initialize_def charity_ok_def charity_next_def charity_held_def split: if_splits)

definition charity_env_ok :: "addr \<Rightarrow> charity_env \<Rightarrow> bool" where
  "charity_env_ok a e \<longleftrightarrow> self_addr e = a \<and> \<not> auth e a"

lemma charity_exec_ok:
  assumes "charity_env_ok a e" and ok: "charity_ok a s" and ex: "charity_exec e c s = Inr s'"
  shows "charity_ok a s'"
proof -
  have a: "a = self_addr e" and na: "\<not> auth e (self_addr e)" using assms(1) by (auto simp: charity_env_ok_def)
  note ok' = ok [unfolded a]
  show ?thesis unfolding a using ex
    by (cases c) (auto simp: drop_result_eq_Inr na
      intro: charity_initialize_ok [OF ok'] charity_frame_ok [OF ok'] create_charity_ok [OF ok']
        charity_pay_ok [OF ok' na] cancel_charity_ok [OF ok'] claim_refund_ok [OF ok'])
qed

interpretation charity_run: contract_machine charity_exec empty_charity "charity_env_ok a" "charity_ok a" for a
  by unfold_locales (auto intro: charity_ok_empty charity_exec_ok)


text \<open>
  C8: The charity contract is solvent in every run: its balance of every token covers the
  contributions of all open and cancelled invoices, so a release or a refund never lacks funds.
\<close>

theorem charity_solvent:
  assumes "list_all (\<lambda>(e, c). charity_env_ok a e) xs"
  defines "s \<equiv> run charity_exec xs empty_charity"
  shows "charity_held t s \<le> inflow a t (cs_log s)
    \<and> (\<forall>i ci. cs_invoices s i = Some ci \<and> ci_status ci \<noteq> CReleased
        \<longrightarrow> deposit_sum (cs_contributions s i) = ci_funded ci)"
proof -
  have "charity_ok a s" unfolding s_def by (rule charity_run.invar_run [OF assms(1)])
  then show ?thesis using charity_ok_invoice(8) by (auto simp: charity_ok_def)
qed

definition charity_demo_env :: "nat \<Rightarrow> addr \<Rightarrow> charity_env" where
  "charity_demo_env t x = \<lparr>timestamp = t, sequence = t, self_addr = 99, auth = (\<lambda>b. b = x),
    transfer_ok = (\<lambda>k tok src dst n. tok = 9 \<and> 0 \<le> n \<and> n \<le> 1000)\<rparr>"

definition charity_demo :: "(charity_env \<times> charity_call) list" where
  "charity_demo =
    [(charity_demo_env 1 1, ChInitialize 1), (charity_demo_env 2 1, ChRegister 1 50 7),
     (charity_demo_env 3 2, ChCreate 2 9 [3, 4] [101, 999] 50 250),
     (charity_demo_env 4 5, ChPay 5 0 600), (charity_demo_env 4 6, ChPay 6 0 100),
     (charity_demo_env 5 2, ChCancel 2 0)]"

lemmas charity_eval = charity_demo_env_def empty_charity_def charity_initialize_def register_charity_def
  charity_require_admin_def create_charity_invoice_def load_charity_def load_charity_invoice_def
  save_charity_invoice_def charity_pay_def cancel_charity_invoice_def drop_result_def clog_def
  add_to_total_def charity_transfer_def require_auth_def MIN_DONATION_BPS_def MAX_DONATION_BPS_def
  CHARITY_MAX_RECIPIENTS_def checked_nat_def checked_i128_def rust_int

lemma charity_demo_env_ok: "list_all (\<lambda>(e, c). charity_env_ok 99 e) charity_demo"
  by (simp add: charity_demo_def charity_demo_env_def charity_env_ok_def)

theorem charity_solvent_witness:
  "inflow 99 9 (cs_log (run charity_exec charity_demo empty_charity)) = 700
    \<and> charity_held 9 (run charity_exec charity_demo empty_charity) \<le> 700"
proof -
  have "inflow 99 9 (cs_log (run charity_exec charity_demo empty_charity)) = 700"
    by (simp add: charity_demo_def charity_eval)
  then show ?thesis using charity_solvent [OF charity_demo_env_ok, of 9] by simp
qed

text \<open>
  What the refunds rely on of the token contract: a transfer out of the contract goes through when
  the contract's balance covers it. The balance is at least the net inflow that the log records.
\<close>

definition token_pays_out :: "'x charity_env_scheme \<Rightarrow> addr \<Rightarrow> charity_state \<Rightarrow> bool" where
  "token_pays_out e tok s \<longleftrightarrow> (\<forall>dst n. 0 < n \<and> n \<le> inflow (self_addr e) tok (cs_log s)
    \<longrightarrow> transfer_ok e (length (cs_log s)) tok (self_addr e) dst n)"

lemma contribution_covered:
  assumes ok: "charity_ok a s" and inv: "cs_invoices s i = Some ci" and st: "ci_status ci \<noteq> CReleased"
    and con: "cs_contributions s i p = Some v"
  shows "0 < v" and "v \<le> ci_funded ci" and "v \<le> inflow a (ci_token ci) (cs_log s)"
proof -
  note iok = charity_ok_invoice [OF ok inv]
  have fin: "finite (dom (cs_contributions s i))"
    and pos: "\<And>p v. cs_contributions s i p = Some v \<Longrightarrow> 0 < v"
    using iok(4) by (auto simp: contributions_ok_def)
  have le: "v \<le> deposit_sum (cs_contributions s i)" by (rule deposit_le_sum [OF fin pos con])
  show "0 < v" using pos con by simp
  show "v \<le> ci_funded ci" using le iok(8) st by simp
  have "0 \<le> charity_holding t (cs_invoices s j) (cs_contributions s j)" for t j
    using charity_ok_slot [OF ok, of j]
    by (cases "cs_invoices s j") (auto simp: charity_slot_ok_def)
  then have "charity_holding (ci_token ci) (cs_invoices s i) (cs_contributions s i) \<le> charity_held (ci_token ci) s"
    unfolding charity_held_def using iok(1) by (intro member_le_sum) auto
  then show "v \<le> inflow a (ci_token ci) (cs_log s)"
    using le st inv ok by (auto simp: charity_ok_def dest: spec [of _ "ci_token ci"])
qed


text \<open>
  C9: Refunds of a cancelled charity invoice are live and exact: in every reachable state a payer
  with a recorded contribution to a cancelled invoice can claim it, if the invoice's token pays out
  transfers that the contract's balance covers. The balance always covers the claim, so the call
  returns the recorded amount, transfers it to the payer, clears the contribution and reduces the
  funded amount by it; and if the token refuses the transfer instead, the call traps.
\<close>

theorem charity_refund_live:
  assumes "list_all (\<lambda>(e, c). charity_env_ok a e) xs" and "s = run charity_exec xs empty_charity"
    and "cs_invoices s i = Some ci" and "ci_status ci = CCancelled"
    and "cs_contributions s i p = Some v" and "auth e p" and "charity_env_ok a e"
  shows "(token_pays_out e (ci_token ci) s \<longrightarrow>
      (\<exists>s'. claim_refund e p i s = Inr (v, s') \<and> cs_contributions s' i p = None
        \<and> inflow p (ci_token ci) (cs_log s') = inflow p (ci_token ci) (cs_log s) + v
        \<and> inflow a (ci_token ci) (cs_log s') = inflow a (ci_token ci) (cs_log s) - v
        \<and> map_option ci_funded (cs_invoices s' i) = Some (ci_funded ci - v)))
    \<and> (\<not> transfer_ok e (length (cs_log s)) (ci_token ci) a p v
        \<longrightarrow> claim_refund e p i s = Inl (Trap ''token transfer failed''))"
proof -
  have ok: "charity_ok a s" unfolding assms(2) by (rule charity_run.invar_run [OF assms(1)])
  note iok = charity_ok_invoice [OF ok assms(3)]
  have st: "ci_status ci \<noteq> CReleased" using assms(4) by simp
  note cov = contribution_covered [OF ok assms(3) st assms(5)]
  have a: "self_addr e = a" "p \<noteq> a" using assms(6,7) by (auto simp: charity_env_ok_def)
  let ?s2 = "save_charity_invoice (ci\<lparr>ci_funded := ci_funded ci - v\<rparr>)
    (s\<lparr>cs_contributions := (cs_contributions s)(i := (cs_contributions s i)(p := None))\<rparr>)"
  have "fits_i128 (ci_funded ci - v)" using cov iok(6,7) by (simp add: fits_i128_nonneg)
  then have call: "claim_refund e p i s = bindr (charity_transfer e (ci_token ci) a p v ?s2)
      (\<lambda>s3. Inr (v, clog (Event (CeRefunded i p v)) s3))"
    using assms(3-6) cov(1) a by (simp add: claim_refund_def load_charity_invoice_def)
  have "cs_log ?s2 = cs_log s" by (simp add: save_charity_invoice_def)
  moreover have "token_pays_out e (ci_token ci) s \<Longrightarrow> transfer_ok e (length (cs_log s)) (ci_token ci) a p v"
    using cov(1,3) a by (simp add: token_pays_out_def)
  ultimately show ?thesis
    using a iok(2) by (auto simp: call charity_transfer_def clog_def save_charity_invoice_def)
qed

theorem charity_refund_live_witness:
  "\<exists>s'. claim_refund (charity_demo_env 6 5) 5 0 (run charity_exec charity_demo empty_charity) = Inr (600, s')
    \<and> cs_contributions s' 0 5 = None"
proof -
  let ?s = "run charity_exec charity_demo empty_charity"
  have inv: "cs_invoices ?s 0 = Some \<lparr>ci_id = 0, ci_creator = 2, ci_token = 9, ci_total = 1100,
      ci_funded = 700, ci_recipients = [3, 4], ci_amounts = [101, 999], ci_charity = 50,
      ci_donation_bps = 250, ci_donated = 0, ci_status = CCancelled, ci_created_at = 3\<rparr>"
    and con: "cs_contributions ?s 0 5 = Some 600" and bal: "inflow 99 9 (cs_log ?s) = 700"
    by (simp_all add: charity_demo_def charity_eval)
  have pays: "token_pays_out (charity_demo_env 6 5) 9 ?s"
    using bal by (auto simp: token_pays_out_def charity_demo_env_def)
  have "auth (charity_demo_env 6 5) 5" "charity_env_ok 99 (charity_demo_env 6 5)"
    by (simp_all add: charity_demo_env_def charity_env_ok_def)
  from charity_refund_live [OF charity_demo_env_ok refl inv _ con this] pays show ?thesis by auto
qed

end
