(* ===== verification/Tax_Strategy.thy ===== *)
theory Tax_Strategy
  imports Token_Accounts "HOL-Library.Signed_Division"
begin

text \<open>
  Model of the tax-strategy contract (\<open>contracts/tax-strategy/src/lib.rs\<close>, \<open>types.rs\<close>,
  \<open>errors.rs\<close>): income is split into a pre-tax deduction, a tax reserve (flat, or by marginal
  brackets on the cumulative income of a period) and the creator's net. Afterwards: the bracket loop
  computes the marginal tax, every breakdown is exact, and the period totals stay consistent.
\<close>

section \<open>Data\<close>

datatype tax_error =
    AlreadyInitialized | NotInitialized | NotAdmin | InvalidRate | InvalidBrackets | InvalidDeduction
  | InvalidPeriod | TemplateNotFound | MissingTemplate | StrategyNotFound | InvalidAmount | Overflow

type_synonym 'a tax_result = "(tax_error, 'a) result"

datatype strategy_kind = Flat | Progressive | Template

record tax_bracket =
  tb_threshold :: int
  tb_rate_bps :: nat

record strategy_config =
  sc_kind :: strategy_kind
  sc_flat_bps :: nat
  sc_brackets :: "tax_bracket list"
  sc_template :: "nat option"
  sc_reserve_wallet :: addr
  sc_deduction_bps :: nat
  sc_deduction_wallet :: "addr option"
  sc_period_ledgers :: nat

record tax_strategy =
  ts_creator :: addr
  ts_config :: strategy_config
  ts_updated_at :: nat

record period_summary =
  ps_start_ledger :: nat
  ps_gross_income :: int
  ps_taxable_income :: int
  ps_deducted :: int
  ps_reserved :: int
  ps_net_paid :: int

record income_breakdown =
  ib_gross :: int
  ib_deducted :: int
  ib_taxable :: int
  ib_reserved :: int
  ib_net :: int
  ib_effective_rate_bps :: int

datatype tax_event =
    TeTemplateSet nat nat
  | TeTemplateRemoved nat
  | TeStrategySet addr strategy_kind nat nat
  | TeStrategyRemoved addr
  | TeIncome addr addr int int int int
  | TePeriodClosed addr nat int int int int

record tax_state =
  tx_admin :: "addr option"
  tx_templates :: "nat \<rightharpoonup> tax_bracket list"
  tx_strategies :: "addr \<rightharpoonup> tax_strategy"
  tx_periods :: "addr \<rightharpoonup> period_summary"
  tx_last_periods :: "addr \<rightharpoonup> period_summary"
  tx_log :: "tax_event action list"

definition empty_tax :: tax_state where
  "empty_tax = \<lparr>tx_admin = None, tx_templates = Map.empty, tx_strategies = Map.empty,
    tx_periods = Map.empty, tx_last_periods = Map.empty, tx_log = []\<rparr>"

definition TAX_BPS_DENOMINATOR :: int where "TAX_BPS_DENOMINATOR = 10000"

definition MAX_RATE_BPS :: nat where "MAX_RATE_BPS = 6000"

definition MAX_DEDUCTION_BPS :: nat where "MAX_DEDUCTION_BPS = 3000"

definition MAX_BRACKETS :: nat where "MAX_BRACKETS = 10"

definition MIN_PERIOD_LEDGERS :: nat where "MIN_PERIOD_LEDGERS = 120960"

definition MAX_PERIOD_LEDGERS :: nat where "MAX_PERIOD_LEDGERS = 12614400"


section \<open>Operations\<close>

definition tlog :: "tax_event action \<Rightarrow> tax_state \<Rightarrow> tax_state" where
  "tlog x s = s\<lparr>tx_log := tx_log s @ [x]\<rparr>"

definition tax_require_admin :: "'x ledger_env_scheme \<Rightarrow> addr \<Rightarrow> tax_state \<Rightarrow> unit tax_result" where
  "tax_require_admin e admin s =
    bindr (ok_or (tx_admin s) (Err NotInitialized)) (\<lambda>stored.
    if stored \<noteq> admin then Inl (Err NotAdmin) else require_auth e admin)"

fun bracket_loop :: "tax_bracket list \<Rightarrow> int option \<Rightarrow> unit tax_result" where
  "bracket_loop [] prev = Inr ()"
| "bracket_loop (b # bs) prev =
    (if MAX_RATE_BPS < tb_rate_bps b then Inl (Err InvalidRate)
     else
       (case prev of
          None \<Rightarrow> if tb_threshold b \<noteq> 0 then Inl (Err InvalidBrackets)
            else bracket_loop bs (Some (tb_threshold b))
        | Some p \<Rightarrow> if tb_threshold b \<le> p then Inl (Err InvalidBrackets)
            else bracket_loop bs (Some (tb_threshold b))))"

definition validate_brackets :: "tax_bracket list \<Rightarrow> unit tax_result" where
  "validate_brackets brackets =
    (if brackets = [] \<or> MAX_BRACKETS < length brackets then Inl (Err InvalidBrackets)
     else bracket_loop brackets None)"

definition validate_tax_config :: "tax_state \<Rightarrow> strategy_config \<Rightarrow> unit tax_result" where
  "validate_tax_config s config =
    bindr (case sc_kind config of
        Flat \<Rightarrow> if MAX_RATE_BPS < sc_flat_bps config then Inl (Err InvalidRate) else Inr ()
      | Progressive \<Rightarrow> validate_brackets (sc_brackets config)
      | Template \<Rightarrow>
          bindr (ok_or (sc_template config) (Err MissingTemplate)) (\<lambda>name.
          if tx_templates s name = None then Inl (Err TemplateNotFound) else Inr ())) (\<lambda>_.
    if MAX_DEDUCTION_BPS < sc_deduction_bps config
        \<or> (0 < sc_deduction_bps config \<and> sc_deduction_wallet config = None)
      then Inl (Err InvalidDeduction)
    else if \<not> (MIN_PERIOD_LEDGERS \<le> sc_period_ledgers config \<and> sc_period_ledgers config \<le> MAX_PERIOD_LEDGERS)
      then Inl (Err InvalidPeriod)
    else Inr ())"

fun tax_loop :: "int \<Rightarrow> int \<Rightarrow> tax_bracket list \<Rightarrow> int \<Rightarrow> int tax_result" where
  "tax_loop start stop [] tax = Inr tax"
| "tax_loop start stop (b # bs) tax =
    (let upper = (case bs of [] \<Rightarrow> i128_max | b' # _ \<Rightarrow> tb_threshold b');
         lo = max start (tb_threshold b);
         hi = min stop upper
     in if lo < hi then
          bindr (arith (hi - lo)) (\<lambda>width.
          bindr (ok_or (checked_i128 (width * int (tb_rate_bps b))) (Err Overflow)) (\<lambda>p.
          bindr (ok_or (checked_i128 (tax + p sdiv TAX_BPS_DENOMINATOR)) (Err Overflow)) (\<lambda>tax'.
          tax_loop start stop bs tax')))
        else tax_loop start stop bs tax)"

definition marginal_tax :: "tax_bracket list \<Rightarrow> int \<Rightarrow> int \<Rightarrow> int tax_result" where
  "marginal_tax brackets prior amount =
    bindr (ok_or (checked_i128 (prior + amount)) (Err Overflow)) (\<lambda>stop.
    tax_loop prior stop brackets 0)"

definition load_template :: "tax_state \<Rightarrow> nat \<Rightarrow> tax_bracket list tax_result" where
  "load_template s name = ok_or (tx_templates s name) (Err TemplateNotFound)"

definition as_u32 :: "int \<Rightarrow> int" where
  "as_u32 x = x mod 2 ^ 32"

definition compute_breakdown ::
  "tax_state \<Rightarrow> strategy_config \<Rightarrow> int \<Rightarrow> int \<Rightarrow> income_breakdown tax_result" where
  "compute_breakdown s config prior_taxable gross =
    (if gross \<le> 0 then Inl (Err InvalidAmount)
     else
       bindr (ok_or (checked_i128 (gross * int (sc_deduction_bps config))) (Err Overflow)) (\<lambda>p.
       let deducted = p sdiv TAX_BPS_DENOMINATOR in
       bindr (arith (gross - deducted)) (\<lambda>taxable.
       bindr (case sc_kind config of
           Flat \<Rightarrow>
             bindr (ok_or (checked_i128 (taxable * int (sc_flat_bps config))) (Err Overflow)) (\<lambda>q.
             Inr (q sdiv TAX_BPS_DENOMINATOR))
         | Progressive \<Rightarrow> marginal_tax (sc_brackets config) prior_taxable taxable
         | Template \<Rightarrow>
             bindr (ok_or (sc_template config) (Err MissingTemplate)) (\<lambda>name.
             bindr (load_template s name) (\<lambda>brackets. marginal_tax brackets prior_taxable taxable)))
         (\<lambda>reserved.
       bindr (arith (taxable - reserved)) (\<lambda>net.
       bindr (ok_or (checked_i128 (reserved * TAX_BPS_DENOMINATOR)) (Err Overflow)) (\<lambda>r.
       Inr \<lparr>ib_gross = gross, ib_deducted = deducted, ib_taxable = taxable, ib_reserved = reserved,
         ib_net = net, ib_effective_rate_bps = as_u32 (r sdiv gross)\<rparr>))))))"

definition new_period :: "nat \<Rightarrow> period_summary" where
  "new_period start_ledger = \<lparr>ps_start_ledger = start_ledger, ps_gross_income = 0,
    ps_taxable_income = 0, ps_deducted = 0, ps_reserved = 0, ps_net_paid = 0\<rparr>"

definition current_period ::
  "'x ledger_env_scheme \<Rightarrow> addr \<Rightarrow> nat \<Rightarrow> bool \<Rightarrow> tax_state \<Rightarrow> period_summary \<times> tax_state" where
  "current_period e creator period_ledgers roll s =
    (case tx_periods s creator of
       Some p \<Rightarrow>
         if sequence e < sat_add u32_max (ps_start_ledger p) period_ledgers then (p, s)
         else (new_period (sequence e),
           if roll then
             tlog (Event (TePeriodClosed creator (ps_start_ledger p) (ps_gross_income p) (ps_deducted p)
               (ps_reserved p) (ps_net_paid p)))
               (s\<lparr>tx_last_periods := (tx_last_periods s)(creator \<mapsto> p)\<rparr>)
           else s)
     | None \<Rightarrow> (new_period (sequence e), s))"

definition load_strategy :: "tax_state \<Rightarrow> addr \<Rightarrow> tax_strategy tax_result" where
  "load_strategy s creator = ok_or (tx_strategies s creator) (Err StrategyNotFound)"

definition tax_initialize :: "addr \<Rightarrow> tax_state \<Rightarrow> tax_state tax_result" where
  "tax_initialize admin s =
    (if tx_admin s \<noteq> None then Inl (Err AlreadyInitialized) else Inr (s\<lparr>tx_admin := Some admin\<rparr>))"

definition set_template ::
  "'x ledger_env_scheme \<Rightarrow> addr \<Rightarrow> nat \<Rightarrow> tax_bracket list \<Rightarrow> tax_state \<Rightarrow> tax_state tax_result" where
  "set_template e admin name brackets s =
    bindr (tax_require_admin e admin s) (\<lambda>_.
    bindr (validate_brackets brackets) (\<lambda>_.
    Inr (tlog (Event (TeTemplateSet name (length brackets)))
      (s\<lparr>tx_templates := (tx_templates s)(name \<mapsto> brackets)\<rparr>))))"

definition remove_template ::
  "'x ledger_env_scheme \<Rightarrow> addr \<Rightarrow> nat \<Rightarrow> tax_state \<Rightarrow> tax_state tax_result" where
  "remove_template e admin name s =
    bindr (tax_require_admin e admin s) (\<lambda>_.
    if tx_templates s name = None then Inl (Err TemplateNotFound)
    else Inr (tlog (Event (TeTemplateRemoved name))
      (s\<lparr>tx_templates := (tx_templates s)(name := None)\<rparr>)))"

definition set_strategy ::
  "'x ledger_env_scheme \<Rightarrow> addr \<Rightarrow> strategy_config \<Rightarrow> tax_state \<Rightarrow> tax_state tax_result" where
  "set_strategy e creator config s =
    bindr (require_auth e creator) (\<lambda>_.
    if tx_admin s = None then Inl (Err NotInitialized)
    else
      bindr (validate_tax_config s config) (\<lambda>_.
      let strategy = \<lparr>ts_creator = creator, ts_config = config, ts_updated_at = timestamp e\<rparr>
      in Inr (tlog (Event (TeStrategySet creator (sc_kind config) (sc_deduction_bps config)
           (sc_period_ledgers config))) (s\<lparr>tx_strategies := (tx_strategies s)(creator \<mapsto> strategy)\<rparr>))))"

definition remove_strategy :: "'x ledger_env_scheme \<Rightarrow> addr \<Rightarrow> tax_state \<Rightarrow> tax_state tax_result" where
  "remove_strategy e creator s =
    bindr (require_auth e creator) (\<lambda>_.
    if tx_strategies s creator = None then Inl (Err StrategyNotFound)
    else Inr (tlog (Event (TeStrategyRemoved creator))
      (s\<lparr>tx_strategies := (tx_strategies s)(creator := None)\<rparr>)))"

definition route_income ::
  "addr \<Rightarrow> addr \<Rightarrow> addr \<Rightarrow> strategy_config \<Rightarrow> income_breakdown \<Rightarrow> tax_state \<Rightarrow> tax_state" where
  "route_income payer creator token config b s =
    (let s1 = (if 0 < ib_deducted b then
                 (case sc_deduction_wallet config of
                    Some wallet \<Rightarrow> tlog (Sent token payer wallet (ib_deducted b)) s
                  | None \<Rightarrow> s)
               else s);
         s2 = (if 0 < ib_reserved b then tlog (Sent token payer (sc_reserve_wallet config) (ib_reserved b)) s1
               else s1)
     in if 0 < ib_net b then tlog (Sent token payer creator (ib_net b)) s2 else s2)"

definition add_period :: "period_summary \<Rightarrow> income_breakdown \<Rightarrow> period_summary tax_result" where
  "add_period p b =
    bindr (ok_or (checked_i128 (ps_gross_income p + ib_gross b)) (Err Overflow)) (\<lambda>g.
    bindr (ok_or (checked_i128 (ps_taxable_income p + ib_taxable b)) (Err Overflow)) (\<lambda>t.
    bindr (ok_or (checked_i128 (ps_deducted p + ib_deducted b)) (Err Overflow)) (\<lambda>d.
    bindr (ok_or (checked_i128 (ps_reserved p + ib_reserved b)) (Err Overflow)) (\<lambda>r.
    bindr (ok_or (checked_i128 (ps_net_paid p + ib_net b)) (Err Overflow)) (\<lambda>n.
    Inr (p\<lparr>ps_gross_income := g, ps_taxable_income := t, ps_deducted := d, ps_reserved := r,
      ps_net_paid := n\<rparr>))))))"

definition process_income ::
  "'x ledger_env_scheme \<Rightarrow> addr \<Rightarrow> addr \<Rightarrow> addr \<Rightarrow> int \<Rightarrow> tax_state
    \<Rightarrow> (income_breakdown \<times> tax_state) tax_result" where
  "process_income e payer creator token gross s =
    bindr (require_auth e payer) (\<lambda>_.
    bindr (load_strategy s creator) (\<lambda>strategy.
    let config = ts_config strategy in
    case current_period e creator (sc_period_ledgers config) True s of
      (period, s1) \<Rightarrow>
        bindr (compute_breakdown s1 config (ps_taxable_income period) gross) (\<lambda>b.
        let s2 = route_income payer creator token config b s1 in
        bindr (add_period period b) (\<lambda>period'.
        Inr (b, tlog (Event (TeIncome creator token (ib_gross b) (ib_deducted b) (ib_reserved b) (ib_net b)))
          (s2\<lparr>tx_periods := (tx_periods s2)(creator \<mapsto> period')\<rparr>))))))"

definition tax_estimate ::
  "'x ledger_env_scheme \<Rightarrow> addr \<Rightarrow> int \<Rightarrow> tax_state \<Rightarrow> income_breakdown tax_result" where
  "tax_estimate e creator gross s =
    bindr (load_strategy s creator) (\<lambda>strategy.
    compute_breakdown s (ts_config strategy)
      (ps_taxable_income (fst (current_period e creator (sc_period_ledgers (ts_config strategy)) False s))) gross)"

definition estimate_config ::
  "'x ledger_env_scheme \<Rightarrow> addr \<Rightarrow> strategy_config \<Rightarrow> int \<Rightarrow> tax_state \<Rightarrow> income_breakdown tax_result" where
  "estimate_config e creator config gross s =
    bindr (validate_tax_config s config) (\<lambda>_.
    compute_breakdown s config
      (ps_taxable_income (fst (current_period e creator (sc_period_ledgers config) False s))) gross)"

definition get_period :: "'x ledger_env_scheme \<Rightarrow> addr \<Rightarrow> tax_state \<Rightarrow> period_summary" where
  "get_period e creator s =
    fst (current_period e creator
      (case tx_strategies s creator of Some st \<Rightarrow> sc_period_ledgers (ts_config st) | None \<Rightarrow> MAX_PERIOD_LEDGERS)
      False s)"

datatype tax_call =
    TxInitialize addr
  | TxSetTemplate addr nat "tax_bracket list"
  | TxRemoveTemplate addr nat
  | TxSetStrategy addr strategy_config
  | TxRemoveStrategy addr
  | TxProcessIncome addr addr addr int

fun tax_exec :: "ledger_env \<Rightarrow> tax_call \<Rightarrow> tax_state \<Rightarrow> tax_state tax_result" where
  "tax_exec e (TxInitialize a) s = tax_initialize a s"
| "tax_exec e (TxSetTemplate a n bs) s = set_template e a n bs s"
| "tax_exec e (TxRemoveTemplate a n) s = remove_template e a n s"
| "tax_exec e (TxSetStrategy c cfg) s = set_strategy e c cfg s"
| "tax_exec e (TxRemoveStrategy c) s = remove_strategy e c s"
| "tax_exec e (TxProcessIncome p c t g) s = bindr (process_income e p c t g s) (\<lambda>(_, s'). Inr s')"



section \<open>The bracket loop computes the marginal tax\<close>

definition overlap :: "int \<Rightarrow> int \<Rightarrow> int \<Rightarrow> int \<Rightarrow> int" where
  "overlap s e t u = max 0 (min e u - max s t)"

definition upper_of :: "tax_bracket list \<Rightarrow> int" where
  "upper_of bs = (case bs of [] \<Rightarrow> i128_max | b # _ \<Rightarrow> tb_threshold b)"

text \<open>The reference definition: per bracket, the floor of the rate on the part of the income that
  falls into the bracket.\<close>

fun bracket_tax :: "int \<Rightarrow> int \<Rightarrow> tax_bracket list \<Rightarrow> int" where
  "bracket_tax s e [] = 0"
| "bracket_tax s e (b # bs) =
    overlap s e (tb_threshold b) (upper_of bs) * int (tb_rate_bps b) div 10000 + bracket_tax s e bs"

lemma tax_loop_Inr: "tax_loop s e bs tax = Inr v \<Longrightarrow> v = tax + bracket_tax s e bs"
proof (induction bs arbitrary: tax)
  case Nil
  then show ?case by simp
next
  case (Cons b bs)
  let ?lo = "max s (tb_threshold b)" and ?hi = "min e (upper_of bs)"
  show ?case
  proof (cases "?lo < ?hi")
    case True
    then have ov: "overlap s e (tb_threshold b) (upper_of bs) = ?hi - ?lo" by (simp add: overlap_def)
    have nn: "0 \<le> (?hi - ?lo) * int (tb_rate_bps b)" using True by simp
    have "tax_loop s e bs (tax + (?hi - ?lo) * int (tb_rate_bps b) div 10000) = Inr v"
      using Cons.prems True nn unfolding tax_loop.simps Let_def upper_of_def [symmetric]
      by (auto simp: result_simps TAX_BPS_DENOMINATOR_def)
    from Cons.IH [OF this] show ?thesis by (simp add: ov)
  next
    case False
    then have "?hi - ?lo \<le> 0" by linarith
    then have "overlap s e (tb_threshold b) (upper_of bs) = 0" unfolding overlap_def by (rule max_absorb1)
    moreover have "tax_loop s e bs tax = Inr v"
      using Cons.prems unfolding tax_loop.simps Let_def upper_of_def [symmetric] if_not_P [OF False] .
    ultimately show ?thesis using Cons.IH by simp
  qed
qed

lemma marginal_tax_Inr:
  "marginal_tax bs prior amount = Inr v \<Longrightarrow> v = bracket_tax prior (prior + amount) bs
    \<and> fits_i128 (prior + amount)"
  by (auto simp: marginal_tax_def result_simps dest: tax_loop_Inr)

lemma overlap_add: "s \<le> m \<Longrightarrow> m \<le> e \<Longrightarrow> overlap s e t u = overlap s m t u + overlap m e t u"
  by (simp add: overlap_def max_def min_def)

lemma floor_add_bounds:
  assumes "0 < (d::int)"
  shows "x div d + y div d \<le> (x + y) div d" "(x + y) div d \<le> x div d + y div d + 1"
proof -
  have "(x + y) div d = x div d + y div d + (x mod d + y mod d) div d"
    by (rule div_add1_eq)
  moreover have "0 \<le> (x mod d + y mod d) div d"
    using assms by (simp add: pos_imp_zdiv_nonneg_iff)
  moreover have "(x mod d + y mod d) div d < 2"
  proof -
    have "x mod d + y mod d < 2 * d" using pos_mod_bound [OF assms, of x] pos_mod_bound [OF assms, of y] by simp
    then show ?thesis
      using assms div_mult_mod_eq [of "x mod d + y mod d" d] pos_mod_sign [OF assms, of "x mod d + y mod d"]
        mult_right_mono [of 2 "(x mod d + y mod d) div d" d] by linarith
  qed
  ultimately show "x div d + y div d \<le> (x + y) div d" "(x + y) div d \<le> x div d + y div d + 1" by linarith+
qed

lemma bracket_tax_split:
  assumes "s \<le> m" and "m \<le> e"
  shows "bracket_tax s m bs + bracket_tax m e bs \<le> bracket_tax s e bs
    \<and> bracket_tax s e bs \<le> bracket_tax s m bs + bracket_tax m e bs + int (length bs)"
proof (induction bs)
  case Nil
  then show ?case by simp
next
  case (Cons b bs)
  let ?r = "int (tb_rate_bps b)"
  let ?x = "overlap s m (tb_threshold b) (upper_of bs) * ?r"
  let ?y = "overlap m e (tb_threshold b) (upper_of bs) * ?r"
  have "overlap s e (tb_threshold b) (upper_of bs) * ?r = ?x + ?y"
    by (simp add: overlap_add [OF assms] distrib_right)
  then show ?case using Cons floor_add_bounds [of 10000 ?x ?y] by simp
qed

text \<open>
  C25: The bracket loop is equivalent to the reference definition of the marginal tax, and it cannot
  be dodged by splitting a payment: the tax of two payments in a row is at most the tax of their sum
  and less by at most one unit per bracket, so that the period's cumulative income decides the rate.
\<close>

theorem marginal_tax_split:
  assumes "marginal_tax bs p a = Inr x" and "marginal_tax bs (p + a) b = Inr y"
    and "marginal_tax bs p (a + b) = Inr z" and "0 \<le> a" and "0 \<le> b"
  shows "z = bracket_tax p (p + (a + b)) bs \<and> x + y \<le> z \<and> z \<le> x + y + int (length bs)"
proof -
  have "x = bracket_tax p (p + a) bs" "y = bracket_tax (p + a) (p + (a + b)) bs"
    "z = bracket_tax p (p + (a + b)) bs"
    using assms(1-3) by (auto dest: marginal_tax_Inr simp: add.assoc)
  then show ?thesis using bracket_tax_split [of p "p + a" "p + (a + b)" bs] assms(4,5) by simp
qed

theorem marginal_tax_split_witness:
  "\<exists>bs. marginal_tax bs 0 1500 = Inr 200 \<and> marginal_tax bs 0 999 = Inr 99 \<and> marginal_tax bs 999 501 = Inr 100
    \<and> (99 + 100 :: int) \<le> 200"
proof -
  let ?bs = "[\<lparr>tb_threshold = 0, tb_rate_bps = 1000\<rparr>, \<lparr>tb_threshold = 1000, tb_rate_bps = 2000\<rparr>]"
  have m: "marginal_tax ?bs 0 999 = Inr 99" "marginal_tax ?bs (0 + 999) 501 = Inr 100"
    "marginal_tax ?bs 0 (999 + 501) = Inr 200"
    by (simp_all add: marginal_tax_def checked_i128_def arith_def rust_int TAX_BPS_DENOMINATOR_def)
  from marginal_tax_split [OF m] m show ?thesis by (intro exI [of _ ?bs]) simp
qed


section \<open>Breakdowns\<close>

fun overlaps :: "int \<Rightarrow> int \<Rightarrow> tax_bracket list \<Rightarrow> int" where
  "overlaps s e [] = 0"
| "overlaps s e (b # bs) = overlap s e (tb_threshold b) (upper_of bs) + overlaps s e bs"

lemma overlaps_le:
  "bracket_loop (b # bs) prev = Inr u \<Longrightarrow> e \<le> i128_max \<Longrightarrow>
    overlaps s e (b # bs) \<le> max 0 (e - max s (tb_threshold b))"
proof (induction bs arbitrary: b prev)
  case Nil
  then show ?case by (simp add: overlap_def upper_of_def)
next
  case (Cons c bs)
  have lp: "bracket_loop (c # bs) (Some (tb_threshold b)) = Inr u"
    using Cons.prems(1) by (auto split: if_splits option.splits)
  then have lt: "tb_threshold b < tb_threshold c" by (auto split: if_splits)
  have "overlaps s e (c # bs) \<le> max 0 (e - max s (tb_threshold c))"
    by (rule Cons.IH [OF lp Cons.prems(2)])
  moreover have "overlap s e (tb_threshold b) (tb_threshold c) + max 0 (e - max s (tb_threshold c))
      \<le> max 0 (e - max s (tb_threshold b))"
    using lt by (simp add: overlap_def max_def min_def)
  ultimately show ?case by (simp add: upper_of_def)
qed

lemma bracket_tax_bounds:
  "bracket_loop bs prev = Inr u \<Longrightarrow>
    0 \<le> bracket_tax s e bs \<and> bracket_tax s e bs * 10000 \<le> overlaps s e bs * 6000"
proof (induction bs arbitrary: prev)
  case Nil
  then show ?case by simp
next
  case (Cons b bs)
  have rate: "int (tb_rate_bps b) \<le> 6000" using Cons.prems by (auto simp: MAX_RATE_BPS_def split: if_splits)
  have "\<exists>prev. bracket_loop bs prev = Inr u" using Cons.prems by (auto split: if_splits option.splits)
  then have IH: "0 \<le> bracket_tax s e bs \<and> bracket_tax s e bs * 10000 \<le> overlaps s e bs * 6000"
    using Cons.IH by blast
  let ?o = "overlap s e (tb_threshold b) (upper_of bs)"
  have o0: "0 \<le> ?o" by (simp add: overlap_def)
  then have "?o * int (tb_rate_bps b) \<le> ?o * 6000" using rate by (rule mult_left_mono [rotated])
  then have "?o * int (tb_rate_bps b) div 10000 * 10000 \<le> ?o * 6000"
    using div_mult_mod_eq [of "?o * int (tb_rate_bps b)" 10000]
      pos_mod_sign [of 10000 "?o * int (tb_rate_bps b)"] by linarith
  moreover have "0 \<le> ?o * int (tb_rate_bps b) div 10000" using o0 by (simp add: pos_imp_zdiv_nonneg_iff)
  ultimately show ?case using IH by simp
qed

lemma marginal_tax_bounds:
  assumes "validate_brackets bs = Inr u" and "marginal_tax bs p a = Inr v" and "0 \<le> a"
  shows "0 \<le> v \<and> v * 10000 \<le> a * 6000"
proof -
  from assms(1) obtain b bs' where bs: "bs = b # bs'" and lp: "bracket_loop bs None = Inr u"
    by (cases bs) (auto simp: validate_brackets_def split: if_splits)
  have v: "v = bracket_tax p (p + a) bs" and f: "p + a \<le> i128_max"
    using marginal_tax_Inr [OF assms(2)] by (simp_all add: fits_i128_def)
  have "overlaps p (p + a) bs \<le> max 0 (p + a - max p (tb_threshold b))"
    using overlaps_le [OF lp [unfolded bs] f] bs by simp
  also have "\<dots> \<le> a" using assms(3) by simp
  finally show ?thesis using bracket_tax_bounds [OF lp, of p "p + a"] v by simp
qed

lemma flat_tax_bounds:
  assumes "0 \<le> (a::int)" and "r \<le> m"
  shows "0 \<le> a * int r div 10000 \<and> a * int r div 10000 * 10000 \<le> a * int m"
proof -
  have "a * int r \<le> a * int m" using assms by (intro mult_left_mono) auto
  moreover have "a * int r div 10000 * 10000 \<le> a * int r"
    using div_mult_mod_eq [of "a * int r" 10000] pos_mod_sign [of 10000 "a * int r"] by linarith
  ultimately show ?thesis using assms(1) by (simp add: pos_imp_zdiv_nonneg_iff)
qed

definition config_ok :: "strategy_config \<Rightarrow> bool" where
  "config_ok c \<longleftrightarrow>
    (sc_kind c = Flat \<longrightarrow> sc_flat_bps c \<le> MAX_RATE_BPS)
    \<and> (sc_kind c = Progressive \<longrightarrow> validate_brackets (sc_brackets c) = Inr ())
    \<and> (sc_kind c = Template \<longrightarrow> sc_template c \<noteq> None)
    \<and> sc_deduction_bps c \<le> MAX_DEDUCTION_BPS
    \<and> (0 < sc_deduction_bps c \<longrightarrow> sc_deduction_wallet c \<noteq> None)
    \<and> MIN_PERIOD_LEDGERS \<le> sc_period_ledgers c \<and> sc_period_ledgers c \<le> MAX_PERIOD_LEDGERS"

lemma validate_tax_config_ok: "validate_tax_config s c = Inr u \<Longrightarrow> config_ok c"
  by (cases "sc_kind c") (auto simp: validate_tax_config_def config_ok_def result_simps split: if_splits)

definition breakdown_ok :: "int \<Rightarrow> income_breakdown \<Rightarrow> bool" where
  "breakdown_ok gross b \<longleftrightarrow> ib_gross b = gross
    \<and> ib_gross b = ib_deducted b + ib_taxable b \<and> ib_taxable b = ib_reserved b + ib_net b
    \<and> 0 < gross \<and> 0 \<le> ib_deducted b \<and> 0 \<le> ib_reserved b \<and> 0 < ib_net b
    \<and> ib_deducted b * 10000 \<le> gross * 3000 \<and> ib_reserved b * 10000 \<le> ib_taxable b * 6000
    \<and> ib_effective_rate_bps b = ib_reserved b * 10000 div gross \<and> ib_effective_rate_bps b \<le> 6000"

lemma compute_breakdown_ok:
  assumes cfg: "config_ok c"
    and tmpl: "\<And>n bs. tx_templates s n = Some bs \<Longrightarrow> validate_brackets bs = Inr ()"
    and cb: "compute_breakdown s c prior gross = Inr b"
  shows "breakdown_ok gross b"
proof -
  let ?d = "gross * int (sc_deduction_bps c) div 10000"
  from cb have g: "0 < gross" by (simp add: compute_breakdown_def split: if_splits)
  have d: "0 \<le> ?d" "?d * 10000 \<le> gross * 3000"
    using flat_tax_bounds [of gross "sc_deduction_bps c" 3000] g cfg
    by (simp_all add: config_ok_def MAX_DEDUCTION_BPS_def)
  have t: "0 < gross - ?d" using d(2) g by linarith
  from cb g obtain r where
    r: "case sc_kind c of
        Flat \<Rightarrow> r = (gross - ?d) * int (sc_flat_bps c) div 10000
      | Progressive \<Rightarrow> marginal_tax (sc_brackets c) prior (gross - ?d) = Inr r
      | Template \<Rightarrow> \<exists>n bs. tx_templates s n = Some bs \<and> marginal_tax bs prior (gross - ?d) = Inr r"
    and b: "b = \<lparr>ib_gross = gross, ib_deducted = ?d, ib_taxable = gross - ?d, ib_reserved = r,
         ib_net = gross - ?d - r, ib_effective_rate_bps = as_u32 (r * 10000 sdiv gross)\<rparr>"
    using t by (auto simp: compute_breakdown_def TAX_BPS_DENOMINATOR_def result_simps Let_def load_template_def
        split: strategy_kind.splits)
  have "0 \<le> r \<and> r * 10000 \<le> (gross - ?d) * 6000"
  proof (cases "sc_kind c")
    case Flat
    then show ?thesis using flat_tax_bounds [of "gross - ?d" "sc_flat_bps c" 6000] r t cfg
      by (simp add: config_ok_def MAX_RATE_BPS_def)
  next
    case Progressive
    then have "validate_brackets (sc_brackets c) = Inr ()" "marginal_tax (sc_brackets c) prior (gross - ?d) = Inr r"
      using r cfg by (simp_all add: config_ok_def)
    then show ?thesis using marginal_tax_bounds t by (blast intro: less_imp_le)
  next
    case Template
    then obtain n bs where "tx_templates s n = Some bs" "marginal_tax bs prior (gross - ?d) = Inr r"
      using r by auto
    then show ?thesis using tmpl marginal_tax_bounds t by (blast intro: less_imp_le)
  qed
  then have r0: "0 \<le> r" and r1: "r * 10000 \<le> (gross - ?d) * 6000" by auto
  have "r * 10000 \<le> gross * 6000" using r1 d(1) by (simp add: left_diff_distrib)
  then have "r * 10000 div gross \<le> 6000" using g zdiv_mono1 [of "r * 10000" "gross * 6000" gross] by simp
  moreover have "0 \<le> r * 10000 div gross" using r0 g by (simp add: pos_imp_zdiv_nonneg_iff)
  ultimately show ?thesis using b r0 r1 d g t by (simp add: breakdown_ok_def as_u32_def)
qed


section \<open>Runs\<close>

definition period_ok :: "period_summary \<Rightarrow> bool" where
  "period_ok p \<longleftrightarrow> ps_gross_income p = ps_deducted p + ps_taxable_income p
    \<and> ps_taxable_income p = ps_reserved p + ps_net_paid p
    \<and> 0 \<le> ps_deducted p \<and> 0 \<le> ps_reserved p \<and> 0 \<le> ps_net_paid p
    \<and> ps_deducted p * 10000 \<le> ps_gross_income p * 3000
    \<and> ps_reserved p * 10000 \<le> ps_taxable_income p * 6000"

definition tax_ok :: "tax_state \<Rightarrow> bool" where
  "tax_ok s \<longleftrightarrow>
    (\<forall>n bs. tx_templates s n = Some bs \<longrightarrow> validate_brackets bs = Inr ())
    \<and> (\<forall>c st. tx_strategies s c = Some st \<longrightarrow> ts_creator st = c \<and> config_ok (ts_config st))
    \<and> (\<forall>c p. tx_periods s c = Some p \<or> tx_last_periods s c = Some p \<longrightarrow> period_ok p)"

lemma tlog_sel [simp]:
  "tx_admin (tlog x s) = tx_admin s" "tx_templates (tlog x s) = tx_templates s"
  "tx_strategies (tlog x s) = tx_strategies s" "tx_periods (tlog x s) = tx_periods s"
  "tx_last_periods (tlog x s) = tx_last_periods s" "tx_log (tlog x s) = tx_log s @ [x]"
  by (simp_all add: tlog_def)

lemma route_income_sel [simp]:
  "tx_admin (route_income p c t cfg b s) = tx_admin s"
  "tx_templates (route_income p c t cfg b s) = tx_templates s"
  "tx_strategies (route_income p c t cfg b s) = tx_strategies s"
  "tx_periods (route_income p c t cfg b s) = tx_periods s"
  "tx_last_periods (route_income p c t cfg b s) = tx_last_periods s"
  by (simp_all add: route_income_def Let_def split: option.splits)

lemma new_period_ok [simp]: "period_ok (new_period n)"
  by (simp add: period_ok_def new_period_def)

lemma add_period_ok:
  assumes "period_ok p" and "breakdown_ok g b" and "add_period p b = Inr p'"
  shows "period_ok p'"
  using assms by (auto simp: add_period_def result_simps period_ok_def breakdown_ok_def)

lemma current_period_sel:
  assumes "current_period e c n roll s = (p, s1)"
  shows "tx_templates s1 = tx_templates s" "tx_strategies s1 = tx_strategies s" "tx_periods s1 = tx_periods s"
    "tx_admin s1 = tx_admin s" "inflow a t (tx_log s1) = inflow a t (tx_log s)"
    "p = fst (current_period e c n False s)"
    "tax_ok s \<Longrightarrow> period_ok p \<and> tax_ok s1"
  using assms
  by (auto simp: current_period_def tax_ok_def split: option.splits if_splits)

lemma process_income_cases:
  assumes "process_income e payer creator token gross s = Inr (b, s')"
  obtains st period s1 period' where "auth e payer" "tx_strategies s creator = Some st"
    "current_period e creator (sc_period_ledgers (ts_config st)) True s = (period, s1)"
    "compute_breakdown s1 (ts_config st) (ps_taxable_income period) gross = Inr b"
    "add_period period b = Inr period'"
    "s' = tlog (Event (TeIncome creator token (ib_gross b) (ib_deducted b) (ib_reserved b) (ib_net b)))
      ((route_income payer creator token (ts_config st) b s1)
        \<lparr>tx_periods := (tx_periods s)(creator \<mapsto> period')\<rparr>)"
proof -
  from assms obtain st where st: "auth e payer" "tx_strategies s creator = Some st"
    by (auto simp: process_income_def load_strategy_def result_simps)
  obtain period s1 where cp: "current_period e creator (sc_period_ledgers (ts_config st)) True s = (period, s1)"
    by fastforce
  show ?thesis
    using assms st cp by (auto simp: process_income_def load_strategy_def result_simps Let_def
      current_period_sel [OF cp] intro: that)
qed

lemma process_income_ok:
  assumes ok: "tax_ok s" and "process_income e payer creator token gross s = Inr (b, s')"
  shows "tax_ok s' \<and> breakdown_ok gross b"
  using assms(2)
proof (rule process_income_cases)
  fix st period s1 period'
  assume st: "tx_strategies s creator = Some st"
    and cp: "current_period e creator (sc_period_ledgers (ts_config st)) True s = (period, s1)"
    and cb: "compute_breakdown s1 (ts_config st) (ps_taxable_income period) gross = Inr b"
    and ap: "add_period period b = Inr period'"
    and s': "s' = tlog (Event (TeIncome creator token (ib_gross b) (ib_deducted b) (ib_reserved b) (ib_net b)))
      ((route_income payer creator token (ts_config st) b s1)\<lparr>tx_periods := (tx_periods s)(creator \<mapsto> period')\<rparr>)"
  note sel = current_period_sel [OF cp]
  have b: "breakdown_ok gross b"
    by (rule compute_breakdown_ok [OF _ _ cb]) (use ok st sel in \<open>auto simp: tax_ok_def\<close>)
  have "period_ok period'" by (rule add_period_ok [OF _ b ap]) (use sel(7) ok in simp)
  then show ?thesis using b sel(7) [OF ok] sel(1-3) by (auto simp: s' tax_ok_def)
qed

lemma tax_config_ok:
  assumes "tax_ok s"
  shows "tax_initialize a s = Inr s' \<Longrightarrow> tax_ok s'"
    and "set_template e a n bs s = Inr s' \<Longrightarrow> tax_ok s'"
    and "remove_template e a n s = Inr s' \<Longrightarrow> tax_ok s'"
    and "set_strategy e c cfg s = Inr s' \<Longrightarrow> tax_ok s'"
    and "remove_strategy e c s = Inr s' \<Longrightarrow> tax_ok s'"
  using assms validate_tax_config_ok [of s cfg "()"]
  by (auto simp: tax_initialize_def set_template_def remove_template_def set_strategy_def remove_strategy_def
      tax_ok_def result_simps Let_def split: if_splits)

lemma tax_exec_ok: "tax_ok s \<Longrightarrow> tax_exec e c s = Inr s' \<Longrightarrow> tax_ok s'"
  by (cases c) (auto simp: result_simps intro: tax_config_ok dest: process_income_ok)

interpretation tax_run: contract_machine tax_exec empty_tax "\<lambda>_. True" tax_ok
proof
  show "tax_ok empty_tax" by (simp add: tax_ok_def empty_tax_def)
qed (rule tax_exec_ok)


lemma route_income_inflow:
  assumes "breakdown_ok g b" and "config_ok cfg" and "ib_deducted b = g * int (sc_deduction_bps cfg) div 10000"
  shows "inflow a t (tx_log (route_income payer creator tok cfg b s)) = inflow a t (tx_log s)
    + (if t = tok then
        (if Some a = sc_deduction_wallet cfg then ib_deducted b else 0)
        + (if a = sc_reserve_wallet cfg then ib_reserved b else 0)
        + (if a = creator then ib_net b else 0) - (if a = payer then g else 0) else 0)"
proof -
  have "0 < ib_deducted b \<Longrightarrow> sc_deduction_wallet cfg \<noteq> None"
    using assms(2,3) by (cases "sc_deduction_bps cfg") (auto simp: config_ok_def)
  then have "sc_deduction_wallet cfg = None \<Longrightarrow> ib_deducted b = 0"
    using assms(1) by (fastforce simp: breakdown_ok_def)
  then show ?thesis using assms(1)
    by (cases "sc_deduction_wallet cfg") (auto simp: route_income_def Let_def breakdown_ok_def)
qed

lemma compute_breakdown_deducted:
  "compute_breakdown s c prior g = Inr b \<Longrightarrow> ib_deducted b = g * int (sc_deduction_bps c) div 10000"
  by (auto simp: compute_breakdown_def result_simps Let_def TAX_BPS_DENOMINATOR_def split: if_splits)

text \<open>
  C24: In every run, income that the tax contract accepts is routed completely and within the limits:
  the gross amount leaves the payer, deduction, reserve and net reach the deduction wallet, the
  reserve wallet and the creator and add up to the gross amount, nothing stays in the contract, the
  deduction is at most 30 percent of the gross and the reserve at most 60 percent of the taxable
  income.
\<close>

theorem income_routed:
  assumes "s = run tax_exec xs empty_tax"
    and "process_income e payer creator tok gross s = Inr (b, s')"
  shows "\<exists>st. tx_strategies s creator = Some st
    \<and> ib_deducted b + ib_reserved b + ib_net b = gross
    \<and> 0 \<le> ib_deducted b \<and> 0 \<le> ib_reserved b \<and> 0 < ib_net b
    \<and> ib_deducted b * 10000 \<le> gross * 3000 \<and> ib_reserved b * 10000 \<le> ib_taxable b * 6000
    \<and> (\<forall>a. inflow a tok (tx_log s') - inflow a tok (tx_log s) =
        (if Some a = sc_deduction_wallet (ts_config st) then ib_deducted b else 0)
        + (if a = sc_reserve_wallet (ts_config st) then ib_reserved b else 0)
        + (if a = creator then ib_net b else 0) - (if a = payer then gross else 0))"
  using assms(2)
proof (rule process_income_cases)
  fix st period s1 period'
  assume st: "tx_strategies s creator = Some st"
    and cp: "current_period e creator (sc_period_ledgers (ts_config st)) True s = (period, s1)"
    and cb: "compute_breakdown s1 (ts_config st) (ps_taxable_income period) gross = Inr b"
    and s': "s' = tlog (Event (TeIncome creator tok (ib_gross b) (ib_deducted b) (ib_reserved b) (ib_net b)))
      ((route_income payer creator tok (ts_config st) b s1)\<lparr>tx_periods := (tx_periods s)(creator \<mapsto> period')\<rparr>)"
  have ok: "tax_ok s" unfolding assms(1) by (rule tax_run.invar_run) (simp add: list_all_iff case_prod_beta)
  then have b: "breakdown_ok gross b" using process_income_ok [OF _ assms(2)] by blast
  have cfg: "config_ok (ts_config st)" using ok st by (simp add: tax_ok_def)
  note inf = route_income_inflow [OF b cfg compute_breakdown_deducted [OF cb]]
  show ?thesis using b st inf current_period_sel(5) [OF cp] by (auto simp: s' breakdown_ok_def)
qed

definition tax_demo_env :: "nat \<Rightarrow> addr \<Rightarrow> ledger_env" where
  "tax_demo_env t x = \<lparr>timestamp = t, sequence = t, self_addr = 99, auth = (\<lambda>b. b = x)\<rparr>"

definition tax_demo :: "(ledger_env \<times> tax_call) list" where
  "tax_demo =
    [(tax_demo_env 1 1, TxInitialize 1),
     (tax_demo_env 2 1, TxSetTemplate 1 7
        [\<lparr>tb_threshold = 0, tb_rate_bps = 1000\<rparr>, \<lparr>tb_threshold = 1000, tb_rate_bps = 2000\<rparr>]),
     (tax_demo_env 3 2, TxSetStrategy 2 \<lparr>sc_kind = Template, sc_flat_bps = 0, sc_brackets = [],
        sc_template = Some 7, sc_reserve_wallet = 50, sc_deduction_bps = 1000,
        sc_deduction_wallet = Some 60, sc_period_ledgers = 200000\<rparr>),
     (tax_demo_env 4 5, TxProcessIncome 5 2 9 1000)]"

lemmas tax_eval = tax_demo_env_def empty_tax_def tax_initialize_def set_template_def tax_require_admin_def
  validate_brackets_def MAX_BRACKETS_def MAX_RATE_BPS_def set_strategy_def validate_tax_config_def
  MAX_DEDUCTION_BPS_def MIN_PERIOD_LEDGERS_def MAX_PERIOD_LEDGERS_def process_income_def load_strategy_def
  current_period_def compute_breakdown_def load_template_def marginal_tax_def route_income_def add_period_def
  new_period_def TAX_BPS_DENOMINATOR_def as_u32_def tlog_def require_auth_def sat_add_def checked_i128_def
  arith_def rust_int

theorem income_routed_witness:
  "\<exists>b s'. process_income (tax_demo_env 5 5) 5 2 9 2000 (run tax_exec tax_demo empty_tax) = Inr (b, s')
    \<and> ib_deducted b = 200 \<and> ib_reserved b = 350 \<and> ib_net b = 1450 \<and> 200 + 350 + ib_net b = 2000"
proof -
  obtain b s' where p: "process_income (tax_demo_env 5 5) 5 2 9 2000 (run tax_exec tax_demo empty_tax) = Inr (b, s')"
    and b: "ib_deducted b = 200" "ib_reserved b = 350"
    by (simp add: tax_demo_def tax_eval)
  from income_routed [OF refl p] b show ?thesis using p by auto
qed

text \<open>
  C26: The totals of a tax period are consistent in every run: for the current and the last closed
  period of every creator, gross income is deductions plus taxable income, taxable income is reserves
  plus net payouts, and the 30 and 60 percent limits hold for the totals.
\<close>

theorem tax_periods_consistent:
  assumes "tx_periods (run tax_exec xs empty_tax) c = Some p
    \<or> tx_last_periods (run tax_exec xs empty_tax) c = Some p"
  shows "ps_gross_income p = ps_deducted p + ps_reserved p + ps_net_paid p
    \<and> ps_taxable_income p = ps_reserved p + ps_net_paid p
    \<and> 0 \<le> ps_deducted p \<and> 0 \<le> ps_reserved p \<and> 0 \<le> ps_net_paid p
    \<and> ps_deducted p * 10000 \<le> ps_gross_income p * 3000
    \<and> ps_reserved p * 10000 \<le> ps_taxable_income p * 6000"
proof -
  have "tax_ok (run tax_exec xs empty_tax)"
    by (rule tax_run.invar_run) (simp add: list_all_iff case_prod_beta)
  then show ?thesis using assms by (auto simp: tax_ok_def period_ok_def)
qed

theorem tax_periods_consistent_witness:
  "\<exists>p. tx_periods (run tax_exec tax_demo empty_tax) 2 = Some p \<and> ps_deducted p = 100
    \<and> ps_gross_income p = 100 + ps_reserved p + ps_net_paid p"
proof -
  obtain p where p: "tx_periods (run tax_exec tax_demo empty_tax) 2 = Some p" "ps_deducted p = 100"
    by (simp add: tax_demo_def tax_eval)
  from tax_periods_consistent [OF disjI1, OF p(1)] p show ?thesis by auto
qed

text \<open>
  C27: An estimate is what the payment will do: whenever income is processed, the breakdown it returns
  and routes is the one \<open>estimate\<close> reports in the same ledger for the same gross amount, including
  across the end of a period.
\<close>

theorem estimate_agrees:
  assumes "process_income e payer creator tok gross s = Inr (b, s')"
  shows "tax_estimate e creator gross s = Inr b"
  using assms
proof (rule process_income_cases)
  fix st period s1
  assume st: "tx_strategies s creator = Some st"
    and cp: "current_period e creator (sc_period_ledgers (ts_config st)) True s = (period, s1)"
    and cb: "compute_breakdown s1 (ts_config st) (ps_taxable_income period) gross = Inr b"
  have "load_template s1 = load_template s"
    by (intro ext) (simp add: load_template_def current_period_sel(1) [OF cp])
  then have "compute_breakdown s1 = compute_breakdown s"
    by (intro ext) (simp only: compute_breakdown_def)
  then show ?thesis using st cb current_period_sel(6) [OF cp] by (simp add: tax_estimate_def load_strategy_def)
qed

theorem estimate_agrees_witness:
  "\<exists>b. tax_estimate (tax_demo_env 5 5) 2 2000 (run tax_exec tax_demo empty_tax) = Inr b \<and> ib_reserved b = 350"
proof -
  obtain b s' where p: "process_income (tax_demo_env 5 5) 5 2 9 2000 (run tax_exec tax_demo empty_tax) = Inr (b, s')"
    and b: "ib_reserved b = 350"
    by (simp add: tax_demo_def tax_eval)
  from estimate_agrees [OF p] b show ?thesis by simp
qed

end
