(* ===== verification/Split_Admin.thy ===== *)
theory Split_Admin
  imports Split_Error
begin

text \<open>
  Administration of the split contract that its modules share: the admin guards of
  \<open>contracts/split/src/lib.rs\<close> and the storage migrations of \<open>contracts/split/src/migrations.rs\<close>.
  The theorem shows that \<open>migrate\<close> brings every older schema to the current one without losing an
  invoice note, and that running it again changes nothing.
\<close>

section \<open>State and guards\<close>

datatype admin_role = SuperAdmin | Operator

record invoice_meta =
  im_note :: string
  im_priority :: nat

record admin_store =
  sa_admin :: "addr option"
  sa_admins :: "(addr \<rightharpoonup> admin_role) option"
  sa_schema_version :: "nat option"
  sa_counter :: "nat option"
  sa_invoices :: "nat \<Rightarrow> bool"
  sa_meta_v2 :: "nat \<rightharpoonup> invoice_meta"
  sa_meta_v3 :: "nat \<rightharpoonup> invoice_meta"

definition CURRENT_SCHEMA_VERSION :: nat where "CURRENT_SCHEMA_VERSION = 3"

definition schema_version :: "admin_store \<Rightarrow> nat" where
  "schema_version s = (case sa_schema_version s of Some v \<Rightarrow> v | None \<Rightarrow> 1)"

definition set_schema_version :: "nat \<Rightarrow> admin_store \<Rightarrow> admin_store" where
  "set_schema_version v s = s\<lparr>sa_schema_version := Some v\<rparr>"

definition init_schema_version :: "admin_store \<Rightarrow> admin_store" where
  "init_schema_version s = set_schema_version CURRENT_SCHEMA_VERSION s"

definition require_schema_current :: "admin_store \<Rightarrow> unit split_result" where
  "require_schema_current s =
    (if schema_version s < CURRENT_SCHEMA_VERSION then Inl (Trap ''MigrationRequired'') else Inr ())"

definition split_require_admin :: "'x ledger_env_scheme \<Rightarrow> admin_store \<Rightarrow> addr split_result" where
  "split_require_admin e s =
    bindr (require_schema_current s) (\<lambda>_.
    bindr (ok_or (sa_admin s) (Trap ''admin not set'')) (\<lambda>admin.
    bindr (require_auth e admin) (\<lambda>_. Inr admin)))"

definition require_admin_role_unguarded ::
  "'x ledger_env_scheme \<Rightarrow> addr \<Rightarrow> admin_role \<Rightarrow> admin_store \<Rightarrow> unit split_result" where
  "require_admin_role_unguarded e admin min_role s =
    bindr (require_auth e admin) (\<lambda>_.
    bindr (ok_or (sa_admins s) (Trap ''admins not set'')) (\<lambda>admins.
    bindr (ok_or (admins admin) (Trap ''caller is not an admin'')) (\<lambda>role.
    case min_role of
      SuperAdmin \<Rightarrow> ensure (role = SuperAdmin) (Trap ''requires SuperAdmin role'')
    | Operator \<Rightarrow> ensure (role = SuperAdmin \<or> role = Operator) (Trap ''requires Operator role or higher''))))"

definition require_admin_role ::
  "'x ledger_env_scheme \<Rightarrow> addr \<Rightarrow> admin_role \<Rightarrow> admin_store \<Rightarrow> unit split_result" where
  "require_admin_role e admin min_role s =
    bindr (require_schema_current s) (\<lambda>_. require_admin_role_unguarded e admin min_role s)"


section \<open>Migrations\<close>

definition default_meta :: invoice_meta where
  "default_meta = \<lparr>im_note = '''', im_priority = 0\<rparr>"

definition last_id :: "admin_store \<Rightarrow> nat" where
  "last_id s = (case sa_counter s of Some n \<Rightarrow> n | None \<Rightarrow> 0)"

definition backfill_meta :: "nat \<Rightarrow> admin_store \<Rightarrow> admin_store" where
  "backfill_meta i s =
    (if sa_invoices s i \<and> sa_meta_v2 s i = None then s\<lparr>sa_meta_v2 := (sa_meta_v2 s)(i \<mapsto> default_meta)\<rparr>
     else s)"

definition migration_v2 :: "admin_store \<Rightarrow> admin_store" where
  "migration_v2 s = fold backfill_meta [1..<Suc (last_id s)] s"

definition rename_meta :: "nat \<Rightarrow> admin_store \<Rightarrow> admin_store" where
  "rename_meta i s =
    (case sa_meta_v2 s i of
       Some meta \<Rightarrow> s\<lparr>sa_meta_v3 := (sa_meta_v3 s)(i \<mapsto> meta), sa_meta_v2 := (sa_meta_v2 s)(i := None)\<rparr>
     | None \<Rightarrow> s)"

definition migration_v3 :: "admin_store \<Rightarrow> admin_store" where
  "migration_v3 s = fold rename_meta [1..<Suc (last_id s)] s"

definition get_invoice_meta :: "admin_store \<Rightarrow> nat \<Rightarrow> invoice_meta option" where
  "get_invoice_meta s i = sa_meta_v3 s i"

definition run_pending_migrations :: "admin_store \<Rightarrow> nat \<times> admin_store" where
  "run_pending_migrations s =
    (let version = schema_version s;
         (version, s) = (if version < 2 then (2, set_schema_version 2 (migration_v2 s)) else (version, s));
         (version, s) = (if version < 3 then (3, set_schema_version 3 (migration_v3 s)) else (version, s))
     in (version, s))"

definition migrate :: "'x ledger_env_scheme \<Rightarrow> addr \<Rightarrow> admin_store \<Rightarrow> (nat \<times> admin_store) split_result" where
  "migrate e admin s =
    bindr (require_admin_role_unguarded e admin SuperAdmin s) (\<lambda>_. Inr (run_pending_migrations s))"


section \<open>Migration is complete and idempotent\<close>

lemma fold_backfill [simp]:
  "sa_meta_v2 (fold backfill_meta ids s) i =
    (if i \<in> set ids \<and> sa_invoices s i \<and> sa_meta_v2 s i = None then Some default_meta else sa_meta_v2 s i)"
  "sa_meta_v3 (fold backfill_meta ids s) = sa_meta_v3 s" "sa_invoices (fold backfill_meta ids s) = sa_invoices s"
  "sa_counter (fold backfill_meta ids s) = sa_counter s" "sa_admin (fold backfill_meta ids s) = sa_admin s"
  "sa_admins (fold backfill_meta ids s) = sa_admins s"
  by (induction ids arbitrary: s) (auto simp: backfill_meta_def)

lemma fold_rename [simp]:
  "sa_meta_v3 (fold rename_meta ids s) i =
    (if i \<in> set ids \<and> sa_meta_v2 s i \<noteq> None then sa_meta_v2 s i else sa_meta_v3 s i)"
  "sa_invoices (fold rename_meta ids s) = sa_invoices s"
  "sa_counter (fold rename_meta ids s) = sa_counter s" "sa_admin (fold rename_meta ids s) = sa_admin s"
  "sa_admins (fold rename_meta ids s) = sa_admins s"
  by (induction ids arbitrary: s) (auto simp: rename_meta_def split: option.splits)

lemma set_schema_version_sel [simp]:
  "sa_schema_version (set_schema_version v s) = Some v" "sa_meta_v2 (set_schema_version v s) = sa_meta_v2 s"
  "sa_meta_v3 (set_schema_version v s) = sa_meta_v3 s" "sa_invoices (set_schema_version v s) = sa_invoices s"
  "sa_counter (set_schema_version v s) = sa_counter s" "sa_admin (set_schema_version v s) = sa_admin s"
  "sa_admins (set_schema_version v s) = sa_admins s"
  by (simp_all add: set_schema_version_def)

lemma migration_v2_sel [simp]:
  "sa_meta_v2 (migration_v2 s) i = (if 1 \<le> i \<and> i \<le> last_id s \<and> sa_invoices s i \<and> sa_meta_v2 s i = None
    then Some default_meta else sa_meta_v2 s i)"
  "sa_meta_v3 (migration_v2 s) = sa_meta_v3 s" "sa_invoices (migration_v2 s) = sa_invoices s"
  "sa_counter (migration_v2 s) = sa_counter s" "sa_admin (migration_v2 s) = sa_admin s"
  "sa_admins (migration_v2 s) = sa_admins s"
  unfolding migration_v2_def by (auto simp del: upt_Suc)

lemma migration_v3_sel [simp]:
  "sa_meta_v3 (migration_v3 s) i =
    (if 1 \<le> i \<and> i \<le> last_id s \<and> sa_meta_v2 s i \<noteq> None then sa_meta_v2 s i else sa_meta_v3 s i)"
  "sa_invoices (migration_v3 s) = sa_invoices s" "sa_counter (migration_v3 s) = sa_counter s"
  "sa_admin (migration_v3 s) = sa_admin s" "sa_admins (migration_v3 s) = sa_admins s"
  unfolding migration_v3_def by (auto simp del: upt_Suc)

text \<open>The note of an invoice before the migration, whatever the schema version is.\<close>

definition note_before :: "admin_store \<Rightarrow> nat \<Rightarrow> invoice_meta option" where
  "note_before s i =
    (if schema_version s < 3 \<and> sa_meta_v2 s i \<noteq> None then sa_meta_v2 s i
     else if schema_version s < 2 \<and> sa_invoices s i then Some default_meta
     else sa_meta_v3 s i)"

lemma run_pending_migrations_spec:
  assumes "run_pending_migrations s = (v, s')"
  shows "v = max 3 (schema_version s)" "schema_version s' = v" "\<not> schema_version s < 3 \<Longrightarrow> s' = s"
    "sa_admins s' = sa_admins s" "sa_admin s' = sa_admin s" "sa_counter s' = sa_counter s"
    "sa_invoices s' = sa_invoices s"
    "1 \<le> i \<Longrightarrow> i \<le> last_id s \<Longrightarrow> get_invoice_meta s' i = note_before s i"
  using assms
  by (auto simp: run_pending_migrations_def schema_version_def [of "set_schema_version _ _"] Let_def
      last_id_def get_invoice_meta_def note_before_def split: if_splits)

text \<open>
  C30: A migration by a super admin succeeds from every schema version and leaves the contract usable:
  the guard that every entry point starts with passes afterwards, the note of every existing invoice
  is kept (an invoice without one gets the default note when the contract comes from schema 1), the
  admins, the counter and the invoices are unchanged, and migrating again changes nothing.
\<close>

theorem migrate_complete:
  assumes "auth e admin" and "sa_admins s = Some roles" and "roles admin = Some SuperAdmin"
  shows "\<exists>v s'. migrate e admin s = Inr (v, s') \<and> require_schema_current s' = Inr ()
    \<and> (\<forall>i. 1 \<le> i \<and> i \<le> last_id s \<longrightarrow> get_invoice_meta s' i = note_before s i)
    \<and> (schema_version s < 2 \<longrightarrow> (\<forall>i. 1 \<le> i \<and> i \<le> last_id s \<and> sa_invoices s i \<longrightarrow> get_invoice_meta s' i \<noteq> None))
    \<and> sa_admins s' = sa_admins s \<and> sa_admin s' = sa_admin s \<and> sa_counter s' = sa_counter s
    \<and> sa_invoices s' = sa_invoices s \<and> migrate e admin s' = Inr (v, s')"
proof -
  obtain v s' where r: "run_pending_migrations s = (v, s')" by fastforce
  note spec = run_pending_migrations_spec [OF r]
  have again: "run_pending_migrations s' = (v, s')"
    using run_pending_migrations_spec(1,3) [of s'] spec(1,2) by (cases "run_pending_migrations s'") auto
  have guard: "require_admin_role_unguarded e admin SuperAdmin t = Inr ()" if "sa_admins t = Some roles" for t
    using that assms by (simp add: require_admin_role_unguarded_def)
  have "migrate e admin s = Inr (v, s')" "migrate e admin s' = Inr (v, s')"
    using guard [of s] guard [of s'] assms(2) spec(4) by (simp_all add: migrate_def again r)
  moreover have "require_schema_current s' = Inr ()"
    using spec(1,2) by (simp add: require_schema_current_def CURRENT_SCHEMA_VERSION_def)
  moreover have "schema_version s < 2 \<Longrightarrow> sa_invoices s i \<Longrightarrow> note_before s i \<noteq> None" for i
    by (simp add: note_before_def)
  ultimately show ?thesis using spec(4-8) by (intro exI [of _ v] exI [of _ s']) simp
qed

theorem migrate_complete_witness:
  "\<exists>v s'. migrate \<lparr>timestamp = 5, sequence = 5, self_addr = 9, auth = (\<lambda>a. a = 1)\<rparr> 1
      \<lparr>sa_admin = Some 1, sa_admins = Some [1 \<mapsto> SuperAdmin], sa_schema_version = None, sa_counter = Some 2,
        sa_invoices = (\<lambda>i. i = 2), sa_meta_v2 = Map.empty, sa_meta_v3 = Map.empty\<rparr> = Inr (v, s')
    \<and> get_invoice_meta s' 2 = Some default_meta"
proof -
  let ?e = "\<lparr>timestamp = 5, sequence = 5, self_addr = 9, auth = (\<lambda>a. a = 1)\<rparr>"
  let ?s = "\<lparr>sa_admin = Some 1, sa_admins = Some [1 \<mapsto> SuperAdmin], sa_schema_version = None,
    sa_counter = Some 2, sa_invoices = (\<lambda>i. i = 2), sa_meta_v2 = Map.empty, sa_meta_v3 = Map.empty\<rparr>"
  have h: "auth ?e 1" "sa_admins ?s = Some [1 \<mapsto> SuperAdmin]" "[1 \<mapsto> SuperAdmin] 1 = Some SuperAdmin" by simp_all
  have n: "note_before ?s 2 = Some default_meta" "last_id ?s = 2"
    by (simp_all add: note_before_def schema_version_def last_id_def)
  from migrate_complete [OF h] obtain v s' where "migrate ?e 1 ?s = Inr (v, s')"
    and g: "\<forall>i. 1 \<le> i \<and> i \<le> last_id ?s \<longrightarrow> get_invoice_meta s' i = note_before ?s i" by blast
  moreover have "get_invoice_meta s' 2 = Some default_meta" using g [THEN spec, of 2] n by simp
  ultimately show ?thesis by blast
qed

end
