(* ===== verification/Velocity.thy ===== *)
theory Velocity
  imports Split_Admin
begin

text \<open>
  Model of the payment velocity limits of the split contract (\<open>contracts/split/src/velocity.rs\<close> and
  its entry points in \<open>lib.rs\<close>). Afterwards: with a fixed configuration, the payments of a payer that
  pass \<open>enforce\<close> respect the window limits and the cooldown, whatever the other payers do.
\<close>

section \<open>Definitions\<close>

record velocity_config =
  vc_max_payments :: nat
  vc_max_amount :: int
  vc_window_secs :: nat
  vc_cooldown_secs :: nat

definition default_velocity_config :: velocity_config where
  "default_velocity_config = \<lparr>vc_max_payments = 0, vc_max_amount = 0, vc_window_secs = 0, vc_cooldown_secs = 0\<rparr>"

definition is_enabled :: "velocity_config \<Rightarrow> bool" where
  "is_enabled c \<longleftrightarrow> 0 < vc_max_payments c \<or> 0 < vc_max_amount c \<or> 0 < vc_cooldown_secs c"

record velocity_state =
  vs_window_start :: nat
  vs_payment_count :: nat
  vs_amount_total :: int
  vs_last_payment_at :: nat

definition default_velocity_state :: velocity_state where
  "default_velocity_state = \<lparr>vs_window_start = 0, vs_payment_count = 0, vs_amount_total = 0, vs_last_payment_at = 0\<rparr>"

datatype velocity_event = VelocityConfigSet "addr option" nat int nat

record velocity_store =
  ve_default :: "velocity_config option"
  ve_overrides :: "addr \<rightharpoonup> velocity_config"
  ve_states :: "addr \<rightharpoonup> velocity_state"
  ve_events :: "velocity_event list"

definition validate_velocity_config :: "velocity_config \<Rightarrow> unit split_result" where
  "validate_velocity_config c =
    (if vc_max_amount c < 0 then Inl (Err InvalidAmount)
     else if (0 < vc_max_payments c \<or> 0 < vc_max_amount c) \<and> vc_window_secs c = 0 then Inl (Err InvalidAmount)
     else Inr ())"

definition get_default_config :: "velocity_store \<Rightarrow> velocity_config" where
  "get_default_config s = (case ve_default s of Some c \<Rightarrow> c | None \<Rightarrow> default_velocity_config)"

definition velocity_config_set ::
  "addr option \<Rightarrow> nat \<Rightarrow> int \<Rightarrow> nat \<Rightarrow> velocity_store \<Rightarrow> velocity_store" where
  "velocity_config_set payer n m w s = s\<lparr>ve_events := ve_events s @ [VelocityConfigSet payer n m w]\<rparr>"

definition set_default_config :: "velocity_config \<Rightarrow> velocity_store \<Rightarrow> velocity_store split_result" where
  "set_default_config c s =
    bindr (validate_velocity_config c) (\<lambda>_.
    Inr (velocity_config_set None (vc_max_payments c) (vc_max_amount c) (vc_window_secs c)
      (s\<lparr>ve_default := Some c\<rparr>)))"

definition get_payer_override :: "velocity_store \<Rightarrow> addr \<Rightarrow> velocity_config option" where
  "get_payer_override s payer = ve_overrides s payer"

definition set_payer_override ::
  "addr \<Rightarrow> velocity_config option \<Rightarrow> velocity_store \<Rightarrow> velocity_store split_result" where
  "set_payer_override payer config s =
    (case config of
       Some c \<Rightarrow>
         bindr (validate_velocity_config c) (\<lambda>_.
         Inr (velocity_config_set (Some payer) (vc_max_payments c) (vc_max_amount c) (vc_window_secs c)
           (s\<lparr>ve_overrides := (ve_overrides s)(payer \<mapsto> c)\<rparr>)))
     | None \<Rightarrow> Inr (velocity_config_set (Some payer) 0 0 0 (s\<lparr>ve_overrides := (ve_overrides s)(payer := None)\<rparr>)))"

definition effective_config :: "velocity_store \<Rightarrow> addr \<Rightarrow> velocity_config" where
  "effective_config s payer =
    (case get_payer_override s payer of Some c \<Rightarrow> c | None \<Rightarrow> get_default_config s)"

definition get_velocity_state :: "velocity_store \<Rightarrow> addr \<Rightarrow> velocity_state" where
  "get_velocity_state s payer = (case ve_states s payer of Some st \<Rightarrow> st | None \<Rightarrow> default_velocity_state)"

definition velocity_check ::
  "velocity_config \<Rightarrow> velocity_state \<Rightarrow> int \<Rightarrow> nat \<Rightarrow> velocity_state split_result" where
  "velocity_check config state amount now =
    (if amount \<le> 0 then Inl (Err InvalidAmount)
     else if 0 < vc_cooldown_secs config \<and> 0 < vs_last_payment_at state
         \<and> now < sat_add u64_max (vs_last_payment_at state) (vc_cooldown_secs config)
       then Inl (Err RateLimitExceeded)
     else
       let window_end = sat_add u64_max (vs_window_start state) (vc_window_secs config);
           next = (if vs_payment_count state = 0 \<or> window_end \<le> now
                   then state\<lparr>vs_window_start := now, vs_payment_count := 0, vs_amount_total := 0\<rparr> else state)
       in
         if 0 < vc_max_payments config \<and> vc_max_payments config \<le> vs_payment_count next
           then Inl (Err RateLimitExceeded)
         else
           bindr (ok_or (checked_i128 (vs_amount_total next + amount)) (Err ArithmeticOverflow)) (\<lambda>new_total.
           if 0 < vc_max_amount config \<and> vc_max_amount config < new_total then Inl (Err RateLimitExceeded)
           else Inr (next\<lparr>vs_payment_count := sat_add u32_max (vs_payment_count next) 1,
             vs_amount_total := new_total, vs_last_payment_at := now\<rparr>)))"

definition would_allow :: "'x ledger_env_scheme \<Rightarrow> addr \<Rightarrow> int \<Rightarrow> velocity_store \<Rightarrow> bool" where
  "would_allow e payer amount s =
    (let config = effective_config s payer in
     if \<not> is_enabled config then 0 < amount
     else is_ok (velocity_check config (get_velocity_state s payer) amount (timestamp e)))"

definition enforce :: "'x ledger_env_scheme \<Rightarrow> addr \<Rightarrow> int \<Rightarrow> velocity_store \<Rightarrow> velocity_store split_result" where
  "enforce e payer amount s =
    (let config = effective_config s payer in
     if \<not> is_enabled config then Inr s
     else
       bindr (velocity_check config (get_velocity_state s payer) amount (timestamp e)) (\<lambda>next.
       Inr (s\<lparr>ve_states := (ve_states s)(payer \<mapsto> next)\<rparr>)))"

definition reset_velocity_state :: "addr \<Rightarrow> velocity_store \<Rightarrow> velocity_store" where
  "reset_velocity_state payer s = s\<lparr>ve_states := (ve_states s)(payer := None)\<rparr>"

definition set_velocity_config ::
  "'x ledger_env_scheme \<Rightarrow> admin_store \<Rightarrow> velocity_config \<Rightarrow> velocity_store \<Rightarrow> velocity_store split_result" where
  "set_velocity_config e a config s = bindr (split_require_admin e a) (\<lambda>_. set_default_config config s)"

definition set_payer_velocity_override ::
  "'x ledger_env_scheme \<Rightarrow> admin_store \<Rightarrow> addr \<Rightarrow> velocity_config option \<Rightarrow> velocity_store
    \<Rightarrow> velocity_store split_result" where
  "set_payer_velocity_override e a payer config s =
    bindr (split_require_admin e a) (\<lambda>_. set_payer_override payer config s)"

definition reset_payer_velocity ::
  "'x ledger_env_scheme \<Rightarrow> admin_store \<Rightarrow> addr \<Rightarrow> velocity_store \<Rightarrow> velocity_store split_result" where
  "reset_payer_velocity e a payer s =
    bindr (split_require_admin e a) (\<lambda>_. Inr (reset_velocity_state payer s))"


section \<open>Fixed windows bound every sliding window\<close>

text \<open>A payment history is a list of times and amounts, oldest first; \<open>f\<close> weighs a payment: 1 for the
  payment count, the amount for the volume.\<close>

type_synonym payment = "nat \<times> int"

definition weight :: "(payment \<Rightarrow> int) \<Rightarrow> (nat \<Rightarrow> bool) \<Rightarrow> payment list \<Rightarrow> int" where
  "weight f P h = sum_list (map f (filter (\<lambda>x. P (fst x)) h))"

lemma weight_simps [simp]:
  "weight f P [] = 0" "weight f P (h @ k) = weight f P h + weight f P k"
  "weight f P (x # h) = (if P (fst x) then f x else 0) + weight f P h"
  by (simp_all add: weight_def)

lemma weight_mono:
  assumes "\<And>x. x \<in> set h \<Longrightarrow> 0 \<le> f x" and "\<And>x. x \<in> set h \<Longrightarrow> P (fst x) \<Longrightarrow> Q (fst x)"
  shows "weight f P h \<le> weight f Q h"
  using assms
proof (induction h)
  case (Cons x h)
  then have "weight f P h \<le> weight f Q h" "0 \<le> f x" "P (fst x) \<longrightarrow> Q (fst x)" by simp_all
  then show ?case by simp
qed simp

lemma weight_none: "(\<And>x. x \<in> set h \<Longrightarrow> \<not> P (fst x)) \<Longrightarrow> weight f P h = 0"
  by (induction h) auto

definition sliding :: "(payment \<Rightarrow> int) \<Rightarrow> nat \<Rightarrow> int \<Rightarrow> payment list \<Rightarrow> bool" where
  "sliding f w l h \<longleftrightarrow> (\<forall>t. weight f (\<lambda>s. t \<le> s \<and> s < t + w) h \<le> l)"

text \<open>The part of the older windows that a sliding window over the current one can still see.\<close>

definition recent :: "(payment \<Rightarrow> int) \<Rightarrow> nat \<Rightarrow> nat \<Rightarrow> payment list \<Rightarrow> int" where
  "recent f start w h = weight f (\<lambda>s. start < s + w) h"

lemma sliding_join:
  assumes "\<And>x. x \<in> set (old @ cur @ [p]) \<Longrightarrow> 0 \<le> f x"
    and "recent f start w old \<le> l" and "weight f (\<lambda>_. True) (cur @ [p]) \<le> l" and "start \<le> fst p"
    and "sliding f w (2 * l) (old @ cur)"
  shows "sliding f w (2 * l) (old @ cur @ [p])"
  unfolding sliding_def
proof
  fix t
  let ?P = "\<lambda>s. t \<le> s \<and> s < t + w"
  show "weight f ?P (old @ cur @ [p]) \<le> 2 * l"
  proof (cases "?P (fst p)")
    case True
    have "weight f ?P old \<le> recent f start w old"
      unfolding recent_def using assms(1,4) True by (intro weight_mono) auto
    moreover have "weight f ?P (cur @ [p]) \<le> weight f (\<lambda>_. True) (cur @ [p])"
      using assms(1) by (intro weight_mono) auto
    ultimately show ?thesis using assms(2,3) by simp
  next
    case False
    then show ?thesis using assms(5) by (auto simp: sliding_def)
  qed
qed

lemma recent_reset:
  assumes "\<And>x. x \<in> set (old @ cur) \<Longrightarrow> 0 \<le> f x" and "\<And>x. x \<in> set old \<Longrightarrow> fst x \<le> start"
    and "start + w \<le> now" and "weight f (\<lambda>_. True) cur \<le> l"
  shows "recent f now w (old @ cur) \<le> l"
proof -
  have "weight f (\<lambda>s. now < s + w) old = 0"
    by (rule weight_none) (use assms(2,3) in fastforce)
  moreover have "weight f (\<lambda>s. now < s + w) cur \<le> weight f (\<lambda>_. True) cur"
    using assms(1) by (intro weight_mono) auto
  ultimately show ?thesis using assms(4) by (simp add: recent_def)
qed

text \<open>The invariant of one limit: the history splits into older windows and the current window.\<close>

definition limit_inv :: "(payment \<Rightarrow> int) \<Rightarrow> int \<Rightarrow> nat \<Rightarrow> nat \<Rightarrow> payment list \<Rightarrow> payment list \<Rightarrow> bool" where
  "limit_inv f l w start old cur \<longleftrightarrow> recent f start w old \<le> l \<and> weight f (\<lambda>_. True) cur \<le> l
    \<and> sliding f w (2 * l) (old @ cur)"

lemma limit_inv_join:
  assumes "limit_inv f l w start old cur" and "\<And>x. x \<in> set (old @ cur @ [p]) \<Longrightarrow> 0 \<le> f x"
    and "weight f (\<lambda>_. True) (cur @ [p]) \<le> l" and "start \<le> fst p"
  shows "limit_inv f l w start old (cur @ [p])"
  using assms sliding_join [of old cur p f start w l] by (simp add: limit_inv_def)

lemma limit_inv_reset:
  assumes "limit_inv f l w start old cur" and "\<And>x. x \<in> set (old @ cur @ [p]) \<Longrightarrow> 0 \<le> f x"
    and "\<And>x. x \<in> set old \<Longrightarrow> fst x \<le> start" and "start + w \<le> fst p" and "f p \<le> l"
  shows "limit_inv f l w (fst p) (old @ cur) [p]"
proof -
  have r: "recent f (fst p) w (old @ cur) \<le> l"
    using assms(1-4) by (intro recent_reset [where start = start]) (auto simp: limit_inv_def)
  then show ?thesis
    using sliding_join [of "old @ cur" "[]" p f "fst p" w l] assms(1,2,5) by (simp add: limit_inv_def)
qed

lemma limit_inv_first: "0 \<le> f p \<Longrightarrow> f p \<le> l \<Longrightarrow> limit_inv f l w start [] [p]"
  by (simp add: limit_inv_def recent_def sliding_def)


section \<open>Enforcement\<close>

definition windows_inv :: "velocity_config \<Rightarrow> velocity_state \<Rightarrow> payment list \<Rightarrow> payment list \<Rightarrow> bool" where
  "windows_inv c st old cur \<longleftrightarrow>
    cur \<noteq> [] \<and> vs_payment_count st = min u32_max (length cur)
    \<and> vs_amount_total st = weight snd (\<lambda>_. True) cur \<and> vs_window_start st \<le> vs_last_payment_at st
    \<and> (\<forall>x\<in>set old. fst x \<le> vs_window_start st)
    \<and> (0 < vc_max_payments c \<longrightarrow>
        limit_inv (\<lambda>_. 1) (int (vc_max_payments c)) (vc_window_secs c) (vs_window_start st) old cur)
    \<and> (0 < vc_max_amount c \<longrightarrow>
        limit_inv snd (vc_max_amount c) (vc_window_secs c) (vs_window_start st) old cur)"

definition vel_inv :: "velocity_config \<Rightarrow> payment list \<Rightarrow> velocity_state \<Rightarrow> bool" where
  "vel_inv c h st \<longleftrightarrow>
    (h = [] \<and> st = default_velocity_state \<or> (\<exists>old cur. h = old @ cur \<and> windows_inv c st old cur))
    \<and> (\<forall>x\<in>set h. 0 < snd x \<and> 0 < fst x \<and> fst x \<le> vs_last_payment_at st)
    \<and> (h \<noteq> [] \<longrightarrow> vs_last_payment_at st = fst (last h))
    \<and> (0 < vc_cooldown_secs c \<longrightarrow> sorted_wrt (\<lambda>x y. fst x + vc_cooldown_secs c \<le> fst y) h)"

lemma velocity_check_cases:
  assumes "velocity_check c st a now = Inr st'" and "now < u64_max"
  obtains (reset) "vs_payment_count st = 0 \<or> vs_window_start st + vc_window_secs c \<le> now"
      "st' = \<lparr>vs_window_start = now, vs_payment_count = 1, vs_amount_total = a, vs_last_payment_at = now\<rparr>"
      "0 < a" "0 < vc_max_amount c \<longrightarrow> a \<le> vc_max_amount c"
      "0 < vc_cooldown_secs c \<and> 0 < vs_last_payment_at st \<longrightarrow> vs_last_payment_at st + vc_cooldown_secs c \<le> now"
  | (join) "0 < vs_payment_count st" "0 < a"
      "st' = st\<lparr>vs_payment_count := min u32_max (vs_payment_count st + 1),
        vs_amount_total := vs_amount_total st + a, vs_last_payment_at := now\<rparr>"
      "0 < vc_max_payments c \<longrightarrow> vs_payment_count st < vc_max_payments c"
      "0 < vc_max_amount c \<longrightarrow> vs_amount_total st + a \<le> vc_max_amount c"
      "0 < vc_cooldown_secs c \<and> 0 < vs_last_payment_at st \<longrightarrow> vs_last_payment_at st + vc_cooldown_secs c \<le> now"
proof -
  have cool: "0 < vc_cooldown_secs c \<and> 0 < vs_last_payment_at st \<longrightarrow> vs_last_payment_at st + vc_cooldown_secs c \<le> now"
    using assms by (auto simp: velocity_check_def sat_add_def split: if_splits)
  have a: "0 < a" using assms by (auto simp: velocity_check_def split: if_splits)
  let ?r = "vs_payment_count st = 0 \<or> sat_add u64_max (vs_window_start st) (vc_window_secs c) \<le> now"
  have "u32_max \<noteq> 0" by (simp add: rust_int)
  show ?thesis
  proof (cases ?r)
    case True
    then have "vs_payment_count st = 0 \<or> vs_window_start st + vc_window_secs c \<le> now"
      using assms(2) by (auto simp: sat_add_def)
    moreover have "st' = \<lparr>vs_window_start = now, vs_payment_count = 1, vs_amount_total = a, vs_last_payment_at = now\<rparr>"
      "0 < vc_max_amount c \<longrightarrow> a \<le> vc_max_amount c"
      using assms(1) True \<open>u32_max \<noteq> 0\<close> unfolding velocity_check_def Let_def if_P [OF True]
      by (auto simp: result_simps sat_add_def split: if_splits)
    ultimately show ?thesis using reset a cool by blast
  next
    case False
    have "st' = st\<lparr>vs_payment_count := min u32_max (vs_payment_count st + 1),
        vs_amount_total := vs_amount_total st + a, vs_last_payment_at := now\<rparr>"
      "0 < vc_max_payments c \<longrightarrow> vs_payment_count st < vc_max_payments c"
      "0 < vc_max_amount c \<longrightarrow> vs_amount_total st + a \<le> vc_max_amount c"
      using assms(1) unfolding velocity_check_def Let_def if_not_P [OF False]
      by (auto simp: result_simps sat_add_def split: if_splits)
    then show ?thesis using join a cool False by blast
  qed
qed

lemma weight_count: "weight (\<lambda>_. 1) (\<lambda>_. True) h = int (length h)"
  by (induction h) auto

lemma vel_inv_times:
  assumes "vel_inv c h st" and "vs_last_payment_at st \<le> now" and "0 < a" and "0 < now"
    and "0 < vc_cooldown_secs c \<and> 0 < vs_last_payment_at st \<longrightarrow> vs_last_payment_at st + vc_cooldown_secs c \<le> now"
  shows "\<forall>x\<in>set (h @ [(now, a)]). 0 < snd x \<and> 0 < fst x \<and> fst x \<le> now"
    and "0 < vc_cooldown_secs c \<longrightarrow> sorted_wrt (\<lambda>x y. fst x + vc_cooldown_secs c \<le> fst y) (h @ [(now, a)])"
  using assms by (fastforce simp: vel_inv_def sorted_wrt_append)+

lemma windows_inv_reset:
  assumes "windows_inv c st old cur" and "vs_payment_count st = 0 \<or> vs_window_start st + vc_window_secs c \<le> now"
    and "\<And>x. x \<in> set (old @ cur @ [(now, a)]) \<Longrightarrow> 0 < snd x"
    and "0 < vc_max_amount c \<longrightarrow> a \<le> vc_max_amount c" and "vs_last_payment_at st \<le> now"
    and "\<And>x. x \<in> set (old @ cur) \<Longrightarrow> fst x \<le> now"
  shows "windows_inv c \<lparr>vs_window_start = now, vs_payment_count = 1, vs_amount_total = a, vs_last_payment_at = now\<rparr>
    (old @ cur) [(now, a)]"
proof -
  have "vs_payment_count st \<noteq> 0" using assms(1) by (cases cur) (auto simp: windows_inv_def rust_int min_def)
  then have w: "vs_window_start st + vc_window_secs c \<le> now" using assms(2) by simp
  have old: "\<And>x. x \<in> set old \<Longrightarrow> fst x \<le> vs_window_start st" using assms(1) by (simp add: windows_inv_def)
  have pos: "\<And>x. x \<in> set (old @ cur @ [(now, a)]) \<Longrightarrow> 0 \<le> snd x" using assms(3) by (auto intro: less_imp_le)
  have "0 < vc_max_payments c \<Longrightarrow>
      limit_inv (\<lambda>_. 1) (int (vc_max_payments c)) (vc_window_secs c) now (old @ cur) [(now, a)]"
    using limit_inv_reset [where p = "(now, a)", OF _ _ old, of "\<lambda>_. 1"] assms(1) w by (simp add: windows_inv_def)
  moreover have "0 < vc_max_amount c \<Longrightarrow>
      limit_inv snd (vc_max_amount c) (vc_window_secs c) now (old @ cur) [(now, a)]"
    using limit_inv_reset [where p = "(now, a)", OF _ pos old] assms(1,4) w by (simp add: windows_inv_def)
  ultimately show ?thesis using assms(6) by (simp add: windows_inv_def rust_int)
qed

lemma windows_inv_join:
  assumes "windows_inv c st old cur" and "\<And>x. x \<in> set (old @ cur @ [(now, a)]) \<Longrightarrow> 0 < snd x"
    and "0 < vc_max_payments c \<longrightarrow> vs_payment_count st < vc_max_payments c"
    and "0 < vc_max_amount c \<longrightarrow> vs_amount_total st + a \<le> vc_max_amount c"
    and "vs_last_payment_at st \<le> now" and "vc_max_payments c \<le> u32_max"
  shows "windows_inv c (st\<lparr>vs_payment_count := min u32_max (vs_payment_count st + 1),
    vs_amount_total := vs_amount_total st + a, vs_last_payment_at := now\<rparr>) old (cur @ [(now, a)])"
proof -
  have start: "vs_window_start st \<le> now" using assms(1,5) by (simp add: windows_inv_def)
  have pos: "\<And>x. x \<in> set (old @ cur @ [(now, a)]) \<Longrightarrow> 0 \<le> snd x" using assms(2) by (auto intro: less_imp_le)
  have "0 < vc_max_payments c \<Longrightarrow>
      limit_inv (\<lambda>_. 1) (int (vc_max_payments c)) (vc_window_secs c) (vs_window_start st) old (cur @ [(now, a)])"
    using assms(1,3,6) start by (intro limit_inv_join) (auto simp: windows_inv_def weight_count)
  moreover have "0 < vc_max_amount c \<Longrightarrow>
      limit_inv snd (vc_max_amount c) (vc_window_secs c) (vs_window_start st) old (cur @ [(now, a)])"
    using assms(1,4) start by (intro limit_inv_join pos) (auto simp: windows_inv_def)
  ultimately show ?thesis using assms(1) start by (auto simp: windows_inv_def)
qed

lemma vel_inv_step:
  assumes inv: "vel_inv c h st" and chk: "velocity_check c st a now = Inr st'"
    and now: "vs_last_payment_at st \<le> now" "0 < now" "now < u64_max" and mp: "vc_max_payments c \<le> u32_max"
  shows "vel_inv c (h @ [(now, a)]) st'"
  using chk now(3)
proof (cases rule: velocity_check_cases)
  case reset
  note times = vel_inv_times [OF inv now(1) reset(3) now(2) reset(5)]
  have "\<exists>old cur. h @ [(now, a)] = old @ cur \<and> windows_inv c st' old cur"
  proof (cases "h = []")
    case True
    have "windows_inv c st' [] [(now, a)]"
      using reset(3,4) by (auto simp: reset(2) windows_inv_def rust_int intro!: limit_inv_first)
    then show ?thesis using True by fastforce
  next
    case False
    then obtain old cur where h: "h = old @ cur" and w: "windows_inv c st old cur"
      using inv by (auto simp: vel_inv_def)
    have "windows_inv c st' (old @ cur) [(now, a)]" unfolding reset(2)
      by (rule windows_inv_reset [OF w reset(1) _ reset(4) now(1)]) (use times(1) h in fastforce)+
    then show ?thesis using h by (intro exI [of _ "old @ cur"] exI [of _ "[(now, a)]"]) simp
  qed
  then show ?thesis using times reset(2) by (simp add: vel_inv_def)
next
  case join
  note times = vel_inv_times [OF inv now(1) join(2) now(2) join(6)]
  have "h \<noteq> []" using inv join(1) by (auto simp: vel_inv_def default_velocity_state_def windows_inv_def)
  then obtain old cur where h: "h = old @ cur" and w: "windows_inv c st old cur"
    using inv by (auto simp: vel_inv_def)
  have "windows_inv c st' old (cur @ [(now, a)])" unfolding join(3)
    by (rule windows_inv_join [OF w _ join(4,5) now(1) mp]) (use times(1) h in fastforce)
  then have "\<exists>old cur. h @ [(now, a)] = old @ cur \<and> windows_inv c st' old cur"
    using h by (intro exI [of _ old] exI [of _ "cur @ [(now, a)]"]) simp
  then show ?thesis using times join(3) by (simp add: vel_inv_def)
qed

text \<open>The payments of \<open>p\<close> that pass when the payments of a list arrive in order.\<close>

fun history :: "addr \<Rightarrow> (ledger_env \<times> addr \<times> int) list \<Rightarrow> velocity_store \<Rightarrow> payment list" where
  "history p [] s = []"
| "history p ((e, q, a) # xs) s =
    (case enforce e q a s of
       Inl _ \<Rightarrow> history p xs s
     | Inr s' \<Rightarrow> if q = p then (timestamp e, a) # history p xs s' else history p xs s')"

fun enforce_exec :: "ledger_env \<Rightarrow> addr \<times> int \<Rightarrow> velocity_store \<Rightarrow> velocity_store split_result" where
  "enforce_exec e (payer, amount) s = enforce e payer amount s"

lemma get_default_config_frame [simp]: "get_default_config (s\<lparr>ve_states := x\<rparr>) = get_default_config s"
  by (simp add: get_default_config_def)

lemma enforce_frame:
  assumes "enforce e q a s = Inr s'"
  shows "effective_config s' p = effective_config s p"
    and "q \<noteq> p \<Longrightarrow> get_velocity_state s' p = get_velocity_state s p"
    and "is_enabled (effective_config s q) \<Longrightarrow>
      velocity_check (effective_config s q) (get_velocity_state s q) a (timestamp e) = Inr (get_velocity_state s' q)"
  using assms
  by (auto simp: enforce_def Let_def result_simps effective_config_def get_payer_override_def
      get_velocity_state_def cong: option.case_cong split: if_splits)

lemma velocity_check_last:
  assumes "velocity_check c st a now = Inr st'"
  shows "vs_last_payment_at st' = now"
  using assms by (auto simp: velocity_check_def Let_def result_simps split: if_splits)

lemma history_inv:
  assumes "vel_inv c h (get_velocity_state s p)" and "effective_config s p = c" and "is_enabled c"
    and "vc_max_payments c \<le> u32_max" and "sorted (map (timestamp \<circ> fst) xs)"
    and "\<forall>x\<in>set xs. vs_last_payment_at (get_velocity_state s p) \<le> timestamp (fst x)
      \<and> 0 < timestamp (fst x) \<and> timestamp (fst x) < u64_max"
  shows "vel_inv c (h @ history p xs s) (get_velocity_state (run enforce_exec xs s) p)"
  using assms
proof (induction xs arbitrary: h s)
  case Nil
  then show ?case by auto
next
  case (Cons x xs)
  obtain e q a where x: "x = (e, q, a)" by (cases x)
  show ?case
  proof (cases "enforce e q a s")
    case (Inl f)
    then show ?thesis using Cons.IH [OF Cons.prems(1-4)] Cons.prems(5,6) by (simp add: x)
  next
    case (Inr s')
    note fr = enforce_frame [OF Inr]
    show ?thesis
    proof (cases "q = p")
      case False
      then have "vel_inv c (h @ history p xs s') (get_velocity_state (run enforce_exec xs s') p)"
        using Cons.IH [of h s'] Cons.prems fr(1) fr(2) [of p] by simp
      then show ?thesis using False Inr by (simp add: x)
    next
      case True
      have chk: "velocity_check c (get_velocity_state s p) a (timestamp e) = Inr (get_velocity_state s' p)"
        using fr(3) Cons.prems(2,3) True by simp
      have "vel_inv c (h @ [(timestamp e, a)]) (get_velocity_state s' p)"
        using vel_inv_step [OF Cons.prems(1) chk] Cons.prems(4,6) by (simp add: x)
      then have "vel_inv c ((h @ [(timestamp e, a)]) @ history p xs s') (get_velocity_state (run enforce_exec xs s') p)"
        using Cons.prems fr(1) velocity_check_last [OF chk] by (intro Cons.IH) (auto simp: x)
      then show ?thesis using True Inr by (simp add: x)
    qed
  qed
qed

lemma history_inv_fresh:
  assumes "c = effective_config s p" and "is_enabled c" and "vc_max_payments c \<le> u32_max"
    and "ve_states s p = None" and "sorted (map (timestamp \<circ> fst) xs)"
    and "\<forall>x\<in>set xs. 0 < timestamp (fst x) \<and> timestamp (fst x) < u64_max"
  shows "vel_inv c (history p xs s) (get_velocity_state (run enforce_exec xs s) p)"
proof -
  have d: "get_velocity_state s p = default_velocity_state" by (simp add: get_velocity_state_def assms(4))
  have "vel_inv c ([] @ history p xs s) (get_velocity_state (run enforce_exec xs s) p)"
    by (rule history_inv) (use assms in \<open>auto simp: d vel_inv_def default_velocity_state_def\<close>)
  then show ?thesis by simp
qed

lemma enforce_run_config: "effective_config (run enforce_exec xs s) p = effective_config s p"
proof (induction xs arbitrary: s)
  case (Cons x xs)
  then show ?case
    by (cases x; cases "enforce_exec (fst x) (snd x) s") (auto dest: enforce_frame(1))
qed simp

lemma velocity_check_fresh_window:
  assumes "vs_payment_count st = 0 \<or> vs_window_start st + vc_window_secs c \<le> now"
    and "vs_last_payment_at st = 0 \<or> vs_last_payment_at st + vc_cooldown_secs c \<le> now"
  shows "velocity_check c st a now =
    (if a \<le> 0 then Inl (Err InvalidAmount) else if i128_max < a then Inl (Err ArithmeticOverflow)
     else if 0 < vc_max_amount c \<and> vc_max_amount c < a then Inl (Err RateLimitExceeded)
     else Inr \<lparr>vs_window_start = now, vs_payment_count = 1, vs_amount_total = a, vs_last_payment_at = now\<rparr>)"
proof -
  have r: "vs_payment_count st = 0 \<or> sat_add u64_max (vs_window_start st) (vc_window_secs c) \<le> now"
    and cool: "\<not> (0 < vc_cooldown_secs c \<and> 0 < vs_last_payment_at st
      \<and> now < sat_add u64_max (vs_last_payment_at st) (vc_cooldown_secs c))"
    using assms by (auto simp: sat_add_def)
  show ?thesis
    unfolding velocity_check_def Let_def if_P [OF r] if_not_P [OF cool]
    by (auto simp: checked_i128_def fits_i128_def sat_add_def rust_int)
qed


text \<open>
  C28: The velocity limits hold for every payer whatever the other payers do: of the payments that
  \<open>enforce\<close> accepts, at most twice the maximal count and at most twice the maximal amount fall into
  any time span of one window length (fixed windows, so two of them can meet in one span), and two
  accepted payments are at least the cooldown apart.
\<close>

theorem velocity_limits_hold:
  assumes "c = effective_config s p" and "vc_max_payments c \<le> u32_max" and "ve_states s p = None"
    and "sorted (map (timestamp \<circ> fst) xs)" and "\<forall>x\<in>set xs. 0 < timestamp (fst x) \<and> timestamp (fst x) < u64_max"
  defines "h \<equiv> history p xs s"
  shows "(0 < vc_max_payments c \<longrightarrow>
        length (filter (\<lambda>x. t \<le> fst x \<and> fst x < t + vc_window_secs c) h) \<le> 2 * vc_max_payments c)
    \<and> (0 < vc_max_amount c \<longrightarrow>
        sum_list (map snd (filter (\<lambda>x. t \<le> fst x \<and> fst x < t + vc_window_secs c) h)) \<le> 2 * vc_max_amount c)
    \<and> (0 < vc_cooldown_secs c \<longrightarrow> sorted_wrt (\<lambda>x y. fst x + vc_cooldown_secs c \<le> fst y) h)"
proof (cases "is_enabled c")
  case True
  obtain st where inv: "vel_inv c h st"
    using history_inv_fresh [OF assms(1) True assms(2-5)] by (auto simp: h_def)
  have s1: "0 < vc_max_payments c \<Longrightarrow> sliding (\<lambda>_. 1) (vc_window_secs c) (2 * int (vc_max_payments c)) h"
    and s2: "0 < vc_max_amount c \<Longrightarrow> sliding snd (vc_window_secs c) (2 * vc_max_amount c) h"
    using inv by (auto simp: vel_inv_def windows_inv_def limit_inv_def sliding_def)
  have cnt: "weight (\<lambda>_. 1) P h = int (length (filter (\<lambda>x. P (fst x)) h))" for P by (induction h) auto
  have "0 < vc_max_payments c \<longrightarrow>
      length (filter (\<lambda>x. t \<le> fst x \<and> fst x < t + vc_window_secs c) h) \<le> 2 * vc_max_payments c"
  proof
    assume "0 < vc_max_payments c"
    then have "weight (\<lambda>_. 1) (\<lambda>s. t \<le> s \<and> s < t + vc_window_secs c) h \<le> 2 * int (vc_max_payments c)"
      using s1 by (simp add: sliding_def)
    then show "length (filter (\<lambda>x. t \<le> fst x \<and> fst x < t + vc_window_secs c) h) \<le> 2 * vc_max_payments c"
      unfolding cnt by simp
  qed
  moreover have "0 < vc_max_amount c \<longrightarrow>
      sum_list (map snd (filter (\<lambda>x. t \<le> fst x \<and> fst x < t + vc_window_secs c) h)) \<le> 2 * vc_max_amount c"
    using s2 by (auto simp: sliding_def weight_def)
  ultimately show ?thesis using inv by (simp add: vel_inv_def)
next
  case False
  then show ?thesis by (simp add: is_enabled_def)
qed

definition vel_demo_env :: "nat \<Rightarrow> ledger_env" where
  "vel_demo_env t = \<lparr>timestamp = t, sequence = t, self_addr = 99, auth = (\<lambda>_. True)\<rparr>"

definition vel_demo_store :: velocity_store where
  "vel_demo_store = \<lparr>ve_default = Some \<lparr>vc_max_payments = 2, vc_max_amount = 100, vc_window_secs = 10, vc_cooldown_secs = 1\<rparr>,
    ve_overrides = Map.empty, ve_states = Map.empty, ve_events = []\<rparr>"

definition vel_demo :: "(ledger_env \<times> addr \<times> int) list" where
  "vel_demo = [(vel_demo_env 5, 7, 60), (vel_demo_env 6, 2, 100), (vel_demo_env 6, 7, 50), (vel_demo_env 14, 7, 40),
    (vel_demo_env 15, 7, 90)]"

lemma vel_demo_history: "history 7 vel_demo vel_demo_store = [(5, 60), (14, 40), (15, 90)]"
  by (simp add: vel_demo_def vel_demo_store_def vel_demo_env_def enforce_def effective_config_def
      get_payer_override_def get_default_config_def is_enabled_def velocity_check_def get_velocity_state_def
      default_velocity_state_def sat_add_def checked_i128_def rust_int Let_def)

theorem velocity_limits_hold_witness:
  "history 7 vel_demo vel_demo_store = [(5, 60), (14, 40), (15, 90)]
    \<and> length (filter (\<lambda>x. 7 \<le> fst x \<and> fst x < 7 + 10) (history 7 vel_demo vel_demo_store)) \<le> 4"
proof -
  have c: "effective_config vel_demo_store 7
      = \<lparr>vc_max_payments = 2, vc_max_amount = 100, vc_window_secs = 10, vc_cooldown_secs = 1\<rparr>"
    by (simp add: effective_config_def get_payer_override_def get_default_config_def vel_demo_store_def)
  have st: "ve_states vel_demo_store 7 = None" by (simp add: vel_demo_store_def)
  have ord: "sorted (map (timestamp \<circ> fst) vel_demo)"
    and tm: "\<forall>x\<in>set vel_demo. 0 < timestamp (fst x) \<and> timestamp (fst x) < u64_max"
    by (simp_all add: vel_demo_def vel_demo_env_def rust_int)
  note vel_demo_history
  moreover have "length (filter (\<lambda>x. 7 \<le> fst x \<and> fst x < 7 + 10) (history 7 vel_demo vel_demo_store)) \<le> 4"
    using velocity_limits_hold [OF refl _ st ord tm, of 7] by (simp add: c rust_int)
  ultimately show ?thesis by blast
qed

text \<open>
  C29: The velocity limits never lock a payer out: whatever payments were attempted before, once the
  window length and the cooldown have passed since the payer's last accepted payment, \<open>enforce\<close>
  accepts every positive amount up to the maximal amount and opens a new window with it, and rejects
  every other amount; and the query \<open>would_allow\<close> answers accordingly.
\<close>

theorem velocity_recovers:
  assumes "c = effective_config s p" and "is_enabled c" and "vc_max_payments c \<le> u32_max"
    and "ve_states s p = None" and "sorted (map (timestamp \<circ> fst) xs)"
    and "\<forall>x\<in>set xs. 0 < timestamp (fst x) \<and> timestamp (fst x) < u64_max"
    and "\<forall>x\<in>set (history p xs s). fst x + vc_window_secs c \<le> timestamp e
      \<and> fst x + vc_cooldown_secs c \<le> timestamp e"
    and "s' = run enforce_exec xs s"
  shows "(would_allow e p n s' \<longleftrightarrow> 0 < n \<and> n \<le> i128_max \<and> (0 < vc_max_amount c \<longrightarrow> n \<le> vc_max_amount c))
    \<and> (would_allow e p n s' \<longrightarrow> enforce e p n s' = Inr (s'\<lparr>ve_states := (ve_states s')(p \<mapsto>
        \<lparr>vs_window_start = timestamp e, vs_payment_count = 1, vs_amount_total = n,
          vs_last_payment_at = timestamp e\<rparr>)\<rparr>))
    \<and> (\<not> would_allow e p n s' \<longrightarrow> \<not> is_ok (enforce e p n s'))"
proof -
  let ?st = "get_velocity_state s' p"
  have inv: "vel_inv c (history p xs s) ?st"
    unfolding assms(8) by (rule history_inv_fresh) (use assms in auto)
  have "?st = default_velocity_state \<or> vs_window_start ?st \<le> vs_last_payment_at ?st
      \<and> history p xs s \<noteq> [] \<and> vs_last_payment_at ?st = fst (last (history p xs s))"
    using inv by (auto simp: vel_inv_def windows_inv_def)
  then have "(vs_payment_count ?st = 0 \<or> vs_window_start ?st + vc_window_secs c \<le> timestamp e)
      \<and> (vs_last_payment_at ?st = 0 \<or> vs_last_payment_at ?st + vc_cooldown_secs c \<le> timestamp e)"
    using assms(7) last_in_set [of "history p xs s"] by (fastforce simp: default_velocity_state_def)
  then have chk: "velocity_check c ?st n (timestamp e) =
    (if n \<le> 0 then Inl (Err InvalidAmount) else if i128_max < n then Inl (Err ArithmeticOverflow)
     else if 0 < vc_max_amount c \<and> vc_max_amount c < n then Inl (Err RateLimitExceeded)
     else Inr \<lparr>vs_window_start = timestamp e, vs_payment_count = 1, vs_amount_total = n,
       vs_last_payment_at = timestamp e\<rparr>)"
    by (intro velocity_check_fresh_window) auto
  have "effective_config s' p = c" by (simp add: assms(8) enforce_run_config assms(1))
  then show ?thesis using assms(2) by (auto simp: would_allow_def enforce_def chk)
qed

theorem velocity_recovers_witness:
  "would_allow (vel_demo_env 25) 7 100 (run enforce_exec vel_demo vel_demo_store)
    \<and> \<not> would_allow (vel_demo_env 25) 7 101 (run enforce_exec vel_demo vel_demo_store)"
proof -
  have c: "effective_config vel_demo_store 7
      = \<lparr>vc_max_payments = 2, vc_max_amount = 100, vc_window_secs = 10, vc_cooldown_secs = 1\<rparr>"
    by (simp add: effective_config_def get_payer_override_def get_default_config_def vel_demo_store_def)
  have st: "ve_states vel_demo_store 7 = None" by (simp add: vel_demo_store_def)
  have ord: "sorted (map (timestamp \<circ> fst) vel_demo)"
    and tm: "\<forall>x\<in>set vel_demo. 0 < timestamp (fst x) \<and> timestamp (fst x) < u64_max"
    by (simp_all add: vel_demo_def vel_demo_env_def rust_int)
  have en: "is_enabled (effective_config vel_demo_store 7)" "vc_max_payments (effective_config vel_demo_store 7) \<le> u32_max"
    by (simp_all add: c is_enabled_def rust_int)
  have h: "\<forall>x\<in>set (history 7 vel_demo vel_demo_store).
      fst x + vc_window_secs (effective_config vel_demo_store 7) \<le> timestamp (vel_demo_env 25)
      \<and> fst x + vc_cooldown_secs (effective_config vel_demo_store 7) \<le> timestamp (vel_demo_env 25)"
    by (simp add: c vel_demo_history vel_demo_env_def)
  note r = velocity_recovers [OF refl en st ord tm h refl]
  show ?thesis using r [of 100] r [of 101] by (simp add: c rust_int)
qed

end
