(* ===== verification/Invoice_Data.thy ===== *)
theory Invoice_Data
  imports Soroban_Base
begin

text \<open>
  The invoice of the split contract as \<open>contracts/split/src/types.rs\<close> declares it: the in-memory
  invoice, the three records it is stored as, the conversions between them, the status byte and the
  packed form with status, funded amount and deadline. The lemmas show that the conversions lose
  nothing, except for one status in the packed form.
\<close>

section \<open>Data\<close>

text \<open>A 32-byte hash is only compared and copied, so it is a number.\<close>

type_synonym hash = nat

datatype invoice_status =
    Pending | Released | Refunded | Expired | Cancelled | Disputed | PartiallyReleased | Finalised | Deleted
  | PayoutInProgress

datatype overflow_behavior = Reject | Refund | Donate

datatype overfunding_policy = Cap | AcceptAll | ReturnSurplus

datatype resolve_action = ResolveRelease | ResolveRefund

datatype split_rule = RuleFixed int | RulePercentage nat | RuleTiered int nat

record payment_entry =
  pm_payer :: addr
  pm_amount :: int
  pm_tip :: int
  pm_attestation_hash :: "hash option"
  pm_donate_on_failure :: bool
  pm_ledger :: nat
  pm_timestamp :: nat

record tranche =
  tr_timestamp :: nat
  tr_basis_points :: nat

record resolve_rule =
  rr_min_funded_bps :: nat
  rr_action :: resolve_action

record penalty_tier =
  pt_seconds_after_deadline :: nat
  pt_bps :: nat

record bid =
  bd_bidder :: addr
  bd_amount :: int

record invoice_core =
  ic_version :: nat
  ic_creator :: addr
  ic_co_creators :: "addr list"
  ic_recipients :: "addr list"
  ic_amounts :: "int list"
  ic_tokens :: "addr list"
  ic_funding_token :: addr
  ic_deadline :: nat
  ic_funded :: int
  ic_status :: invoice_status
  ic_payments :: "payment_entry list"
  ic_drip_duration :: "nat option"
  ic_release_timestamp :: "nat option"
  ic_claimed :: "int list"
  ic_frozen :: bool
  ic_completion_time :: "nat option"
  ic_allow_early_withdrawal :: bool
  ic_bonus_pool :: int
  ic_bonus_max_payers :: nat
  ic_prerequisite_id :: "nat option"
  ic_tranches :: "tranche list"
  ic_released_bps :: nat
  ic_clone_depth :: nat
  ic_predecessor_id :: "nat option"
  ic_metadata_hash :: "hash option"

record invoice_ext =
  ie_co_signers :: "addr list"
  ie_required_signatures :: nat
  ie_signatures :: "addr list"
  ie_approver :: "addr option"
  ie_approved :: bool
  ie_condition_oracle :: "addr option"
  ie_condition_met :: bool
  ie_penalty_bps :: nat
  ie_penalty_deadline :: nat
  ie_min_funding_bps :: nat
  ie_release_stages :: "nat list"
  ie_released_stages :: nat
  ie_allowed_payers :: "addr list option"
  ie_price_oracle :: "addr option"
  ie_base_amounts :: "int list"
  ie_swap_tokens :: "addr option list"
  ie_tax_bps :: nat
  ie_tax_authority :: "addr option"
  ie_insurance_premium_bps :: nat
  ie_insurance_fund :: int
  ie_smart_route :: bool
  ie_convert_to_stream :: bool
  ie_accepted_tokens :: "addr list"
  ie_forward_to :: "addr option"
  ie_forward_invoice_id :: "nat option"
  ie_split_rules :: "split_rule list"
  ie_auto_resolve_rules :: "resolve_rule list"
  ie_creator_cosigner :: "addr option"
  ie_velocity_limit :: int
  ie_velocity_window :: nat
  ie_parent_invoice_id :: "nat option"
  ie_pause_reason :: "string option"
  ie_auto_resume_at :: "nat option"
  ie_payment_cooldown_secs :: "nat option"
  ie_max_payments_per_window :: "nat option"
  ie_payment_window_secs :: "nat option"
  ie_scheduled_release_at :: "nat option"
  ie_penalty_tiers :: "penalty_tier list"
  ie_allowed_callers :: "addr list option"
  ie_refund_grace_secs :: "nat option"

record invoice_ext2 =
  i2_notification_contract :: "addr option"
  i2_overflow_behavior :: overflow_behavior
  i2_cross_chain_ref :: "string option"
  i2_require_kyc :: bool
  i2_arbiter :: "addr option"
  i2_disputed :: bool
  i2_admin_frozen :: bool
  i2_auction_on_expiry :: bool
  i2_auction_end :: nat
  i2_bids :: "bid list"
  i2_min_payment :: int
  i2_min_funding_amount :: int
  i2_priorities :: "nat list"
  i2_target_usd_cents :: "nat option"
  i2_refunded_addresses :: "addr list"
  i2_oracle :: "addr option"
  i2_oracle_asset_pair_base :: "string option"
  i2_oracle_asset_pair_quote :: "string option"
  i2_min_payer_rep :: "nat option"
  i2_escrow_hold_period :: "nat option"
  i2_held_until :: "nat option"
  i2_milestones :: "nat list"
  i2_milestones_released :: nat
  i2_recipient_max_payouts :: "int option list"
  i2_twafr_numerator :: int
  i2_twafr_last_ledger :: nat
  i2_release_condition_hash :: "hash option"
  i2_recipient_whitelist_enabled :: bool
  i2_overfunding_policy :: overfunding_policy
  i2_contributor_allowlist :: "addr list option"
  i2_early_bird_window_ledgers :: nat
  i2_early_bird_fee_bps :: nat
  i2_early_bird_fee_credit :: int
  i2_creator_fee_bps :: nat
  i2_ratio_denominator :: nat
  i2_ratios :: "nat list"

text \<open>The in-memory invoice has the fields of all three records; it is built in three layers.\<close>

record inv_base =
  inv_version :: nat
  inv_creator :: addr
  inv_co_creators :: "addr list"
  inv_recipients :: "addr list"
  inv_amounts :: "int list"
  inv_tokens :: "addr list"
  inv_funding_token :: addr
  inv_deadline :: nat
  inv_funded :: int
  inv_status :: invoice_status
  inv_payments :: "payment_entry list"
  inv_drip_duration :: "nat option"
  inv_release_timestamp :: "nat option"
  inv_claimed :: "int list"
  inv_frozen :: bool
  inv_completion_time :: "nat option"
  inv_allow_early_withdrawal :: bool
  inv_bonus_pool :: int
  inv_bonus_max_payers :: nat
  inv_prerequisite_id :: "nat option"
  inv_tranches :: "tranche list"
  inv_released_bps :: nat
  inv_clone_depth :: nat
  inv_predecessor_id :: "nat option"
  inv_metadata_hash :: "hash option"

record inv_extended = inv_base +
  inv_co_signers :: "addr list"
  inv_required_signatures :: nat
  inv_signatures :: "addr list"
  inv_approver :: "addr option"
  inv_approved :: bool
  inv_condition_oracle :: "addr option"
  inv_condition_met :: bool
  inv_penalty_bps :: nat
  inv_penalty_deadline :: nat
  inv_min_funding_bps :: nat
  inv_release_stages :: "nat list"
  inv_released_stages :: nat
  inv_allowed_payers :: "addr list option"
  inv_price_oracle :: "addr option"
  inv_base_amounts :: "int list"
  inv_swap_tokens :: "addr option list"
  inv_tax_bps :: nat
  inv_tax_authority :: "addr option"
  inv_insurance_premium_bps :: nat
  inv_insurance_fund :: int
  inv_smart_route :: bool
  inv_convert_to_stream :: bool
  inv_accepted_tokens :: "addr list"
  inv_forward_to :: "addr option"
  inv_forward_invoice_id :: "nat option"
  inv_split_rules :: "split_rule list"
  inv_auto_resolve_rules :: "resolve_rule list"
  inv_creator_cosigner :: "addr option"
  inv_velocity_limit :: int
  inv_velocity_window :: nat
  inv_parent_invoice_id :: "nat option"
  inv_pause_reason :: "string option"
  inv_auto_resume_at :: "nat option"
  inv_payment_cooldown_secs :: "nat option"
  inv_max_payments_per_window :: "nat option"
  inv_payment_window_secs :: "nat option"
  inv_scheduled_release_at :: "nat option"
  inv_penalty_tiers :: "penalty_tier list"
  inv_allowed_callers :: "addr list option"
  inv_refund_grace_secs :: "nat option"

record full_invoice = inv_extended +
  inv_notification_contract :: "addr option"
  inv_overflow_behavior :: overflow_behavior
  inv_cross_chain_ref :: "string option"
  inv_require_kyc :: bool
  inv_arbiter :: "addr option"
  inv_disputed :: bool
  inv_admin_frozen :: bool
  inv_auction_on_expiry :: bool
  inv_auction_end :: nat
  inv_bids :: "bid list"
  inv_min_payment :: int
  inv_min_funding_amount :: int
  inv_priorities :: "nat list"
  inv_target_usd_cents :: "nat option"
  inv_refunded_addresses :: "addr list"
  inv_oracle :: "addr option"
  inv_oracle_asset_pair_base :: "string option"
  inv_oracle_asset_pair_quote :: "string option"
  inv_min_payer_rep :: "nat option"
  inv_escrow_hold_period :: "nat option"
  inv_held_until :: "nat option"
  inv_milestones :: "nat list"
  inv_milestones_released :: nat
  inv_recipient_max_payouts :: "int option list"
  inv_twafr_numerator :: int
  inv_twafr_last_ledger :: nat
  inv_release_condition_hash :: "hash option"
  inv_recipient_whitelist_enabled :: bool
  inv_overfunding_policy :: overfunding_policy
  inv_contributor_allowlist :: "addr list option"
  inv_early_bird_window_ledgers :: nat
  inv_early_bird_fee_bps :: nat
  inv_early_bird_fee_credit :: int
  inv_creator_fee_bps :: nat
  inv_ratio_denominator :: nat
  inv_ratios :: "nat list"

section \<open>Splitting and assembling\<close>

definition invoice_split :: "full_invoice \<Rightarrow> invoice_core \<times> invoice_ext \<times> invoice_ext2" where
  "invoice_split v =
    (\<lparr>
      ic_version = inv_version v, ic_creator = inv_creator v, ic_co_creators = inv_co_creators v,
      ic_recipients = inv_recipients v, ic_amounts = inv_amounts v, ic_tokens = inv_tokens v,
      ic_funding_token = inv_funding_token v, ic_deadline = inv_deadline v, ic_funded = inv_funded v,
      ic_status = inv_status v, ic_payments = inv_payments v, ic_drip_duration = inv_drip_duration v,
      ic_release_timestamp = inv_release_timestamp v, ic_claimed = inv_claimed v, ic_frozen = inv_frozen v,
      ic_completion_time = inv_completion_time v, ic_allow_early_withdrawal = inv_allow_early_withdrawal v,
      ic_bonus_pool = inv_bonus_pool v, ic_bonus_max_payers = inv_bonus_max_payers v,
      ic_prerequisite_id = inv_prerequisite_id v, ic_tranches = inv_tranches v,
      ic_released_bps = inv_released_bps v, ic_clone_depth = inv_clone_depth v,
      ic_predecessor_id = inv_predecessor_id v, ic_metadata_hash = inv_metadata_hash v\<rparr>,
     \<lparr>
      ie_co_signers = inv_co_signers v, ie_required_signatures = inv_required_signatures v,
      ie_signatures = inv_signatures v, ie_approver = inv_approver v, ie_approved = inv_approved v,
      ie_condition_oracle = inv_condition_oracle v, ie_condition_met = inv_condition_met v,
      ie_penalty_bps = inv_penalty_bps v, ie_penalty_deadline = inv_penalty_deadline v,
      ie_min_funding_bps = inv_min_funding_bps v, ie_release_stages = inv_release_stages v,
      ie_released_stages = inv_released_stages v, ie_allowed_payers = inv_allowed_payers v,
      ie_price_oracle = inv_price_oracle v, ie_base_amounts = inv_base_amounts v,
      ie_swap_tokens = inv_swap_tokens v, ie_tax_bps = inv_tax_bps v, ie_tax_authority = inv_tax_authority v,
      ie_insurance_premium_bps = inv_insurance_premium_bps v, ie_insurance_fund = inv_insurance_fund v,
      ie_smart_route = inv_smart_route v, ie_convert_to_stream = inv_convert_to_stream v,
      ie_accepted_tokens = inv_accepted_tokens v, ie_forward_to = inv_forward_to v,
      ie_forward_invoice_id = inv_forward_invoice_id v, ie_split_rules = inv_split_rules v,
      ie_auto_resolve_rules = inv_auto_resolve_rules v, ie_creator_cosigner = inv_creator_cosigner v,
      ie_velocity_limit = inv_velocity_limit v, ie_velocity_window = inv_velocity_window v,
      ie_parent_invoice_id = inv_parent_invoice_id v, ie_pause_reason = inv_pause_reason v,
      ie_auto_resume_at = inv_auto_resume_at v, ie_payment_cooldown_secs = inv_payment_cooldown_secs v,
      ie_max_payments_per_window = inv_max_payments_per_window v,
      ie_payment_window_secs = inv_payment_window_secs v, ie_scheduled_release_at = inv_scheduled_release_at v,
      ie_penalty_tiers = inv_penalty_tiers v, ie_allowed_callers = inv_allowed_callers v,
      ie_refund_grace_secs = inv_refund_grace_secs v\<rparr>,
     \<lparr>
      i2_notification_contract = inv_notification_contract v, i2_overflow_behavior = inv_overflow_behavior v,
      i2_cross_chain_ref = inv_cross_chain_ref v, i2_require_kyc = inv_require_kyc v,
      i2_arbiter = inv_arbiter v, i2_disputed = inv_disputed v, i2_admin_frozen = inv_admin_frozen v,
      i2_auction_on_expiry = inv_auction_on_expiry v, i2_auction_end = inv_auction_end v, i2_bids = inv_bids v,
      i2_min_payment = inv_min_payment v, i2_min_funding_amount = inv_min_funding_amount v,
      i2_priorities = inv_priorities v, i2_target_usd_cents = inv_target_usd_cents v,
      i2_refunded_addresses = inv_refunded_addresses v, i2_oracle = inv_oracle v,
      i2_oracle_asset_pair_base = inv_oracle_asset_pair_base v,
      i2_oracle_asset_pair_quote = inv_oracle_asset_pair_quote v, i2_min_payer_rep = inv_min_payer_rep v,
      i2_escrow_hold_period = inv_escrow_hold_period v, i2_held_until = inv_held_until v,
      i2_milestones = inv_milestones v, i2_milestones_released = inv_milestones_released v,
      i2_recipient_max_payouts = inv_recipient_max_payouts v, i2_twafr_numerator = inv_twafr_numerator v,
      i2_twafr_last_ledger = inv_twafr_last_ledger v, i2_release_condition_hash = inv_release_condition_hash v,
      i2_recipient_whitelist_enabled = inv_recipient_whitelist_enabled v,
      i2_overfunding_policy = inv_overfunding_policy v, i2_contributor_allowlist = inv_contributor_allowlist v,
      i2_early_bird_window_ledgers = inv_early_bird_window_ledgers v,
      i2_early_bird_fee_bps = inv_early_bird_fee_bps v, i2_early_bird_fee_credit = inv_early_bird_fee_credit v,
      i2_creator_fee_bps = inv_creator_fee_bps v, i2_ratio_denominator = inv_ratio_denominator v,
      i2_ratios = inv_ratios v\<rparr>)"

definition assemble :: "invoice_core \<Rightarrow> invoice_ext \<Rightarrow> invoice_ext2 \<Rightarrow> full_invoice" where
  "assemble core ext ext2 = \<lparr>
      inv_version = ic_version core, inv_creator = ic_creator core, inv_co_creators = ic_co_creators core,
      inv_recipients = ic_recipients core, inv_amounts = ic_amounts core, inv_tokens = ic_tokens core,
      inv_funding_token = ic_funding_token core, inv_deadline = ic_deadline core, inv_funded = ic_funded core,
      inv_status = ic_status core, inv_payments = ic_payments core, inv_drip_duration = ic_drip_duration core,
      inv_release_timestamp = ic_release_timestamp core, inv_claimed = ic_claimed core,
      inv_frozen = ic_frozen core, inv_completion_time = ic_completion_time core,
      inv_allow_early_withdrawal = ic_allow_early_withdrawal core, inv_bonus_pool = ic_bonus_pool core,
      inv_bonus_max_payers = ic_bonus_max_payers core, inv_prerequisite_id = ic_prerequisite_id core,
      inv_tranches = ic_tranches core, inv_released_bps = ic_released_bps core,
      inv_clone_depth = ic_clone_depth core, inv_predecessor_id = ic_predecessor_id core,
      inv_metadata_hash = ic_metadata_hash core, inv_co_signers = ie_co_signers ext,
      inv_required_signatures = ie_required_signatures ext, inv_signatures = ie_signatures ext,
      inv_approver = ie_approver ext, inv_approved = ie_approved ext,
      inv_condition_oracle = ie_condition_oracle ext, inv_condition_met = ie_condition_met ext,
      inv_penalty_bps = ie_penalty_bps ext, inv_penalty_deadline = ie_penalty_deadline ext,
      inv_min_funding_bps = ie_min_funding_bps ext, inv_release_stages = ie_release_stages ext,
      inv_released_stages = ie_released_stages ext, inv_allowed_payers = ie_allowed_payers ext,
      inv_price_oracle = ie_price_oracle ext, inv_base_amounts = ie_base_amounts ext,
      inv_swap_tokens = ie_swap_tokens ext, inv_tax_bps = ie_tax_bps ext,
      inv_tax_authority = ie_tax_authority ext, inv_insurance_premium_bps = ie_insurance_premium_bps ext,
      inv_insurance_fund = ie_insurance_fund ext, inv_smart_route = ie_smart_route ext,
      inv_convert_to_stream = ie_convert_to_stream ext, inv_accepted_tokens = ie_accepted_tokens ext,
      inv_forward_to = ie_forward_to ext, inv_forward_invoice_id = ie_forward_invoice_id ext,
      inv_split_rules = ie_split_rules ext, inv_auto_resolve_rules = ie_auto_resolve_rules ext,
      inv_creator_cosigner = ie_creator_cosigner ext, inv_velocity_limit = ie_velocity_limit ext,
      inv_velocity_window = ie_velocity_window ext, inv_parent_invoice_id = ie_parent_invoice_id ext,
      inv_pause_reason = ie_pause_reason ext, inv_auto_resume_at = ie_auto_resume_at ext,
      inv_payment_cooldown_secs = ie_payment_cooldown_secs ext,
      inv_max_payments_per_window = ie_max_payments_per_window ext,
      inv_payment_window_secs = ie_payment_window_secs ext,
      inv_scheduled_release_at = ie_scheduled_release_at ext, inv_penalty_tiers = ie_penalty_tiers ext,
      inv_allowed_callers = ie_allowed_callers ext, inv_refund_grace_secs = ie_refund_grace_secs ext,
      inv_notification_contract = i2_notification_contract ext2,
      inv_overflow_behavior = i2_overflow_behavior ext2, inv_cross_chain_ref = i2_cross_chain_ref ext2,
      inv_require_kyc = i2_require_kyc ext2, inv_arbiter = i2_arbiter ext2, inv_disputed = i2_disputed ext2,
      inv_admin_frozen = i2_admin_frozen ext2, inv_auction_on_expiry = i2_auction_on_expiry ext2,
      inv_auction_end = i2_auction_end ext2, inv_bids = i2_bids ext2, inv_min_payment = i2_min_payment ext2,
      inv_min_funding_amount = i2_min_funding_amount ext2, inv_priorities = i2_priorities ext2,
      inv_target_usd_cents = i2_target_usd_cents ext2, inv_refunded_addresses = i2_refunded_addresses ext2,
      inv_oracle = i2_oracle ext2, inv_oracle_asset_pair_base = i2_oracle_asset_pair_base ext2,
      inv_oracle_asset_pair_quote = i2_oracle_asset_pair_quote ext2, inv_min_payer_rep = i2_min_payer_rep ext2,
      inv_escrow_hold_period = i2_escrow_hold_period ext2, inv_held_until = i2_held_until ext2,
      inv_milestones = i2_milestones ext2, inv_milestones_released = i2_milestones_released ext2,
      inv_recipient_max_payouts = i2_recipient_max_payouts ext2, inv_twafr_numerator = i2_twafr_numerator ext2,
      inv_twafr_last_ledger = i2_twafr_last_ledger ext2,
      inv_release_condition_hash = i2_release_condition_hash ext2,
      inv_recipient_whitelist_enabled = i2_recipient_whitelist_enabled ext2,
      inv_overfunding_policy = i2_overfunding_policy ext2,
      inv_contributor_allowlist = i2_contributor_allowlist ext2,
      inv_early_bird_window_ledgers = i2_early_bird_window_ledgers ext2,
      inv_early_bird_fee_bps = i2_early_bird_fee_bps ext2,
      inv_early_bird_fee_credit = i2_early_bird_fee_credit ext2, inv_creator_fee_bps = i2_creator_fee_bps ext2,
      inv_ratio_denominator = i2_ratio_denominator ext2, inv_ratios = i2_ratios ext2\<rparr>"

text \<open>The extension records of an invoice that was stored before they existed.\<close>

definition default_ext :: invoice_ext where
  "default_ext = \<lparr>
      ie_co_signers = [], ie_required_signatures = 0, ie_signatures = [], ie_approver = None,
      ie_approved = False, ie_condition_oracle = None, ie_condition_met = False, ie_penalty_bps = 0,
      ie_penalty_deadline = 0, ie_min_funding_bps = 0, ie_release_stages = [], ie_released_stages = 0,
      ie_allowed_payers = None, ie_price_oracle = None, ie_base_amounts = [], ie_swap_tokens = [],
      ie_tax_bps = 0, ie_tax_authority = None, ie_insurance_premium_bps = 0, ie_insurance_fund = 0,
      ie_smart_route = False, ie_convert_to_stream = False, ie_accepted_tokens = [], ie_forward_to = None,
      ie_forward_invoice_id = None, ie_split_rules = [], ie_auto_resolve_rules = [],
      ie_creator_cosigner = None, ie_velocity_limit = 0, ie_velocity_window = 0, ie_parent_invoice_id = None,
      ie_pause_reason = None, ie_auto_resume_at = None, ie_payment_cooldown_secs = None,
      ie_max_payments_per_window = None, ie_payment_window_secs = None, ie_scheduled_release_at = None,
      ie_penalty_tiers = [], ie_allowed_callers = None, ie_refund_grace_secs = None\<rparr>"

definition default_ext2 :: invoice_ext2 where
  "default_ext2 = \<lparr>
      i2_notification_contract = None, i2_overflow_behavior = Reject, i2_cross_chain_ref = None,
      i2_require_kyc = False, i2_arbiter = None, i2_disputed = False, i2_admin_frozen = False,
      i2_auction_on_expiry = False, i2_auction_end = 0, i2_bids = [], i2_min_payment = 0,
      i2_min_funding_amount = 0, i2_priorities = [], i2_target_usd_cents = None, i2_refunded_addresses = [],
      i2_oracle = None, i2_oracle_asset_pair_base = None, i2_oracle_asset_pair_quote = None,
      i2_min_payer_rep = None, i2_escrow_hold_period = None, i2_held_until = None, i2_milestones = [],
      i2_milestones_released = 0, i2_recipient_max_payouts = [], i2_twafr_numerator = 0,
      i2_twafr_last_ledger = 0, i2_release_condition_hash = None, i2_recipient_whitelist_enabled = False,
      i2_overfunding_policy = Cap, i2_contributor_allowlist = None, i2_early_bird_window_ledgers = 0,
      i2_early_bird_fee_bps = 0, i2_early_bird_fee_credit = 0, i2_creator_fee_bps = 0,
      i2_ratio_denominator = 1, i2_ratios = []\<rparr>"

lemma assemble_split: "invoice_split v = (core, ext, ext2) \<Longrightarrow> assemble core ext ext2 = v"
  by (cases v) (auto simp: invoice_split_def assemble_def)

lemma split_assemble: "invoice_split (assemble core ext ext2) = (core, ext, ext2)"
  by (cases core, cases ext, cases ext2) (simp add: invoice_split_def assemble_def)


section \<open>Status bytes and the packed form\<close>

fun to_u8 :: "invoice_status \<Rightarrow> nat" where
  "to_u8 Pending = 0"
| "to_u8 Released = 1"
| "to_u8 Refunded = 2"
| "to_u8 Cancelled = 3"
| "to_u8 Expired = 4"
| "to_u8 Disputed = 5"
| "to_u8 PartiallyReleased = 6"
| "to_u8 Finalised = 7"
| "to_u8 Deleted = 8"
| "to_u8 PayoutInProgress = 9"

definition from_u8 :: "nat \<Rightarrow> invoice_status" where
  "from_u8 v =
    (if v = 0 then Pending else if v = 1 then Released else if v = 2 then Refunded
     else if v = 3 then Cancelled else if v = 4 then Expired else if v = 5 then Disputed
     else if v = 6 then PartiallyReleased else if v = 7 then Finalised else if v = 8 then Deleted
     else if v = 9 then PayoutInProgress else Pending)"

text \<open>\<open>to_be_bytes\<close> and \<open>from_be_bytes\<close> of the Rust integers: \<open>n\<close> bytes, most significant first, in two's
  complement for signed integers.\<close>

fun to_be_bytes :: "nat \<Rightarrow> int \<Rightarrow> nat list" where
  "to_be_bytes 0 x = []"
| "to_be_bytes (Suc n) x = to_be_bytes n (x div 256) @ [nat (x mod 256)]"

definition from_be_bytes :: "nat list \<Rightarrow> int" where
  "from_be_bytes bs = foldl (\<lambda>acc b. acc * 256 + int b) 0 bs"

text \<open>The packed status uses its own table, which ends at \<open>Deleted\<close>.\<close>

definition compact_status :: "nat \<Rightarrow> invoice_status" where
  "compact_status v =
    (if v = 0 then Pending else if v = 1 then Released else if v = 2 then Refunded
     else if v = 3 then Cancelled else if v = 4 then Expired else if v = 5 then Disputed
     else if v = 6 then PartiallyReleased else if v = 7 then Finalised else if v = 8 then Deleted
     else Pending)"

definition to_compact :: "full_invoice \<Rightarrow> nat list" where
  "to_compact v = to_u8 (inv_status v) # to_be_bytes 16 (inv_funded v) @ to_be_bytes 8 (int (inv_deadline v))"

definition from_compact ::
  "nat list \<Rightarrow> invoice_core \<Rightarrow> invoice_ext \<Rightarrow> invoice_ext2 \<Rightarrow> ('e, full_invoice) result" where
  "from_compact bytes core ext ext2 =
    (if length bytes < 25 then Inl (Trap ''from_compact: data too short'')
     else
       let status = compact_status (bytes ! 0);
           funded = as_i128 (from_be_bytes (take 16 (drop 1 bytes)));
           deadline = nat (from_be_bytes (take 8 (drop 17 bytes)))
       in Inr ((assemble core ext ext2)\<lparr>inv_status := status, inv_funded := funded, inv_deadline := deadline\<rparr>))"

lemma from_u8_to_u8 [simp]: "from_u8 (to_u8 st) = st"
  by (cases st) (simp_all add: from_u8_def)

lemma compact_status_to_u8: "compact_status (to_u8 st) = (if st = PayoutInProgress then Pending else st)"
  by (cases st) (simp_all add: compact_status_def)

lemma length_to_be_bytes [simp]: "length (to_be_bytes n x) = n"
  by (induction n arbitrary: x) auto

lemma from_be_bytes_snoc: "from_be_bytes (bs @ [b]) = from_be_bytes bs * 256 + int b"
  by (simp add: from_be_bytes_def)

lemma from_to_be_bytes: "from_be_bytes (to_be_bytes n x) = x mod 256 ^ n"
proof (induction n arbitrary: x)
  case 0
  then show ?case by (simp add: from_be_bytes_def)
next
  case (Suc n)
  have "x mod (256 * 256 ^ n) = 256 * (x div 256 mod 256 ^ n) + x mod 256" by (rule zmod_zmult2_eq) simp
  then show ?case by (simp add: from_be_bytes_snoc Suc)
qed

lemma as_i128_mod: "fits_i128 x \<Longrightarrow> as_i128 (x mod 2 ^ 128) = x"
  using as_i128_as_u128 [of x] by (simp add: as_u128_def)

text \<open>
  C34: The packed form of an invoice keeps status, funded amount and deadline: unpacking what was packed
  over the stored records gives the invoice back, for every funded amount and deadline of their machine
  types; only an invoice in \<open>PayoutInProgress\<close> is unpacked as \<open>Pending\<close>, because the table of
  \<open>from_compact\<close> has no entry for its byte.
\<close>

theorem compact_roundtrip:
  assumes "invoice_split v = (core, ext, ext2)" and "fits_i128 (inv_funded v)" and "inv_deadline v \<le> u64_max"
  shows "from_compact (to_compact v) core ext ext2 =
    Inr (if inv_status v = PayoutInProgress then v\<lparr>inv_status := Pending\<rparr> else v)"
proof -
  let ?f = "to_be_bytes 16 (inv_funded v)" and ?d = "to_be_bytes 8 (int (inv_deadline v))"
  have len: "length (to_compact v) = 25" by (simp add: to_compact_def del: to_be_bytes.simps)
  have f: "take 16 (drop 1 (to_compact v)) = ?f" and d: "take 8 (drop 17 (to_compact v)) = ?d"
    and st: "to_compact v ! 0 = to_u8 (inv_status v)"
    by (simp_all add: to_compact_def del: to_be_bytes.simps)
  have "as_i128 (from_be_bytes ?f) = inv_funded v"
    using as_i128_mod [OF assms(2)] by (simp add: from_to_be_bytes del: to_be_bytes.simps)
  moreover have "nat (from_be_bytes ?d) = inv_deadline v"
    using assms(3) by (simp add: from_to_be_bytes rust_int del: to_be_bytes.simps)
  ultimately show ?thesis
    using assemble_split [OF assms(1)] unfolding from_compact_def Let_def f d st len
    by (cases "inv_status v = PayoutInProgress") (simp_all add: compact_status_to_u8 compact_status_def [of 9])
qed

definition demo_core :: "invoice_status \<Rightarrow> invoice_core" where
  "demo_core st = \<lparr>ic_version = 1, ic_creator = 2, ic_co_creators = [], ic_recipients = [3, 4],
    ic_amounts = [60, 40], ic_tokens = [9], ic_funding_token = 9, ic_deadline = 1000, ic_funded = 100,
    ic_status = st, ic_payments = [], ic_drip_duration = None, ic_release_timestamp = None, ic_claimed = [],
    ic_frozen = False, ic_completion_time = None, ic_allow_early_withdrawal = False, ic_bonus_pool = 0,
    ic_bonus_max_payers = 0, ic_prerequisite_id = None, ic_tranches = [], ic_released_bps = 0,
    ic_clone_depth = 0, ic_predecessor_id = None, ic_metadata_hash = None\<rparr>"

definition demo_invoice :: "invoice_status \<Rightarrow> full_invoice" where
  "demo_invoice st = assemble (demo_core st) default_ext default_ext2"

lemma demo_invoice_sel [simp]:
  "inv_status (demo_invoice st) = st" "inv_funded (demo_invoice st) = 100" "inv_deadline (demo_invoice st) = 1000"
  "invoice_split (demo_invoice st) = (demo_core st, default_ext, default_ext2)"
  by (simp_all add: demo_invoice_def split_assemble) (simp_all add: assemble_def demo_core_def)

theorem compact_roundtrip_witness:
  "from_compact (to_compact (demo_invoice Released)) (demo_core Released) default_ext default_ext2
      = (Inr (demo_invoice Released) :: (unit, full_invoice) result)
    \<and> from_compact (to_compact (demo_invoice PayoutInProgress)) (demo_core PayoutInProgress) default_ext default_ext2
      = (Inr ((demo_invoice PayoutInProgress)\<lparr>inv_status := Pending\<rparr>) :: (unit, full_invoice) result)"
  using compact_roundtrip [of "demo_invoice Released"] compact_roundtrip [of "demo_invoice PayoutInProgress"]
  by (simp add: rust_int)

end
