(* ===== verification/Circuit_Breaker.thy ===== *)
theory Circuit_Breaker
  imports Split_Admin
begin

text \<open>
  Model of the contract-wide circuit breaker and of the pause switches of the split contract
  (\<open>contracts/split/src/lib.rs\<close>, \<open>types.rs\<close>, \<open>events.rs\<close>). The breaker is spread over several storage
  keys; the abstract machine below has three modes, and the refinement theorem shows that the keys
  implement it and that the guard of the entry points blocks exactly in the open mode.
\<close>

section \<open>Data\<close>

datatype circuit_breaker_state = CbClosed | CbOpen | CbHalfOpen

record circuit_breaker_config =
  cc_failure_threshold :: nat
  cc_failure_window_ledgers :: nat
  cc_recovery_ledgers :: nat

record circuit_breaker_transition =
  ct_from :: circuit_breaker_state
  ct_to :: circuit_breaker_state
  ct_actor :: addr
  ct_reason :: string
  ct_ledger :: nat
  ct_timestamp :: nat

record circuit_breaker_status =
  cs_active :: bool
  cs_reason :: "string option"
  cs_state :: circuit_breaker_state
  cs_opened_at_ledger :: nat
  cs_recovery_started_ledger :: nat
  cs_failure_count :: nat

datatype breaker_event =
    BreakerActivated string
  | BreakerDeactivated
  | BreakerStateChanged circuit_breaker_state circuit_breaker_state addr string nat
  | BreakerFailureReported addr nat nat
  | BreakerExemptionSet string bool
  | ContractPausedEv addr nat
  | ContractUnpausedEv addr nat

record breaker_store =
  cb_flag :: "bool option"
  cb_reason :: "string option"
  cb_state :: "circuit_breaker_state option"
  cb_config :: "circuit_breaker_config option"
  cb_exempt :: "string list option"
  cb_failures :: "(nat \<times> nat) option"
  cb_opened :: "nat option"
  cb_recovery :: "nat option"
  cb_history :: "circuit_breaker_transition list option"
  cb_paused_instance :: "bool option"
  cb_paused_persistent :: "bool option"
  cb_paused_fns :: "string list option"
  cb_events :: "breaker_event list"

definition empty_breaker :: breaker_store where
  "empty_breaker = \<lparr>cb_flag = None, cb_reason = None, cb_state = None, cb_config = None, cb_exempt = None,
    cb_failures = None, cb_opened = None, cb_recovery = None, cb_history = None, cb_paused_instance = None,
    cb_paused_persistent = None, cb_paused_fns = None, cb_events = []\<rparr>"

definition DEFAULT_CB_FAILURE_THRESHOLD :: nat where "DEFAULT_CB_FAILURE_THRESHOLD = 3"

definition DEFAULT_CB_FAILURE_WINDOW_LEDGERS :: nat where "DEFAULT_CB_FAILURE_WINDOW_LEDGERS = 720"

definition DEFAULT_CB_RECOVERY_LEDGERS :: nat where "DEFAULT_CB_RECOVERY_LEDGERS = 120"

definition MAX_CB_HISTORY_ENTRIES :: nat where "MAX_CB_HISTORY_ENTRIES = 50"

definition cb_emit :: "breaker_event \<Rightarrow> breaker_store \<Rightarrow> breaker_store" where
  "cb_emit x s = s\<lparr>cb_events := cb_events s @ [x]\<rparr>"


section \<open>Guards\<close>

definition is_paused :: "breaker_store \<Rightarrow> bool" where
  "is_paused s =
    (case cb_paused_instance s of
       Some b \<Rightarrow> b
     | None \<Rightarrow> (case cb_paused_persistent s of Some b \<Rightarrow> b | None \<Rightarrow> False))"

definition load_circuit_breaker_exemptions :: "breaker_store \<Rightarrow> string list" where
  "load_circuit_breaker_exemptions s = (case cb_exempt s of Some xs \<Rightarrow> xs | None \<Rightarrow> [])"

definition flag_active :: "breaker_store \<Rightarrow> bool" where
  "flag_active s = (case cb_flag s of Some b \<Rightarrow> b | None \<Rightarrow> False)"

definition circuit_breaker_blocks :: "breaker_store \<Rightarrow> string option \<Rightarrow> bool" where
  "circuit_breaker_blocks s function =
    (if \<not> flag_active s then False
     else (case function of
             Some f \<Rightarrow> f \<notin> set (load_circuit_breaker_exemptions s)
           | None \<Rightarrow> True))"

definition assert_not_paused :: "breaker_store \<Rightarrow> unit split_result" where
  "assert_not_paused s =
    (if is_paused s then Inl (Err ContractPaused)
     else if circuit_breaker_blocks s None then Inl (Err ContractPaused)
     else Inr ())"

definition assert_not_paused_for :: "breaker_store \<Rightarrow> string \<Rightarrow> unit split_result" where
  "assert_not_paused_for s function =
    (if is_paused s then Inl (Err ContractPaused)
     else if circuit_breaker_blocks s (Some function) then Inl (Err ContractPaused)
     else Inr ())"

definition require_not_paused :: "admin_store \<Rightarrow> breaker_store \<Rightarrow> unit split_result" where
  "require_not_paused a s =
    bindr (require_schema_current a) (\<lambda>_.
    if is_ok (assert_not_paused s) then Inr () else Inl (Trap ''contract is paused''))"

definition check_not_paused :: "admin_store \<Rightarrow> breaker_store \<Rightarrow> unit split_result" where
  "check_not_paused a s =
    bindr (require_schema_current a) (\<lambda>_.
    if is_ok (assert_not_paused s) then Inr () else Inl (Trap ''ContractPaused''))"

definition require_fn_not_paused :: "admin_store \<Rightarrow> string \<Rightarrow> breaker_store \<Rightarrow> unit split_result" where
  "require_fn_not_paused a name s =
    bindr (require_schema_current a) (\<lambda>_.
    if \<not> is_ok (assert_not_paused_for s name) then Inl (Trap ''contract is paused'')
    else if name \<in> set (case cb_paused_fns s of Some xs \<Rightarrow> xs | None \<Rightarrow> []) then Inl (Trap ''function paused'')
    else Inr ())"


section \<open>Operations\<close>

definition load_circuit_breaker_state :: "breaker_store \<Rightarrow> circuit_breaker_state" where
  "load_circuit_breaker_state s =
    (case cb_state s of
       Some st \<Rightarrow> st
     | None \<Rightarrow> if flag_active s then CbOpen else CbClosed)"

definition load_circuit_breaker_config :: "breaker_store \<Rightarrow> circuit_breaker_config" where
  "load_circuit_breaker_config s =
    (case cb_config s of
       Some c \<Rightarrow> c
     | None \<Rightarrow> \<lparr>cc_failure_threshold = DEFAULT_CB_FAILURE_THRESHOLD,
         cc_failure_window_ledgers = DEFAULT_CB_FAILURE_WINDOW_LEDGERS,
         cc_recovery_ledgers = DEFAULT_CB_RECOVERY_LEDGERS\<rparr>)"

fun cap_history :: "circuit_breaker_transition list \<Rightarrow> circuit_breaker_transition list" where
  "cap_history [] = []"
| "cap_history (x # h) = (if MAX_CB_HISTORY_ENTRIES < length (x # h) then cap_history h else x # h)"

definition transition_circuit_breaker ::
  "'x ledger_env_scheme \<Rightarrow> circuit_breaker_state \<Rightarrow> addr \<Rightarrow> string \<Rightarrow> breaker_store \<Rightarrow> breaker_store" where
  "transition_circuit_breaker e to actor reason s =
    (let from = load_circuit_breaker_state s;
         ledger = sequence e;
         s1 = s\<lparr>cb_state := Some to, cb_flag := Some (to = CbOpen), cb_failures := None\<rparr>;
         s2 = (case to of
                 CbOpen \<Rightarrow> s1\<lparr>cb_reason := Some reason, cb_opened := Some ledger, cb_recovery := None\<rparr>
               | CbHalfOpen \<Rightarrow> s1\<lparr>cb_recovery := Some ledger\<rparr>
               | CbClosed \<Rightarrow> s1\<lparr>cb_reason := None, cb_opened := None, cb_recovery := None\<rparr>);
         entry = \<lparr>ct_from = from, ct_to = to, ct_actor = actor, ct_reason = reason, ct_ledger = ledger,
                  ct_timestamp = timestamp e\<rparr>;
         history = (case cb_history s2 of Some h \<Rightarrow> h | None \<Rightarrow> []) @ [entry]
     in cb_emit (BreakerStateChanged from to actor reason ledger)
          (s2\<lparr>cb_history := Some (cap_history history)\<rparr>))"

definition activate_circuit_breaker ::
  "'x ledger_env_scheme \<Rightarrow> admin_store \<Rightarrow> addr \<Rightarrow> string \<Rightarrow> breaker_store \<Rightarrow> breaker_store split_result" where
  "activate_circuit_breaker e a admin reason s =
    bindr (require_admin_role e admin SuperAdmin a) (\<lambda>_.
    Inr (cb_emit (BreakerActivated reason) (transition_circuit_breaker e CbOpen admin reason s)))"

definition deactivate_circuit_breaker ::
  "'x ledger_env_scheme \<Rightarrow> admin_store \<Rightarrow> addr \<Rightarrow> breaker_store \<Rightarrow> breaker_store split_result" where
  "deactivate_circuit_breaker e a admin s =
    bindr (require_admin_role e admin SuperAdmin a) (\<lambda>_.
    Inr (cb_emit BreakerDeactivated (transition_circuit_breaker e CbClosed admin ''manual deactivation'' s)))"

definition begin_circuit_recovery ::
  "'x ledger_env_scheme \<Rightarrow> admin_store \<Rightarrow> addr \<Rightarrow> breaker_store \<Rightarrow> breaker_store split_result" where
  "begin_circuit_recovery e a admin s =
    bindr (require_admin_role e admin SuperAdmin a) (\<lambda>_.
    bindr (ensure (load_circuit_breaker_state s = CbOpen) (Trap ''invalid circuit breaker transition'')) (\<lambda>_.
    Inr (transition_circuit_breaker e CbHalfOpen admin ''recovery started'' s)))"

definition complete_circuit_recovery ::
  "'x ledger_env_scheme \<Rightarrow> admin_store \<Rightarrow> addr \<Rightarrow> breaker_store \<Rightarrow> breaker_store split_result" where
  "complete_circuit_recovery e a admin s =
    bindr (require_admin_role e admin SuperAdmin a) (\<lambda>_.
    bindr (ensure (load_circuit_breaker_state s = CbHalfOpen) (Trap ''invalid circuit breaker transition'')) (\<lambda>_.
    let started = (case cb_recovery s of Some l \<Rightarrow> l | None \<Rightarrow> 0);
        config = load_circuit_breaker_config s
    in bindr (ensure (sat_add u32_max started (cc_recovery_ledgers config) \<le> sequence e)
           (Trap ''recovery period not elapsed'')) (\<lambda>_.
       Inr (cb_emit BreakerDeactivated
         (transition_circuit_breaker e CbClosed admin ''recovery complete'' s)))))"

definition count_failure ::
  "circuit_breaker_config \<Rightarrow> nat \<Rightarrow> (nat \<times> nat) option \<Rightarrow> nat \<times> nat" where
  "count_failure config ledger failures =
    (let (count, window_start) = (case failures of Some f \<Rightarrow> f | None \<Rightarrow> (0, ledger));
         (count, window_start) =
           (if cc_failure_window_ledgers config \<le> ledger - window_start then (0, ledger) else (count, window_start))
     in (sat_add u32_max count 1, window_start))"

definition report_circuit_failure ::
  "'x ledger_env_scheme \<Rightarrow> admin_store \<Rightarrow> addr \<Rightarrow> string \<Rightarrow> breaker_store
    \<Rightarrow> (circuit_breaker_state \<times> breaker_store) split_result" where
  "report_circuit_failure e a reporter reason s =
    bindr (require_admin_role e reporter Operator a) (\<lambda>_.
    let state = load_circuit_breaker_state s;
        config = load_circuit_breaker_config s;
        (count, window_start) = count_failure config (sequence e) (cb_failures s);
        s1 = cb_emit (BreakerFailureReported reporter count (cc_failure_threshold config)) s;
        should_trip = (case state of
            CbOpen \<Rightarrow> False
          | CbHalfOpen \<Rightarrow> True
          | CbClosed \<Rightarrow> 0 < cc_failure_threshold config \<and> cc_failure_threshold config \<le> count)
    in if should_trip
       then Inr (CbOpen, cb_emit (BreakerActivated reason) (transition_circuit_breaker e CbOpen reporter reason s1))
       else Inr (state, s1\<lparr>cb_failures := Some (count, window_start)\<rparr>))"

definition set_circuit_breaker_config ::
  "'x ledger_env_scheme \<Rightarrow> admin_store \<Rightarrow> addr \<Rightarrow> circuit_breaker_config \<Rightarrow> breaker_store
    \<Rightarrow> breaker_store split_result" where
  "set_circuit_breaker_config e a admin config s =
    bindr (require_admin_role e admin SuperAdmin a) (\<lambda>_.
    bindr (ensure (0 < cc_failure_window_ledgers config) (Trap ''failure window must be positive'')) (\<lambda>_.
    Inr (s\<lparr>cb_config := Some config\<rparr>)))"

definition set_circuit_breaker_exemption ::
  "'x ledger_env_scheme \<Rightarrow> admin_store \<Rightarrow> addr \<Rightarrow> string \<Rightarrow> bool \<Rightarrow> breaker_store \<Rightarrow> breaker_store split_result" where
  "set_circuit_breaker_exemption e a admin function exempt s =
    bindr (require_admin_role e admin SuperAdmin a) (\<lambda>_.
    let updated = filter (\<lambda>f. f \<noteq> function) (load_circuit_breaker_exemptions s);
        updated = (if exempt then updated @ [function] else updated)
    in Inr (cb_emit (BreakerExemptionSet function exempt) (s\<lparr>cb_exempt := Some updated\<rparr>)))"

definition get_circuit_breaker_status :: "'x ledger_env_scheme \<Rightarrow> breaker_store \<Rightarrow> circuit_breaker_status" where
  "get_circuit_breaker_status e s =
    (let config = load_circuit_breaker_config s;
         failure_count = (case cb_failures s of
             Some (count, window_start) \<Rightarrow>
               if sequence e - window_start < cc_failure_window_ledgers config then count else 0
           | None \<Rightarrow> 0)
     in \<lparr>cs_active = flag_active s, cs_reason = cb_reason s, cs_state = load_circuit_breaker_state s,
         cs_opened_at_ledger = (case cb_opened s of Some l \<Rightarrow> l | None \<Rightarrow> 0),
         cs_recovery_started_ledger = (case cb_recovery s of Some l \<Rightarrow> l | None \<Rightarrow> 0),
         cs_failure_count = failure_count\<rparr>)"

definition pause_auth :: "'x ledger_env_scheme \<Rightarrow> admin_store \<Rightarrow> addr \<Rightarrow> unit split_result" where
  "pause_auth e a admin =
    bindr (require_schema_current a) (\<lambda>_.
    bindr (require_auth e admin) (\<lambda>_.
    case sa_admin a of
      Some stored_admin \<Rightarrow> ensure (admin = stored_admin) (Trap ''NotAuthorized'')
    | None \<Rightarrow> require_admin_role_unguarded e admin Operator a))"

definition pause :: "'x ledger_env_scheme \<Rightarrow> admin_store \<Rightarrow> addr \<Rightarrow> breaker_store \<Rightarrow> breaker_store split_result" where
  "pause e a admin s =
    bindr (pause_auth e a admin) (\<lambda>_.
    Inr (cb_emit (ContractPausedEv admin (sequence e)) (s\<lparr>cb_paused_instance := Some True\<rparr>)))"

definition unpause :: "'x ledger_env_scheme \<Rightarrow> admin_store \<Rightarrow> addr \<Rightarrow> breaker_store \<Rightarrow> breaker_store split_result" where
  "unpause e a admin s =
    bindr (pause_auth e a admin) (\<lambda>_.
    Inr (cb_emit (ContractUnpausedEv admin (sequence e)) (s\<lparr>cb_paused_instance := Some False\<rparr>)))"

definition pause_function ::
  "'x ledger_env_scheme \<Rightarrow> admin_store \<Rightarrow> addr \<Rightarrow> string \<Rightarrow> breaker_store \<Rightarrow> breaker_store split_result" where
  "pause_function e a admin function s =
    bindr (require_admin_role e admin Operator a) (\<lambda>_.
    let paused_fns = (case cb_paused_fns s of Some xs \<Rightarrow> xs | None \<Rightarrow> []);
        paused_fns = (if function \<notin> set paused_fns then paused_fns @ [function] else paused_fns)
    in Inr (s\<lparr>cb_paused_fns := Some paused_fns\<rparr>))"

definition unpause_function ::
  "'x ledger_env_scheme \<Rightarrow> admin_store \<Rightarrow> addr \<Rightarrow> string \<Rightarrow> breaker_store \<Rightarrow> breaker_store split_result" where
  "unpause_function e a admin function s =
    bindr (require_admin_role e admin Operator a) (\<lambda>_.
    let paused_fns = (case cb_paused_fns s of Some xs \<Rightarrow> xs | None \<Rightarrow> [])
    in Inr (s\<lparr>cb_paused_fns := Some (filter (\<lambda>f. f \<noteq> function) paused_fns)\<rparr>))"

datatype breaker_call =
    CbActivate addr string
  | CbDeactivate addr
  | CbBeginRecovery addr
  | CbCompleteRecovery addr
  | CbReport addr string
  | CbSetConfig addr circuit_breaker_config
  | CbSetExemption addr string bool
  | CbPause addr
  | CbUnpause addr
  | CbPauseFunction addr string
  | CbUnpauseFunction addr string

fun breaker_exec :: "ledger_env \<times> admin_store \<Rightarrow> breaker_call \<Rightarrow> breaker_store \<Rightarrow> breaker_store split_result" where
  "breaker_exec (e, a) (CbActivate x r) s = activate_circuit_breaker e a x r s"
| "breaker_exec (e, a) (CbDeactivate x) s = deactivate_circuit_breaker e a x s"
| "breaker_exec (e, a) (CbBeginRecovery x) s = begin_circuit_recovery e a x s"
| "breaker_exec (e, a) (CbCompleteRecovery x) s = complete_circuit_recovery e a x s"
| "breaker_exec (e, a) (CbReport x r) s = bindr (report_circuit_failure e a x r s) (\<lambda>(_, s'). Inr s')"
| "breaker_exec (e, a) (CbSetConfig x c) s = set_circuit_breaker_config e a x c s"
| "breaker_exec (e, a) (CbSetExemption x f b) s = set_circuit_breaker_exemption e a x f b s"
| "breaker_exec (e, a) (CbPause x) s = pause e a x s"
| "breaker_exec (e, a) (CbUnpause x) s = unpause e a x s"
| "breaker_exec (e, a) (CbPauseFunction x f) s = pause_function e a x f s"
| "breaker_exec (e, a) (CbUnpauseFunction x f) s = unpause_function e a x f s"


section \<open>The abstract machine\<close>

datatype breaker_mode = MClosed "(nat \<times> nat) option" | MOpen | MHalfOpen nat

record breaker_view =
  bv_mode :: breaker_mode
  bv_config :: circuit_breaker_config
  bv_exempt :: "string set"

inductive breaker_spec :: "ledger_env \<Rightarrow> breaker_call \<Rightarrow> breaker_view \<Rightarrow> breaker_view \<Rightarrow> bool" where
  activate: "breaker_spec e (CbActivate x r) v (v\<lparr>bv_mode := MOpen\<rparr>)"
| deactivate: "breaker_spec e (CbDeactivate x) v (v\<lparr>bv_mode := MClosed None\<rparr>)"
| recover: "bv_mode v = MOpen \<Longrightarrow> breaker_spec e (CbBeginRecovery x) v (v\<lparr>bv_mode := MHalfOpen (sequence e)\<rparr>)"
| recovered: "bv_mode v = MHalfOpen t \<Longrightarrow> min u32_max (t + cc_recovery_ledgers (bv_config v)) \<le> sequence e \<Longrightarrow>
    breaker_spec e (CbCompleteRecovery x) v (v\<lparr>bv_mode := MClosed None\<rparr>)"
| relapse: "bv_mode v = MHalfOpen t \<Longrightarrow> breaker_spec e (CbReport x r) v (v\<lparr>bv_mode := MOpen\<rparr>)"
| trip: "bv_mode v = MClosed f \<Longrightarrow> count_failure (bv_config v) (sequence e) f = (n, w) \<Longrightarrow>
    0 < cc_failure_threshold (bv_config v) \<Longrightarrow> cc_failure_threshold (bv_config v) \<le> n \<Longrightarrow>
    breaker_spec e (CbReport x r) v (v\<lparr>bv_mode := MOpen\<rparr>)"
| noted: "bv_mode v = MClosed f \<Longrightarrow> count_failure (bv_config v) (sequence e) f = (n, w) \<Longrightarrow>
    cc_failure_threshold (bv_config v) = 0 \<or> n < cc_failure_threshold (bv_config v) \<Longrightarrow>
    breaker_spec e (CbReport x r) v (v\<lparr>bv_mode := MClosed (Some (n, w))\<rparr>)"
| logged: "bv_mode v = MOpen \<Longrightarrow> breaker_spec e (CbReport x r) v v"
| configure: "0 < cc_failure_window_ledgers c \<Longrightarrow> breaker_spec e (CbSetConfig x c) v (v\<lparr>bv_config := c\<rparr>)"
| exempted: "breaker_spec e (CbSetExemption x f True) v (v\<lparr>bv_exempt := insert f (bv_exempt v)\<rparr>)"
| unexempted: "breaker_spec e (CbSetExemption x f False) v (v\<lparr>bv_exempt := bv_exempt v - {f}\<rparr>)"
| paused: "c \<in> {CbPause x, CbUnpause x, CbPauseFunction x f, CbUnpauseFunction x f} \<Longrightarrow> breaker_spec e c v v"

definition breaker_mode_of :: "breaker_store \<Rightarrow> breaker_mode" where
  "breaker_mode_of s =
    (case load_circuit_breaker_state s of
       CbClosed \<Rightarrow> MClosed (cb_failures s)
     | CbOpen \<Rightarrow> MOpen
     | CbHalfOpen \<Rightarrow> MHalfOpen (case cb_recovery s of Some l \<Rightarrow> l | None \<Rightarrow> 0))"

definition breaker_abs :: "breaker_store \<Rightarrow> breaker_view" where
  "breaker_abs s = \<lparr>bv_mode = breaker_mode_of s, bv_config = load_circuit_breaker_config s,
    bv_exempt = set (load_circuit_breaker_exemptions s)\<rparr>"

text \<open>The redundant keys agree with the state: the flag of the older interface, the reason and opening
  ledger, the recovery ledger, and the bounded history, whose last entry is the current state.\<close>

definition breaker_ok :: "breaker_store \<Rightarrow> bool" where
  "breaker_ok s \<longleftrightarrow>
    flag_active s = (load_circuit_breaker_state s = CbOpen)
    \<and> (load_circuit_breaker_state s = CbOpen \<longrightarrow> cb_reason s \<noteq> None \<and> cb_opened s \<noteq> None)
    \<and> (cb_recovery s \<noteq> None \<longleftrightarrow> load_circuit_breaker_state s = CbHalfOpen)
    \<and> (case cb_history s of
         None \<Rightarrow> load_circuit_breaker_state s = CbClosed
       | Some h \<Rightarrow> h \<noteq> [] \<and> length h \<le> MAX_CB_HISTORY_ENTRIES \<and> ct_to (last h) = load_circuit_breaker_state s)
    \<and> 0 < cc_failure_window_ledgers (load_circuit_breaker_config s)"

lemma cap_history_props:
  "h \<noteq> [] \<Longrightarrow> cap_history h \<noteq> [] \<and> length (cap_history h) \<le> MAX_CB_HISTORY_ENTRIES \<and> last (cap_history h) = last h"
proof (induction h)
  case (Cons x h)
  then show ?case by (cases "h = []") (auto simp: MAX_CB_HISTORY_ENTRIES_def)
qed simp

lemma cb_emit_sel [simp]:
  "cb_flag (cb_emit x s) = cb_flag s" "cb_reason (cb_emit x s) = cb_reason s" "cb_state (cb_emit x s) = cb_state s"
  "cb_config (cb_emit x s) = cb_config s" "cb_exempt (cb_emit x s) = cb_exempt s"
  "cb_failures (cb_emit x s) = cb_failures s" "cb_opened (cb_emit x s) = cb_opened s"
  "cb_recovery (cb_emit x s) = cb_recovery s" "cb_history (cb_emit x s) = cb_history s"
  by (simp_all add: cb_emit_def)

lemma transition_sel [simp]:
  "cb_state (transition_circuit_breaker e to x r s) = Some to"
  "cb_flag (transition_circuit_breaker e to x r s) = Some (to = CbOpen)"
  "cb_failures (transition_circuit_breaker e to x r s) = None"
  "cb_config (transition_circuit_breaker e to x r s) = cb_config s"
  "cb_exempt (transition_circuit_breaker e to x r s) = cb_exempt s"
  "cb_recovery (transition_circuit_breaker e to x r s) = (if to = CbHalfOpen then Some (sequence e) else None)"
  "to = CbOpen \<Longrightarrow> cb_reason (transition_circuit_breaker e to x r s) = Some r"
  "to = CbOpen \<Longrightarrow> cb_opened (transition_circuit_breaker e to x r s) = Some (sequence e)"
  by (cases to; simp add: transition_circuit_breaker_def Let_def)+

lemma transition_history:
  "\<exists>h. cb_history (transition_circuit_breaker e to x r s) = Some h \<and> h \<noteq> []
    \<and> length h \<le> MAX_CB_HISTORY_ENTRIES \<and> ct_to (last h) = to"
proof -
  let ?h = "(case cb_history s of Some h \<Rightarrow> h | None \<Rightarrow> []) @
    [\<lparr>ct_from = load_circuit_breaker_state s, ct_to = to, ct_actor = x, ct_reason = r, ct_ledger = sequence e,
      ct_timestamp = timestamp e\<rparr>]"
  have "cb_history (transition_circuit_breaker e to x r s) = Some (cap_history ?h)"
    by (cases to) (simp_all add: transition_circuit_breaker_def Let_def)
  then show ?thesis using cap_history_props [of ?h] by auto
qed

lemma transition_ok:
  assumes "breaker_ok s"
  shows "breaker_ok (transition_circuit_breaker e to x r s)"
    and "breaker_abs (transition_circuit_breaker e to x r s) = (breaker_abs s)\<lparr>bv_mode := (case to of
      CbClosed \<Rightarrow> MClosed None | CbOpen \<Rightarrow> MOpen | CbHalfOpen \<Rightarrow> MHalfOpen (sequence e))\<rparr>"
  using assms transition_history [of e to x r s]
  by (cases to; auto simp: breaker_ok_def breaker_abs_def breaker_mode_of_def load_circuit_breaker_state_def
      load_circuit_breaker_config_def load_circuit_breaker_exemptions_def flag_active_def)+

lemma cb_emit_load [simp]:
  "load_circuit_breaker_state (cb_emit x s) = load_circuit_breaker_state s"
  "load_circuit_breaker_config (cb_emit x s) = load_circuit_breaker_config s"
  "load_circuit_breaker_exemptions (cb_emit x s) = load_circuit_breaker_exemptions s"
  "flag_active (cb_emit x s) = flag_active s"
  by (simp_all add: load_circuit_breaker_state_def load_circuit_breaker_config_def
      load_circuit_breaker_exemptions_def flag_active_def)

lemma cb_emit_ok [simp]: "breaker_ok (cb_emit x s) = breaker_ok s" "breaker_abs (cb_emit x s) = breaker_abs s"
  by (auto simp: breaker_ok_def breaker_abs_def breaker_mode_of_def
      cong: option.case_cong circuit_breaker_state.case_cong)

text \<open>Operations that leave the keys of the state machine alone.\<close>

lemma breaker_frame:
  assumes "cb_flag s' = cb_flag s" "cb_reason s' = cb_reason s" "cb_state s' = cb_state s"
    "cb_failures s' = cb_failures s" "cb_opened s' = cb_opened s" "cb_recovery s' = cb_recovery s"
    "cb_history s' = cb_history s"
    and "0 < cc_failure_window_ledgers (load_circuit_breaker_config s')"
  shows "breaker_ok s \<Longrightarrow> breaker_ok s'"
    and "breaker_abs s' = \<lparr>bv_mode = bv_mode (breaker_abs s), bv_config = load_circuit_breaker_config s',
      bv_exempt = set (load_circuit_breaker_exemptions s')\<rparr>"
proof -
  have "flag_active s' = flag_active s" "load_circuit_breaker_state s' = load_circuit_breaker_state s"
    using assms by (simp_all add: flag_active_def load_circuit_breaker_state_def)
  then show "breaker_ok s \<Longrightarrow> breaker_ok s'"
    and "breaker_abs s' = \<lparr>bv_mode = bv_mode (breaker_abs s), bv_config = load_circuit_breaker_config s',
      bv_exempt = set (load_circuit_breaker_exemptions s')\<rparr>"
    using assms by (simp_all add: breaker_ok_def breaker_abs_def breaker_mode_of_def
      cong: option.case_cong circuit_breaker_state.case_cong)
qed

lemma breaker_abs_sel [simp]:
  "bv_mode (breaker_abs s) = breaker_mode_of s" "bv_config (breaker_abs s) = load_circuit_breaker_config s"
  "bv_exempt (breaker_abs s) = set (load_circuit_breaker_exemptions s)"
  by (simp_all add: breaker_abs_def)

lemma set_config_step:
  assumes ok: "breaker_ok s" and "set_circuit_breaker_config e a x c s = Inr s'"
  shows "breaker_ok s' \<and> breaker_spec e (CbSetConfig x c) (breaker_abs s) (breaker_abs s')"
proof -
  from assms(2) have w: "0 < cc_failure_window_ledgers c" and s': "s' = s\<lparr>cb_config := Some c\<rparr>"
    by (auto simp: set_circuit_breaker_config_def result_simps)
  have c: "load_circuit_breaker_config s' = c" "load_circuit_breaker_exemptions s' = load_circuit_breaker_exemptions s"
    by (simp_all add: s' load_circuit_breaker_config_def load_circuit_breaker_exemptions_def)
  have "breaker_ok s'" using ok w c by (intro breaker_frame(1) [of s' s]) (simp_all add: s')
  moreover have "breaker_abs s' = (breaker_abs s)\<lparr>bv_config := c\<rparr>"
    using breaker_frame(2) [of s' s] w c by (simp add: s')
  ultimately show ?thesis using breaker_spec.configure [OF w] by simp
qed

lemma set_exemption_step:
  assumes ok: "breaker_ok s" and "set_circuit_breaker_exemption e a x f b s = Inr s'"
  shows "breaker_ok s' \<and> breaker_spec e (CbSetExemption x f b) (breaker_abs s) (breaker_abs s')"
proof -
  define xs where "xs = filter (\<lambda>g. g \<noteq> f) (load_circuit_breaker_exemptions s) @ (if b then [f] else [])"
  have xs: "set xs = (if b then insert f (set (load_circuit_breaker_exemptions s))
      else set (load_circuit_breaker_exemptions s) - {f})"
    by (auto simp: xs_def)
  have s': "s' = cb_emit (BreakerExemptionSet f b) (s\<lparr>cb_exempt := Some xs\<rparr>)"
    using assms(2) by (auto simp: set_circuit_breaker_exemption_def result_simps Let_def xs_def)
  have c: "load_circuit_breaker_config s' = load_circuit_breaker_config s" "load_circuit_breaker_exemptions s' = xs"
    by (simp_all add: s' load_circuit_breaker_config_def load_circuit_breaker_exemptions_def)
  have w: "0 < cc_failure_window_ledgers (load_circuit_breaker_config s)" using ok by (simp add: breaker_ok_def)
  have "breaker_ok s'" using ok w c(1) by (intro breaker_frame(1) [of s' s]) (simp_all add: s')
  moreover have "breaker_abs s' = (breaker_abs s)\<lparr>bv_exempt := set xs\<rparr>"
    using breaker_frame(2) [of s' s] w c by (simp add: s')
  ultimately show ?thesis
    using xs breaker_spec.exempted [of e x f "breaker_abs s"] breaker_spec.unexempted [of e x f "breaker_abs s"]
    by (cases b) auto
qed

lemma pause_ops_frame:
  assumes ok: "breaker_ok s"
    and "pause e a x s = Inr s' \<or> unpause e a x s = Inr s' \<or> pause_function e a x f s = Inr s'
      \<or> unpause_function e a x f s = Inr s'"
  shows "breaker_ok s' \<and> breaker_abs s' = breaker_abs s"
proof -
  have w: "0 < cc_failure_window_ledgers (load_circuit_breaker_config s)" using ok by (simp add: breaker_ok_def)
  have fr: "cb_flag s' = cb_flag s" "cb_reason s' = cb_reason s" "cb_state s' = cb_state s"
    "cb_failures s' = cb_failures s" "cb_opened s' = cb_opened s" "cb_recovery s' = cb_recovery s"
    "cb_history s' = cb_history s" "load_circuit_breaker_config s' = load_circuit_breaker_config s"
    "load_circuit_breaker_exemptions s' = load_circuit_breaker_exemptions s"
    using assms(2) by (auto simp: pause_def unpause_def pause_function_def unpause_function_def result_simps Let_def
        load_circuit_breaker_config_def load_circuit_breaker_exemptions_def)
  show ?thesis using breaker_frame [of s' s] ok w fr by (simp add: breaker_abs_def)
qed

lemma pause_ops_step:
  assumes ok: "breaker_ok s"
  shows "pause e a x s = Inr s' \<Longrightarrow> breaker_ok s' \<and> breaker_spec e (CbPause x) (breaker_abs s) (breaker_abs s')"
    and "unpause e a x s = Inr s' \<Longrightarrow> breaker_ok s' \<and> breaker_spec e (CbUnpause x) (breaker_abs s) (breaker_abs s')"
    and "pause_function e a x f s = Inr s' \<Longrightarrow>
      breaker_ok s' \<and> breaker_spec e (CbPauseFunction x f) (breaker_abs s) (breaker_abs s')"
    and "unpause_function e a x f s = Inr s' \<Longrightarrow>
      breaker_ok s' \<and> breaker_spec e (CbUnpauseFunction x f) (breaker_abs s) (breaker_abs s')"
  using pause_ops_frame [OF ok, of e a x s' f] breaker_spec.paused [of _ x f e "breaker_abs s"] by auto

lemma report_step:
  assumes ok: "breaker_ok s" and "report_circuit_failure e a x r s = Inr (st, s')"
  shows "breaker_ok s' \<and> breaker_spec e (CbReport x r) (breaker_abs s) (breaker_abs s')
    \<and> st = load_circuit_breaker_state s'"
proof -
  let ?c = "load_circuit_breaker_config s"
  obtain n w where nw: "count_failure ?c (sequence e) (cb_failures s) = (n, w)" by fastforce
  let ?s1 = "cb_emit (BreakerFailureReported x n (cc_failure_threshold ?c)) s"
  have trip: "breaker_ok s' \<and> breaker_abs s' = (breaker_abs s)\<lparr>bv_mode := MOpen\<rparr> \<and> st = load_circuit_breaker_state s'"
    if "st = CbOpen" "s' = cb_emit (BreakerActivated r) (transition_circuit_breaker e CbOpen x r ?s1)"
    using that transition_ok [of ?s1 e CbOpen x r] ok by (simp add: load_circuit_breaker_state_def)
  have stay: "breaker_ok s' \<and> load_circuit_breaker_state s' = st"
    and stay_abs: "breaker_abs s' = (breaker_abs s)\<lparr>bv_mode := (case st of CbClosed \<Rightarrow> MClosed (Some (n, w))
      | CbOpen \<Rightarrow> MOpen | CbHalfOpen \<Rightarrow> MHalfOpen (case cb_recovery s of Some l \<Rightarrow> l | None \<Rightarrow> 0))\<rparr>"
    if "s' = ?s1\<lparr>cb_failures := Some (n, w)\<rparr>" "st = load_circuit_breaker_state s"
  proof -
    have "load_circuit_breaker_state s' = load_circuit_breaker_state s" "flag_active s' = flag_active s"
      "load_circuit_breaker_config s' = ?c" "load_circuit_breaker_exemptions s' = load_circuit_breaker_exemptions s"
      by (simp_all add: that load_circuit_breaker_state_def flag_active_def load_circuit_breaker_config_def
          load_circuit_breaker_exemptions_def)
    then show "breaker_ok s' \<and> load_circuit_breaker_state s' = st"
      and "breaker_abs s' = (breaker_abs s)\<lparr>bv_mode := (case st of CbClosed \<Rightarrow> MClosed (Some (n, w))
      | CbOpen \<Rightarrow> MOpen | CbHalfOpen \<Rightarrow> MHalfOpen (case cb_recovery s of Some l \<Rightarrow> l | None \<Rightarrow> 0))\<rparr>"
      using ok that by (simp_all add: breaker_ok_def breaker_abs_def breaker_mode_of_def
        cong: option.case_cong circuit_breaker_state.case_cong)
  qed
  show ?thesis
  proof (cases "load_circuit_breaker_state s")
    case CbClosed
    then have m: "bv_mode (breaker_abs s) = MClosed (cb_failures s)" by (simp add: breaker_mode_of_def)
    show ?thesis
    proof (cases "0 < cc_failure_threshold ?c \<and> cc_failure_threshold ?c \<le> n")
      case True
      then have "st = CbOpen" "s' = cb_emit (BreakerActivated r) (transition_circuit_breaker e CbOpen x r ?s1)"
        using assms(2) CbClosed by (auto simp: report_circuit_failure_def result_simps nw)
      with trip show ?thesis using breaker_spec.trip [OF m, of e n w x r] nw True by simp
    next
      case False
      then have "st = CbClosed" "s' = ?s1\<lparr>cb_failures := Some (n, w)\<rparr>"
        using assms(2) CbClosed by (auto simp: report_circuit_failure_def result_simps nw)
      with stay stay_abs show ?thesis using breaker_spec.noted [OF m, of e n w x r] nw False CbClosed by auto
    qed
  next
    case CbOpen
    then have "st = CbOpen" "s' = ?s1\<lparr>cb_failures := Some (n, w)\<rparr>"
      using assms(2) by (auto simp: report_circuit_failure_def result_simps nw)
    moreover have m: "bv_mode (breaker_abs s) = MOpen" using CbOpen by (simp add: breaker_mode_of_def)
    ultimately have "breaker_abs s' = breaker_abs s" using stay_abs CbOpen by (simp add: breaker_abs_def breaker_mode_of_def)
    then show ?thesis using stay \<open>st = CbOpen\<close> \<open>s' = _\<close> CbOpen breaker_spec.logged [OF m, of e x r] by simp
  next
    case CbHalfOpen
    then have "st = CbOpen" "s' = cb_emit (BreakerActivated r) (transition_circuit_breaker e CbOpen x r ?s1)"
      using assms(2) by (auto simp: report_circuit_failure_def result_simps nw)
    moreover obtain t where "bv_mode (breaker_abs s) = MHalfOpen t" using CbHalfOpen by (simp add: breaker_mode_of_def)
    ultimately show ?thesis using trip breaker_spec.relapse [of "breaker_abs s" t e x r] by simp
  qed
qed

lemma transition_step:
  assumes ok: "breaker_ok s"
  shows "activate_circuit_breaker e a x r s = Inr s' \<Longrightarrow>
      breaker_ok s' \<and> breaker_spec e (CbActivate x r) (breaker_abs s) (breaker_abs s')"
    and "deactivate_circuit_breaker e a x s = Inr s' \<Longrightarrow>
      breaker_ok s' \<and> breaker_spec e (CbDeactivate x) (breaker_abs s) (breaker_abs s')"
    and "begin_circuit_recovery e a x s = Inr s' \<Longrightarrow>
      breaker_ok s' \<and> breaker_spec e (CbBeginRecovery x) (breaker_abs s) (breaker_abs s')"
    and "complete_circuit_recovery e a x s = Inr s' \<Longrightarrow>
      breaker_ok s' \<and> breaker_spec e (CbCompleteRecovery x) (breaker_abs s) (breaker_abs s')"
proof -
  note tr = transition_ok [OF ok, of e]
  assume "activate_circuit_breaker e a x r s = Inr s'"
  then show "breaker_ok s' \<and> breaker_spec e (CbActivate x r) (breaker_abs s) (breaker_abs s')"
    using tr [of CbOpen x r] breaker_spec.activate by (auto simp: activate_circuit_breaker_def result_simps)
next
  assume "deactivate_circuit_breaker e a x s = Inr s'"
  then show "breaker_ok s' \<and> breaker_spec e (CbDeactivate x) (breaker_abs s) (breaker_abs s')"
    using transition_ok [OF ok, of e CbClosed x] breaker_spec.deactivate
    by (auto simp: deactivate_circuit_breaker_def result_simps)
next
  assume "begin_circuit_recovery e a x s = Inr s'"
  then have "load_circuit_breaker_state s = CbOpen"
    and s': "s' = transition_circuit_breaker e CbHalfOpen x ''recovery started'' s"
    by (auto simp: begin_circuit_recovery_def result_simps)
  then have "bv_mode (breaker_abs s) = MOpen" by (simp add: breaker_mode_of_def)
  from breaker_spec.recover [OF this, of e x] transition_ok [OF ok, of e CbHalfOpen x "''recovery started''"]
  show "breaker_ok s' \<and> breaker_spec e (CbBeginRecovery x) (breaker_abs s) (breaker_abs s')" by (simp add: s')
next
  assume "complete_circuit_recovery e a x s = Inr s'"
  then obtain t where "breaker_mode_of s = MHalfOpen t"
    and le: "min u32_max (t + cc_recovery_ledgers (load_circuit_breaker_config s)) \<le> sequence e"
    and s': "s' = cb_emit BreakerDeactivated (transition_circuit_breaker e CbClosed x ''recovery complete'' s)"
    by (auto simp: complete_circuit_recovery_def result_simps Let_def breaker_mode_of_def sat_add_def)
  then have "bv_mode (breaker_abs s) = MHalfOpen t" by simp
  from breaker_spec.recovered [OF this, of e x] le transition_ok [OF ok, of e CbClosed x "''recovery complete''"]
  show "breaker_ok s' \<and> breaker_spec e (CbCompleteRecovery x) (breaker_abs s) (breaker_abs s')" by (simp add: s')
qed

lemma breaker_exec_step:
  assumes ok: "breaker_ok s" and "breaker_exec (e, a) c s = Inr s'"
  shows "breaker_ok s' \<and> breaker_spec e c (breaker_abs s) (breaker_abs s')"
proof (cases c)
  case (CbReport x r)
  then show ?thesis using assms(2) report_step [OF ok] by (auto simp: result_simps)
qed (use assms(2) transition_step [OF ok] set_config_step [OF ok] set_exemption_step [OF ok]
  pause_ops_step [OF ok] in \<open>simp_all\<close>)

lemma breaker_ok_empty: "breaker_ok empty_breaker"
  by (simp add: breaker_ok_def empty_breaker_def load_circuit_breaker_state_def flag_active_def
      load_circuit_breaker_config_def DEFAULT_CB_FAILURE_WINDOW_LEDGERS_def)

interpretation breaker: refined_machine breaker_exec empty_breaker "\<lambda>_. True" breaker_ok breaker_abs
  "\<lambda>ea c. breaker_spec (fst ea) c"
  by unfold_locales (auto simp: breaker_ok_empty dest: breaker_exec_step)

text \<open>
  C31: The circuit breaker refines its state machine: from every reachable store each successful call
  makes the step that the abstract machine allows (recovery starts only when open and completes only
  after the probation, a failure during probation reopens, the configured number of failures trips the
  breaker), the guard of the entry points blocks exactly in the open mode and lets exactly the exempted
  functions through, and the bounded history ends with the current state.
\<close>

theorem circuit_breaker_refines:
  assumes "s = run breaker_exec xs empty_breaker"
  shows "abs_run (\<lambda>ea c. breaker_spec (fst ea) c) xs (breaker_abs empty_breaker) (breaker_abs s)
    \<and> (\<forall>e a c s'. breaker_exec (e, a) c s = Inr s' \<longrightarrow> breaker_spec e c (breaker_abs s) (breaker_abs s'))
    \<and> (circuit_breaker_blocks s None \<longleftrightarrow> bv_mode (breaker_abs s) = MOpen)
    \<and> (circuit_breaker_blocks s (Some f) \<longleftrightarrow> bv_mode (breaker_abs s) = MOpen \<and> f \<notin> bv_exempt (breaker_abs s))
    \<and> (case cb_history s of None \<Rightarrow> True
        | Some h \<Rightarrow> length h \<le> MAX_CB_HISTORY_ENTRIES \<and> ct_to (last h) = load_circuit_breaker_state s)"
proof -
  have ok: "breaker_ok s" unfolding assms by (rule breaker.invar_run) (simp add: list_all_iff case_prod_beta)
  have "flag_active s \<longleftrightarrow> bv_mode (breaker_abs s) = MOpen"
    using ok by (simp add: breaker_ok_def breaker_mode_of_def split: circuit_breaker_state.splits)
  moreover have "case cb_history s of None \<Rightarrow> True
      | Some h \<Rightarrow> length h \<le> MAX_CB_HISTORY_ENTRIES \<and> ct_to (last h) = load_circuit_breaker_state s"
    using ok by (simp add: breaker_ok_def split: option.splits)
  moreover have "abs_run (\<lambda>ea c. breaker_spec (fst ea) c) xs (breaker_abs empty_breaker) (breaker_abs s)"
    unfolding assms by (rule breaker.refine_run) (simp add: list_all_iff case_prod_beta)
  ultimately show ?thesis using breaker_exec_step [OF ok] by (auto simp: circuit_breaker_blocks_def)
qed

definition breaker_demo_env :: "nat \<Rightarrow> ledger_env \<times> admin_store" where
  "breaker_demo_env t = (\<lparr>timestamp = t, sequence = t, self_addr = 99, auth = (\<lambda>b. b = 7)\<rparr>,
    \<lparr>sa_admin = Some 7, sa_admins = Some [7 \<mapsto> SuperAdmin], sa_schema_version = Some 3, sa_counter = None,
     sa_invoices = (\<lambda>_. False), sa_meta_v2 = Map.empty, sa_meta_v3 = Map.empty\<rparr>)"

definition breaker_demo :: "((ledger_env \<times> admin_store) \<times> breaker_call) list" where
  "breaker_demo = [(breaker_demo_env 10, CbReport 7 ''a''), (breaker_demo_env 11, CbReport 7 ''b''),
    (breaker_demo_env 12, CbReport 7 ''c''), (breaker_demo_env 13, CbSetExemption 7 ''refund'' True)]"

lemmas breaker_eval = breaker_demo_def breaker_demo_env_def empty_breaker_def report_circuit_failure_def
  require_admin_role_def require_schema_current_def schema_version_def CURRENT_SCHEMA_VERSION_def
  require_admin_role_unguarded_def load_circuit_breaker_state_def load_circuit_breaker_config_def
  DEFAULT_CB_FAILURE_THRESHOLD_def DEFAULT_CB_FAILURE_WINDOW_LEDGERS_def DEFAULT_CB_RECOVERY_LEDGERS_def
  count_failure_def sat_add_def rust_int cb_emit_def transition_circuit_breaker_def flag_active_def
  MAX_CB_HISTORY_ENTRIES_def set_circuit_breaker_exemption_def load_circuit_breaker_exemptions_def
  require_auth_def

theorem circuit_breaker_refines_witness:
  "circuit_breaker_blocks (run breaker_exec breaker_demo empty_breaker) None
    \<and> \<not> circuit_breaker_blocks (run breaker_exec breaker_demo empty_breaker) (Some ''refund'')"
proof -
  let ?s = "run breaker_exec breaker_demo empty_breaker"
  have "bv_mode (breaker_abs ?s) = MOpen" "bv_exempt (breaker_abs ?s) = {''refund''}"
    by (simp_all add: breaker_mode_of_def breaker_eval)
  then show ?thesis using circuit_breaker_refines [OF refl, of breaker_demo "''refund''"] by simp
qed

end
