(* ===== verification/Invoice_Store.thy ===== *)
theory Invoice_Store
  imports Invoice_Data Circuit_Breaker
begin

text \<open>
  Model of the invoice storage of the split contract (\<open>contracts/split/src/lib.rs\<close>): an invoice is kept
  in three records, a packed form, a hot record and eight payment shards, in the persistent or, once
  archived, in the instance tier; loading archives old completed invoices on the way. The operations
  are saving, loading, lazy, explicit and scheduled archival, restoring and purging. Time-to-live
  extensions and the numbering of events are left out: they change no stored value; the
  \<open>debug_assert\<close> of \<open>save_invoice\<close> is not part of a release build. The encoded size
  of a record comes from the SDK and is a parameter of the environment.
\<close>

section \<open>State\<close>

record audit_entry =
  ae_action :: string
  ae_actor :: addr
  ae_timestamp :: nat

record invoice_hot =
  hot_status :: invoice_status
  hot_funded :: int
  hot_total :: int
  hot_recipients :: "addr list"

datatype archival_status = Active | Archived | Restored | Purged

record archival_record =
  ar_status :: archival_status
  ar_archived_at_ledger :: nat
  ar_archived_by :: "addr option"
  ar_restored_at_ledger :: "nat option"
  ar_restored_by :: "addr option"
  ar_purged_at_ledger :: "nat option"
  ar_archive_count :: nat

record archival_policy =
  ap_enabled :: bool
  ap_sweep_interval_ledgers :: nat
  ap_max_batch :: nat
  ap_retention_ledgers :: nat
  ap_auto_purge :: bool
  ap_restore_hold_ledgers :: nat

record archival_stats =
  as_total_archived :: nat
  as_total_restored :: nat
  as_total_purged :: nat
  as_last_sweep_ledger :: nat
  as_sweep_cursor :: nat

datatype store_event =
    InvoiceArchived nat
  | InvoiceRestored nat addr nat
  | InvoiceArchivePurged nat nat
  | ArchivalSweepCompleted nat nat
  | ArchivalPolicyUpdated addr bool nat
  | BatchArchived nat "nat list"

record tier =
  t_core :: "nat \<rightharpoonup> invoice_core"
  t_ext :: "nat \<rightharpoonup> invoice_ext"
  t_ext2 :: "nat \<rightharpoonup> invoice_ext2"
  t_compact :: "nat \<rightharpoonup> nat list"
  t_shards :: "nat \<times> nat \<rightharpoonup> payment_entry list"
  t_audit :: "nat \<rightharpoonup> audit_entry list"
  t_created :: "nat \<rightharpoonup> nat"
  t_marker :: "nat \<rightharpoonup> bool"

record invoice_store =
  st_pers :: tier
  st_inst :: tier
  st_hot :: "nat \<rightharpoonup> invoice_hot"
  st_status :: "nat \<rightharpoonup> nat"
  st_meta :: "nat \<rightharpoonup> hash"
  st_records :: "nat \<rightharpoonup> archival_record"
  st_policy :: "archival_policy option"
  st_stats :: "archival_stats option"
  st_after :: "nat option"
  st_quota :: "nat option"
  st_events :: "store_event list"

record store_env = ledger_env +
  xdr_core :: "invoice_core \<Rightarrow> nat"
  xdr_ext :: "invoice_ext \<Rightarrow> nat"
  xdr_ext2 :: "invoice_ext2 \<Rightarrow> nat"

definition SHARD_COUNT :: nat where "SHARD_COUNT = 8"

definition ARCHIVE_AFTER_LEDGERS :: nat where "ARCHIVE_AFTER_LEDGERS = 100000"

definition DEFAULT_INVOICE_STORAGE_QUOTA :: nat where "DEFAULT_INVOICE_STORAGE_QUOTA = 65536"

definition on_pers :: "(tier \<Rightarrow> tier) \<Rightarrow> invoice_store \<Rightarrow> invoice_store" where
  "on_pers f s = s\<lparr>st_pers := f (st_pers s)\<rparr>"

definition on_inst :: "(tier \<Rightarrow> tier) \<Rightarrow> invoice_store \<Rightarrow> invoice_store" where
  "on_inst f s = s\<lparr>st_inst := f (st_inst s)\<rparr>"

definition store_emit :: "store_event \<Rightarrow> invoice_store \<Rightarrow> invoice_store" where
  "store_emit x s = s\<lparr>st_events := st_events s @ [x]\<rparr>"

definition or_else :: "'a option \<Rightarrow> 'a option \<Rightarrow> 'a option" where
  "or_else x y = (case x of Some v \<Rightarrow> Some v | None \<Rightarrow> y)"

definition unwrap_or :: "'a option \<Rightarrow> 'a \<Rightarrow> 'a" where
  "unwrap_or x d = (case x of Some v \<Rightarrow> v | None \<Rightarrow> d)"

definition is_archived :: "nat \<Rightarrow> invoice_store \<Rightarrow> bool" where
  "is_archived i s \<longleftrightarrow> t_marker (st_inst s) i \<noteq> None \<or> t_marker (st_pers s) i \<noteq> None"


section \<open>Archival records and the audit log\<close>

definition append_audit_entry ::
  "'x ledger_env_scheme \<Rightarrow> nat \<Rightarrow> string \<Rightarrow> addr \<Rightarrow> invoice_store \<Rightarrow> invoice_store" where
  "append_audit_entry e i action actor s =
    (let entry = \<lparr>ae_action = action, ae_actor = actor, ae_timestamp = timestamp e\<rparr>;
         archived = is_archived i s;
         log = unwrap_or (t_audit (if archived then st_inst s else st_pers s) i) [] @ [entry]
     in if archived then
          on_pers (\<lambda>t. t\<lparr>t_audit := (t_audit t)(i := None)\<rparr>)
            (on_inst (\<lambda>t. t\<lparr>t_audit := (t_audit t)(i \<mapsto> log)\<rparr>) s)
        else on_pers (\<lambda>t. t\<lparr>t_audit := (t_audit t)(i \<mapsto> log)\<rparr>) s)"

definition default_archival_policy :: archival_policy where
  "default_archival_policy = \<lparr>ap_enabled = False, ap_sweep_interval_ledgers = 17280, ap_max_batch = 20,
    ap_retention_ledgers = 0, ap_auto_purge = False, ap_restore_hold_ledgers = ARCHIVE_AFTER_LEDGERS\<rparr>"

definition load_archival_policy :: "invoice_store \<Rightarrow> archival_policy" where
  "load_archival_policy s = unwrap_or (st_policy s) default_archival_policy"

definition load_archival_stats :: "invoice_store \<Rightarrow> archival_stats" where
  "load_archival_stats s = unwrap_or (st_stats s) \<lparr>as_total_archived = 0, as_total_restored = 0,
    as_total_purged = 0, as_last_sweep_ledger = 0, as_sweep_cursor = 0\<rparr>"

definition save_archival_stats :: "archival_stats \<Rightarrow> invoice_store \<Rightarrow> invoice_store" where
  "save_archival_stats stats s = s\<lparr>st_stats := Some stats\<rparr>"

definition load_archival_record :: "invoice_store \<Rightarrow> nat \<Rightarrow> archival_record option" where
  "load_archival_record s i = st_records s i"

definition save_archival_record :: "nat \<Rightarrow> archival_record \<Rightarrow> invoice_store \<Rightarrow> invoice_store" where
  "save_archival_record i r s = s\<lparr>st_records := (st_records s)(i \<mapsto> r)\<rparr>"

definition in_restore_hold :: "'x ledger_env_scheme \<Rightarrow> nat \<Rightarrow> invoice_store \<Rightarrow> bool" where
  "in_restore_hold e i s =
    (case load_archival_record s i of
       Some r \<Rightarrow>
         if ar_status r = Restored then
           sequence e - unwrap_or (ar_restored_at_ledger r) 0 < ap_restore_hold_ledgers (load_archival_policy s)
         else False
     | None \<Rightarrow> False)"

definition is_invoice_archived :: "nat \<Rightarrow> invoice_store \<Rightarrow> bool" where
  "is_invoice_archived i s =
    (if is_archived i s then True
     else
       (case load_archival_record s i of
          Some r \<Rightarrow> ar_status r = Archived \<or> ar_status r = Purged
        | None \<Rightarrow> False))"

definition record_archived ::
  "'x ledger_env_scheme \<Rightarrow> nat \<Rightarrow> addr option \<Rightarrow> invoice_store \<Rightarrow> invoice_store split_result" where
  "record_archived e i actor s =
    bindr (ok_or (checked_nat u32_max (unwrap_or (map_option ar_archive_count (load_archival_record s i)) 0 + 1))
        (Trap ''arithmetic overflow'')) (\<lambda>archive_count.
    let s1 = save_archival_record i \<lparr>ar_status = Archived, ar_archived_at_ledger = sequence e,
          ar_archived_by = actor, ar_restored_at_ledger = None, ar_restored_by = None,
          ar_purged_at_ledger = None, ar_archive_count = archive_count\<rparr> s;
        stats = load_archival_stats s1;
        s2 = save_archival_stats
          (stats\<lparr>as_total_archived := sat_add u64_max (as_total_archived stats) 1\<rparr>) s1
    in Inr (append_audit_entry e i ''archived'' (unwrap_or actor (self_addr e)) s2))"


section \<open>Archiving, loading and saving\<close>

definition archive_shard :: "nat \<Rightarrow> nat \<Rightarrow> invoice_store \<Rightarrow> invoice_store" where
  "archive_shard i k s =
    (let s1 = (case t_shards (st_pers s) (i, k) of
                 Some payments \<Rightarrow> on_inst (\<lambda>t. t\<lparr>t_shards := (t_shards t)((i, k) \<mapsto> payments)\<rparr>) s
               | None \<Rightarrow> s)
     in on_pers (\<lambda>t. t\<lparr>t_shards := (t_shards t)((i, k) := None)\<rparr>) s1)"

definition archive_audit :: "nat \<Rightarrow> invoice_store \<Rightarrow> invoice_store" where
  "archive_audit i s =
    (case t_audit (st_pers s) i of
       Some log \<Rightarrow> on_inst (\<lambda>t. t\<lparr>t_audit := (t_audit t)(i \<mapsto> log)\<rparr>) s
     | None \<Rightarrow> s)"

definition archive_invoice_storage ::
  "'x ledger_env_scheme \<Rightarrow> nat \<Rightarrow> invoice_core \<Rightarrow> invoice_store \<Rightarrow> invoice_store" where
  "archive_invoice_storage e i core s =
    (let ext = unwrap_or (or_else (t_ext (st_pers s) i) (t_ext (st_inst s) i)) default_ext;
         ext2 = unwrap_or (or_else (t_ext2 (st_pers s) i) (t_ext2 (st_inst s) i)) default_ext2;
         s1 = on_inst (\<lambda>t. t\<lparr>t_core := (t_core t)(i \<mapsto> core), t_ext := (t_ext t)(i \<mapsto> ext),
                t_ext2 := (t_ext2 t)(i \<mapsto> ext2), t_marker := (t_marker t)(i \<mapsto> True)\<rparr>) s;
         compact = unwrap_or (or_else (t_compact (st_pers s1) i) (t_compact (st_inst s1) i))
                     (to_compact (assemble core ext ext2));
         s2 = on_inst (\<lambda>t. t\<lparr>t_compact := (t_compact t)(i \<mapsto> compact)\<rparr>) s1;
         s3 = fold (archive_shard i) [0..<SHARD_COUNT] s2;
         s4 = archive_audit i s3;
         s5 = on_pers (\<lambda>t. t\<lparr>t_core := (t_core t)(i := None), t_ext := (t_ext t)(i := None),
                t_ext2 := (t_ext2 t)(i := None), t_compact := (t_compact t)(i := None),
                t_audit := (t_audit t)(i := None)\<rparr>) s4
     in on_inst (\<lambda>t. t\<lparr>t_created := (t_created t)(i \<mapsto> unwrap_or (t_created (st_pers s5) i) (sequence e))\<rparr>) s5)"

definition archival_due :: "'x ledger_env_scheme \<Rightarrow> nat \<Rightarrow> invoice_store \<Rightarrow> bool" where
  "archival_due e i s =
    (let created_ledger = unwrap_or (or_else (t_created (st_pers s) i) (t_created (st_inst s) i)) (sequence e);
         archive_after = unwrap_or (st_after s) ARCHIVE_AFTER_LEDGERS
     in archive_after \<le> sequence e - created_ledger)"

definition maybe_archive_invoice ::
  "'x ledger_env_scheme \<Rightarrow> nat \<Rightarrow> invoice_store \<Rightarrow> invoice_store split_result" where
  "maybe_archive_invoice e i s =
    (if is_archived i s then Inr s
     else
       bindr (ok_or (or_else (t_core (st_pers s) i) (t_core (st_inst s) i)) (Trap ''invoice not found'')) (\<lambda>core.
       if ic_status core \<noteq> Released \<and> ic_status core \<noteq> Refunded then Inr s
       else if \<not> archival_due e i s then Inr s
       else if in_restore_hold e i s then Inr s
       else
         bindr (record_archived e i None (archive_invoice_storage e i core s)) (\<lambda>s1.
         Inr (store_emit (InvoiceArchived i) s1))))"

definition shard_of :: "invoice_store \<Rightarrow> nat \<Rightarrow> nat \<Rightarrow> payment_entry list option" where
  "shard_of s i k = or_else (t_shards (st_pers s) (i, k)) (t_shards (st_inst s) (i, k))"

definition load_payments :: "invoice_store \<Rightarrow> nat \<Rightarrow> payment_entry list" where
  "load_payments s i = concat (map (\<lambda>k. unwrap_or (shard_of s i k) []) [0..<SHARD_COUNT])"

text \<open>The part of \<open>load_invoice\<close> that reads the stored parts, after the lazy archival.\<close>

definition read_invoice :: "nat \<Rightarrow> invoice_store \<Rightarrow> full_invoice split_result" where
  "read_invoice i s =
    bindr (ok_or (or_else (t_core (st_pers s) i) (t_core (st_inst s) i)) (Trap ''invoice not found'')) (\<lambda>core.
    let core = core\<lparr>ic_payments := load_payments s i\<rparr>;
        ext = unwrap_or (or_else (t_ext (st_pers s) i) (t_ext (st_inst s) i)) default_ext;
        ext2 = unwrap_or (or_else (t_ext2 (st_pers s) i) (t_ext2 (st_inst s) i)) default_ext2
    in bindr (case t_compact (st_pers s) i of
                Some compact \<Rightarrow> from_compact compact core ext ext2
              | None \<Rightarrow> Inr (assemble core ext ext2)) (\<lambda>invoice.
       let invoice = (case st_hot s i of
             Some hot \<Rightarrow> invoice\<lparr>inv_status := hot_status hot, inv_funded := hot_funded hot,
               inv_recipients := hot_recipients hot\<rparr>
           | None \<Rightarrow> invoice)
       in Inr (invoice\<lparr>inv_metadata_hash := st_meta s i\<rparr>)))"

definition load_invoice ::
  "'x ledger_env_scheme \<Rightarrow> nat \<Rightarrow> invoice_store \<Rightarrow> (full_invoice \<times> invoice_store) split_result" where
  "load_invoice e i s =
    bindr (maybe_archive_invoice e i s) (\<lambda>s1.
    bindr (read_invoice i s1) (\<lambda>v. Inr (v, s1)))"

text \<open>\<open>amounts.iter().sum()\<close>, which traps on overflow.\<close>

fun sum_amounts :: "int list \<Rightarrow> int \<Rightarrow> int split_result" where
  "sum_amounts [] acc = Inr acc"
| "sum_amounts (x # xs) acc = bindr (arith (acc + x)) (sum_amounts xs)"

text \<open>The lengths are \<open>u32\<close>; their sum is formed at that width, and traps on overflow, before it is
  widened to \<open>u64\<close>.\<close>

definition measure_invoice_bytes :: "store_env \<Rightarrow> full_invoice \<Rightarrow> nat split_result" where
  "measure_invoice_bytes e v =
    (case invoice_split (v\<lparr>inv_payments := []\<rparr>) of
       (core, ext, ext2) \<Rightarrow>
         bindr (ok_or (checked_nat u32_max (xdr_core e core + xdr_ext e ext)) (Trap ''arithmetic overflow'')) (\<lambda>n.
         ok_or (checked_nat u32_max (n + xdr_ext2 e ext2)) (Trap ''arithmetic overflow'')))"

definition save_compact_status :: "nat \<Rightarrow> invoice_status \<Rightarrow> invoice_store \<Rightarrow> invoice_store" where
  "save_compact_status i st s = s\<lparr>st_status := (st_status s)(i \<mapsto> to_u8 st)\<rparr>"

definition put_invoice :: "nat \<Rightarrow> invoice_core \<Rightarrow> invoice_ext \<Rightarrow> invoice_ext2 \<Rightarrow> nat list \<Rightarrow> tier \<Rightarrow> tier" where
  "put_invoice i core ext ext2 compact t =
    t\<lparr>t_core := (t_core t)(i \<mapsto> core), t_ext := (t_ext t)(i \<mapsto> ext), t_ext2 := (t_ext2 t)(i \<mapsto> ext2),
      t_compact := (t_compact t)(i \<mapsto> compact)\<rparr>"

definition drop_invoice :: "nat \<Rightarrow> tier \<Rightarrow> tier" where
  "drop_invoice i t =
    t\<lparr>t_core := (t_core t)(i := None), t_ext := (t_ext t)(i := None), t_ext2 := (t_ext2 t)(i := None),
      t_compact := (t_compact t)(i := None)\<rparr>"

definition save_stored_invoice :: "store_env \<Rightarrow> nat \<Rightarrow> full_invoice \<Rightarrow> invoice_store \<Rightarrow> invoice_store split_result" where
  "save_stored_invoice e i v s =
    bindr (measure_invoice_bytes e v) (\<lambda>bytes.
    bindr (ensure (bytes \<le> unwrap_or (st_quota s) DEFAULT_INVOICE_STORAGE_QUOTA)
      (Trap ''StorageQuotaExceeded'')) (\<lambda>_.
    case invoice_split (v\<lparr>inv_payments := []\<rparr>) of
      (core, ext, ext2) \<Rightarrow>
        let compact = to_compact v;
            s1 = (if is_archived i s
                  then on_pers (drop_invoice i) (on_inst (put_invoice i core ext ext2 compact) s)
                  else on_pers (put_invoice i core ext ext2 compact) s)
        in bindr (sum_amounts (inv_amounts v) 0) (\<lambda>total.
           Inr (save_compact_status i (inv_status v)
             (s1\<lparr>st_hot := (st_hot s1)(i \<mapsto> \<lparr>hot_status = inv_status v, hot_funded = inv_funded v,
               hot_total = total, hot_recipients = inv_recipients v\<rparr>)\<rparr>)))))"


section \<open>Explicit archival\<close>

text \<open>\<open>archive_invoice\<close> copies the three records without the packed form, the shards and the marker; it
  reads the extension records from the persistent tier only.\<close>

definition move_records :: "nat \<Rightarrow> invoice_core \<Rightarrow> invoice_store \<Rightarrow> invoice_store" where
  "move_records i core s =
    (let ext = unwrap_or (t_ext (st_pers s) i) default_ext;
         ext2 = unwrap_or (t_ext2 (st_pers s) i) default_ext2;
         s1 = on_inst (\<lambda>t. t\<lparr>t_core := (t_core t)(i \<mapsto> core), t_ext := (t_ext t)(i \<mapsto> ext),
                t_ext2 := (t_ext2 t)(i \<mapsto> ext2)\<rparr>) s
     in on_pers (\<lambda>t. t\<lparr>t_core := (t_core t)(i := None), t_ext := (t_ext t)(i := None),
          t_ext2 := (t_ext2 t)(i := None)\<rparr>) s1)"

definition archive_invoice :: "'x ledger_env_scheme \<Rightarrow> nat \<Rightarrow> invoice_store \<Rightarrow> invoice_store split_result" where
  "archive_invoice e i s =
    (if t_marker (st_inst s) i \<noteq> None then Inr s
     else
       bindr (ok_or (or_else (t_core (st_pers s) i) (t_core (st_inst s) i)) (Trap ''invoice not found'')) (\<lambda>core.
       bindr (ensure (ic_status core = Released \<or> ic_status core = Refunded) (Trap ''invoice not completed'')) (\<lambda>_.
       bindr (record_archived e i None (move_records i core s)) (\<lambda>s1.
       Inr (store_emit (InvoiceArchived i) s1)))))"

fun archive_batch_loop ::
  "'x ledger_env_scheme \<Rightarrow> nat list \<Rightarrow> nat list \<Rightarrow> invoice_store \<Rightarrow> (nat list \<times> invoice_store) split_result" where
  "archive_batch_loop e [] archived s = Inr (archived, s)"
| "archive_batch_loop e (i # ids) archived s =
    (case t_core (st_pers s) i of
       None \<Rightarrow> archive_batch_loop e ids archived s
     | Some core \<Rightarrow>
         if ic_status core = Released \<or> ic_status core = Refunded then
           bindr (record_archived e i None (move_records i core s)) (\<lambda>s1.
           archive_batch_loop e ids (archived @ [i]) (store_emit (InvoiceArchived i) s1))
         else archive_batch_loop e ids archived s)"

definition archive_invoices_batch ::
  "'x ledger_env_scheme \<Rightarrow> nat list \<Rightarrow> invoice_store \<Rightarrow> (nat list \<times> invoice_store) split_result" where
  "archive_invoices_batch e ids s =
    bindr (ensure (length ids \<le> 20) (Trap ''batch limit exceeded'')) (\<lambda>_.
    bindr (archive_batch_loop e ids [] s) (\<lambda>(archived, s1).
    Inr (archived, store_emit (BatchArchived (length archived) archived) s1)))"


section \<open>Scheduled archival, restoring and purging\<close>

definition set_archive_after_ledgers ::
  "'x ledger_env_scheme \<Rightarrow> admin_store \<Rightarrow> addr \<Rightarrow> nat \<Rightarrow> invoice_store \<Rightarrow> invoice_store split_result" where
  "set_archive_after_ledgers e a admin ledgers s =
    bindr (require_admin_role e admin Operator a) (\<lambda>_.
    bindr (ensure (0 < ledgers) (Trap ''archive_after_ledgers must be positive'')) (\<lambda>_.
    Inr (s\<lparr>st_after := Some ledgers\<rparr>)))"

definition set_archival_policy ::
  "'x ledger_env_scheme \<Rightarrow> admin_store \<Rightarrow> addr \<Rightarrow> archival_policy \<Rightarrow> invoice_store \<Rightarrow> invoice_store split_result" where
  "set_archival_policy e a admin policy s =
    bindr (require_admin_role e admin Operator a) (\<lambda>_.
    bindr (ensure (0 < ap_max_batch policy \<and> ap_max_batch policy \<le> 50) (Trap ''invalid archival batch size'')) (\<lambda>_.
    bindr (ensure (0 < ap_sweep_interval_ledgers policy) (Trap ''sweep interval must be positive'')) (\<lambda>_.
    Inr (store_emit (ArchivalPolicyUpdated admin (ap_enabled policy) (ap_retention_ledgers policy))
      (s\<lparr>st_policy := Some policy\<rparr>)))))"

definition is_archival_eligible :: "'x ledger_env_scheme \<Rightarrow> nat \<Rightarrow> invoice_store \<Rightarrow> bool" where
  "is_archival_eligible e i s =
    (if is_invoice_archived i s \<or> in_restore_hold e i s then False
     else
       (case t_core (st_pers s) i of
          None \<Rightarrow> False
        | Some core \<Rightarrow>
            if ic_status core \<noteq> Released \<and> ic_status core \<noteq> Refunded then False else archival_due e i s))"

definition is_purge_eligible :: "'x ledger_env_scheme \<Rightarrow> nat \<Rightarrow> archival_policy \<Rightarrow> invoice_store \<Rightarrow> bool" where
  "is_purge_eligible e i policy s =
    (if ap_retention_ledgers policy = 0 then False
     else
       (case load_archival_record s i of
          Some r \<Rightarrow>
            if ar_status r = Archived then ap_retention_ledgers policy \<le> sequence e - ar_archived_at_ledger r
            else False
        | None \<Rightarrow> False))"

definition drop_shard :: "nat \<Rightarrow> nat \<Rightarrow> invoice_store \<Rightarrow> invoice_store" where
  "drop_shard i k s =
    on_pers (\<lambda>t. t\<lparr>t_shards := (t_shards t)((i, k) := None)\<rparr>)
      (on_inst (\<lambda>t. t\<lparr>t_shards := (t_shards t)((i, k) := None)\<rparr>) s)"

definition purge_archived_invoice ::
  "'x ledger_env_scheme \<Rightarrow> nat \<Rightarrow> addr \<Rightarrow> invoice_store \<Rightarrow> invoice_store split_result" where
  "purge_archived_invoice e i actor s =
    (let s1 = fold (drop_shard i) [0..<SHARD_COUNT] s in
     bindr (ok_or (load_archival_record s1 i) (Trap ''archival record not found'')) (\<lambda>r.
     let s2 = save_archival_record i (r\<lparr>ar_status := Purged, ar_purged_at_ledger := Some (sequence e)\<rparr>) s1;
         stats = load_archival_stats s2;
         s3 = save_archival_stats (stats\<lparr>as_total_purged := sat_add u64_max (as_total_purged stats) 1\<rparr>) s2;
         s4 = append_audit_entry e i ''purged'' actor s3
     in Inr (store_emit (InvoiceArchivePurged i (sequence e)) s4)))"

definition sweep_one ::
  "'x ledger_env_scheme \<Rightarrow> archival_policy \<Rightarrow> nat \<Rightarrow> nat list \<Rightarrow> invoice_store
    \<Rightarrow> (nat list \<times> invoice_store) split_result" where
  "sweep_one e policy i archived s =
    (if is_archival_eligible e i s then
       bindr (ok_or (t_core (st_pers s) i) (Trap ''unwrap'')) (\<lambda>core.
       bindr (record_archived e i (Some (self_addr e)) (archive_invoice_storage e i core s)) (\<lambda>s1.
       Inr (archived @ [i], store_emit (InvoiceArchived i) s1)))
     else if ap_auto_purge policy \<and> is_purge_eligible e i policy s then
       bindr (purge_archived_invoice e i (self_addr e) s) (\<lambda>s1. Inr (archived, s1))
     else Inr (archived, s))"

fun sweep_loop ::
  "'x ledger_env_scheme \<Rightarrow> archival_policy \<Rightarrow> nat \<Rightarrow> nat \<Rightarrow> nat \<Rightarrow> nat list \<Rightarrow> invoice_store
    \<Rightarrow> (nat \<times> nat list \<times> invoice_store) split_result" where
  "sweep_loop e policy stop 0 cursor archived s = Inr (cursor, archived, s)"
| "sweep_loop e policy stop (Suc n) cursor archived s =
    (if stop \<le> cursor then Inr (0, archived, s)
     else
       bindr (sweep_one e policy (cursor + 1) archived s) (\<lambda>(archived', s1).
       sweep_loop e policy stop n (cursor + 1) archived' s1))"

definition run_archival_sweep ::
  "'x ledger_env_scheme \<Rightarrow> admin_store \<Rightarrow> breaker_store \<Rightarrow> invoice_store
    \<Rightarrow> (nat list \<times> invoice_store) split_result" where
  "run_archival_sweep e a br s =
    bindr (require_not_paused a br) (\<lambda>_.
    let policy = load_archival_policy s in
    bindr (ensure (ap_enabled policy) (Trap ''archival sweep disabled'')) (\<lambda>_.
    let stats = load_archival_stats s in
    bindr (ensure (as_last_sweep_ledger stats = 0
        \<or> ap_sweep_interval_ledgers policy \<le> sequence e - as_last_sweep_ledger stats)
      (Trap ''archival sweep not due'')) (\<lambda>_.
    bindr (sweep_loop e policy (last_id a) (ap_max_batch policy) (as_sweep_cursor stats) [] s)
      (\<lambda>(cursor, archived, s1).
    let stats1 = load_archival_stats s1;
        s2 = save_archival_stats (stats1\<lparr>as_sweep_cursor := cursor, as_last_sweep_ledger := sequence e\<rparr>) s1
    in Inr (archived, store_emit (ArchivalSweepCompleted (length archived) cursor) s2)))))"

definition restore_shard :: "nat \<Rightarrow> nat \<Rightarrow> invoice_store \<Rightarrow> invoice_store" where
  "restore_shard i k s =
    (case t_shards (st_inst s) (i, k) of
       Some payments \<Rightarrow>
         on_inst (\<lambda>t. t\<lparr>t_shards := (t_shards t)((i, k) := None)\<rparr>)
           (on_pers (\<lambda>t. t\<lparr>t_shards := (t_shards t)((i, k) \<mapsto> payments)\<rparr>) s)
     | None \<Rightarrow> s)"

text \<open>Moving one entry of an invoice back to the persistent tier, if the instance tier has it.\<close>

definition take_back :: "nat \<Rightarrow> (nat \<rightharpoonup> 'a) \<Rightarrow> (nat \<rightharpoonup> 'a) \<Rightarrow> (nat \<rightharpoonup> 'a)" where
  "take_back i src dst = (case src i of Some x \<Rightarrow> dst(i \<mapsto> x) | None \<Rightarrow> dst)"

definition restore_records :: "nat \<Rightarrow> invoice_core \<Rightarrow> invoice_store \<Rightarrow> invoice_store" where
  "restore_records i core s =
    (let p = st_pers s;
         n = st_inst s;
         s1 = s\<lparr>st_pers := p\<lparr>t_core := (t_core p)(i \<mapsto> core), t_ext := take_back i (t_ext n) (t_ext p),
                  t_ext2 := take_back i (t_ext2 n) (t_ext2 p), t_compact := take_back i (t_compact n) (t_compact p)\<rparr>,
                st_inst := drop_invoice i n\<rparr>;
         s2 = fold (restore_shard i) [0..<SHARD_COUNT] s1;
         p = st_pers s2;
         n = st_inst s2
     in s2\<lparr>st_pers := p\<lparr>t_audit := take_back i (t_audit n) (t_audit p), t_created := take_back i (t_created n) (t_created p),
            t_marker := (t_marker p)(i := None)\<rparr>,
          st_inst := n\<lparr>t_audit := (t_audit n)(i := None), t_created := (t_created n)(i := None),
            t_marker := (t_marker n)(i := None)\<rparr>\<rparr>)"

definition restore_archived_invoice ::
  "'x ledger_env_scheme \<Rightarrow> admin_store \<Rightarrow> breaker_store \<Rightarrow> addr \<Rightarrow> nat \<Rightarrow> invoice_store
    \<Rightarrow> invoice_store split_result" where
  "restore_archived_invoice e a br caller i s =
    bindr (require_not_paused a br) (\<lambda>_.
    bindr (ensure (is_invoice_archived i s) (Trap ''invoice not archived'')) (\<lambda>_.
    bindr (case load_archival_record s i of
        Some r \<Rightarrow> ensure (ar_status r \<noteq> Purged) (Trap ''purged invoice cannot be restored'')
      | None \<Rightarrow> Inr ()) (\<lambda>_.
    bindr (ok_or (or_else (t_core (st_inst s) i) (t_core (st_pers s) i)) (Trap ''invoice not found'')) (\<lambda>core.
    bindr (if caller = ic_creator core then require_auth e caller
           else require_admin_role e caller Operator a) (\<lambda>_.
    let s1 = restore_records i core s;
        r = unwrap_or (load_archival_record s1 i) \<lparr>ar_status = Archived, ar_archived_at_ledger = 0,
              ar_archived_by = None, ar_restored_at_ledger = None, ar_restored_by = None,
              ar_purged_at_ledger = None, ar_archive_count = 1\<rparr>;
        s2 = save_archival_record i (r\<lparr>ar_status := Restored, ar_restored_at_ledger := Some (sequence e),
               ar_restored_by := Some caller\<rparr>) s1;
        stats = load_archival_stats s2;
        s3 = save_archival_stats (stats\<lparr>as_total_restored := sat_add u64_max (as_total_restored stats) 1\<rparr>) s2;
        s4 = append_audit_entry e i ''restored'' caller s3
    in Inr (store_emit (InvoiceRestored i caller (sequence e)) s4))))))"

fun purge_loop ::
  "'x ledger_env_scheme \<Rightarrow> archival_policy \<Rightarrow> addr \<Rightarrow> nat list \<Rightarrow> nat list \<Rightarrow> invoice_store
    \<Rightarrow> (nat list \<times> invoice_store) split_result" where
  "purge_loop e policy admin [] purged s = Inr (purged, s)"
| "purge_loop e policy admin (i # ids) purged s =
    (if is_purge_eligible e i policy s then
       bindr (purge_archived_invoice e i admin s) (\<lambda>s1. purge_loop e policy admin ids (purged @ [i]) s1)
     else purge_loop e policy admin ids purged s)"

definition purge_archived_invoices ::
  "'x ledger_env_scheme \<Rightarrow> admin_store \<Rightarrow> addr \<Rightarrow> nat list \<Rightarrow> invoice_store
    \<Rightarrow> (nat list \<times> invoice_store) split_result" where
  "purge_archived_invoices e a admin ids s =
    bindr (require_admin_role e admin Operator a) (\<lambda>_.
    bindr (ensure (length ids \<le> 20) (Trap ''batch limit exceeded'')) (\<lambda>_.
    purge_loop e (load_archival_policy s) admin ids [] s))"


section \<open>Selector lemmas\<close>

lemma on_tier_sel [simp]:
  "st_pers (on_pers f s) = f (st_pers s)" "st_inst (on_pers f s) = st_inst s" "st_hot (on_pers f s) = st_hot s"
  "st_meta (on_pers f s) = st_meta s" "st_records (on_pers f s) = st_records s"
  "st_policy (on_pers f s) = st_policy s" "st_stats (on_pers f s) = st_stats s" "st_after (on_pers f s) = st_after s"
  "st_inst (on_inst f s) = f (st_inst s)" "st_pers (on_inst f s) = st_pers s" "st_hot (on_inst f s) = st_hot s"
  "st_meta (on_inst f s) = st_meta s" "st_records (on_inst f s) = st_records s"
  "st_policy (on_inst f s) = st_policy s" "st_stats (on_inst f s) = st_stats s" "st_after (on_inst f s) = st_after s"
  by (simp_all add: on_pers_def on_inst_def)

lemma or_else_simps [simp]: "or_else (Some x) y = Some x" "or_else None y = y" "or_else z None = z"
  by (simp_all add: or_else_def split: option.splits)

lemma unwrap_or_simps [simp]: "unwrap_or (Some x) d = x" "unwrap_or None d = d"
  by (simp_all add: unwrap_or_def)

text \<open>Moving shards between the tiers keeps what a reader finds, and touches nothing else.\<close>

definition forget_shards :: "invoice_store \<Rightarrow> invoice_store" where
  "forget_shards s = s\<lparr>st_pers := (st_pers s)\<lparr>t_shards := Map.empty\<rparr>, st_inst := (st_inst s)\<lparr>t_shards := Map.empty\<rparr>\<rparr>"

lemma forget_archive_shard: "forget_shards (archive_shard i k s) = forget_shards s"
  by (cases s) (simp add: forget_shards_def archive_shard_def on_pers_def on_inst_def Let_def split: option.splits)

lemma forget_restore_shard: "forget_shards (restore_shard i k s) = forget_shards s"
  by (cases s) (simp add: forget_shards_def restore_shard_def on_pers_def on_inst_def split: option.splits)

lemma forget_drop_shard: "forget_shards (drop_shard i k s) = forget_shards s"
  by (cases s) (simp add: forget_shards_def drop_shard_def on_pers_def on_inst_def)

lemma forget_fold: "(\<And>k s. forget_shards (f k s) = forget_shards s) \<Longrightarrow> forget_shards (fold f ks s) = forget_shards s"
  by (induction ks arbitrary: s) auto

lemmas forget_folds = forget_fold [of "archive_shard i" for i, OF forget_archive_shard]
  forget_fold [of "restore_shard i" for i, OF forget_restore_shard]
  forget_fold [of "drop_shard i" for i, OF forget_drop_shard]

lemma archive_shard_view [simp]: "shard_of (archive_shard i k s) = shard_of s"
proof (intro ext)
  fix j l
  show "shard_of (archive_shard i k s) j l = shard_of s j l"
    by (cases "t_shards (st_pers s) (i, k)"; cases "(j, l) = (i, k)")
      (auto simp: shard_of_def archive_shard_def)
qed

lemma fold_archive_shard_view [simp]: "shard_of (fold (archive_shard i) ks s) = shard_of s"
  by (induction ks arbitrary: s) auto

lemma forget_sel:
  assumes "forget_shards s' = forget_shards s"
  shows "t_core (st_pers s') = t_core (st_pers s)" "t_core (st_inst s') = t_core (st_inst s)"
    "t_ext (st_pers s') = t_ext (st_pers s)" "t_ext (st_inst s') = t_ext (st_inst s)"
    "t_ext2 (st_pers s') = t_ext2 (st_pers s)" "t_ext2 (st_inst s') = t_ext2 (st_inst s)"
    "t_compact (st_pers s') = t_compact (st_pers s)" "t_compact (st_inst s') = t_compact (st_inst s)"
    "t_marker (st_pers s') = t_marker (st_pers s)" "t_marker (st_inst s') = t_marker (st_inst s)"
    "st_hot s' = st_hot s" "st_meta s' = st_meta s" "st_records s' = st_records s"
proof -
  have p: "(st_pers s')\<lparr>t_shards := Map.empty\<rparr> = (st_pers s)\<lparr>t_shards := Map.empty\<rparr>"
    and n: "(st_inst s')\<lparr>t_shards := Map.empty\<rparr> = (st_inst s)\<lparr>t_shards := Map.empty\<rparr>"
    using arg_cong [OF assms, of st_pers] arg_cong [OF assms, of st_inst] by (simp_all add: forget_shards_def)
  show "t_core (st_pers s') = t_core (st_pers s)" "t_core (st_inst s') = t_core (st_inst s)"
    using arg_cong [OF p, of t_core] arg_cong [OF n, of t_core] by simp_all
  show "t_ext (st_pers s') = t_ext (st_pers s)" "t_ext (st_inst s') = t_ext (st_inst s)"
    using arg_cong [OF p, of t_ext] arg_cong [OF n, of t_ext] by simp_all
  show "t_ext2 (st_pers s') = t_ext2 (st_pers s)" "t_ext2 (st_inst s') = t_ext2 (st_inst s)"
    using arg_cong [OF p, of t_ext2] arg_cong [OF n, of t_ext2] by simp_all
  show "t_compact (st_pers s') = t_compact (st_pers s)" "t_compact (st_inst s') = t_compact (st_inst s)"
    using arg_cong [OF p, of t_compact] arg_cong [OF n, of t_compact] by simp_all
  show "t_marker (st_pers s') = t_marker (st_pers s)" "t_marker (st_inst s') = t_marker (st_inst s)"
    using arg_cong [OF p, of t_marker] arg_cong [OF n, of t_marker] by simp_all
  show "st_hot s' = st_hot s" "st_meta s' = st_meta s" "st_records s' = st_records s"
    using arg_cong [OF assms, of st_hot] arg_cong [OF assms, of st_meta] arg_cong [OF assms, of st_records]
    by (simp_all add: forget_shards_def)
qed

lemmas shards_sel [simp] = forget_sel [OF forget_folds(1)] forget_sel [OF forget_folds(2)]
  forget_sel [OF forget_folds(3)]

lemma archive_audit_sel [simp]:
  "st_pers (archive_audit i s) = st_pers s" "st_hot (archive_audit i s) = st_hot s"
  "st_meta (archive_audit i s) = st_meta s" "st_records (archive_audit i s) = st_records s"
  "t_core (st_inst (archive_audit i s)) = t_core (st_inst s)"
  "t_ext (st_inst (archive_audit i s)) = t_ext (st_inst s)"
  "t_ext2 (st_inst (archive_audit i s)) = t_ext2 (st_inst s)"
  "t_compact (st_inst (archive_audit i s)) = t_compact (st_inst s)"
  "t_marker (st_inst (archive_audit i s)) = t_marker (st_inst s)"
  "t_shards (st_inst (archive_audit i s)) = t_shards (st_inst s)"
  by (simp_all add: archive_audit_def split: option.splits)

text \<open>Archiving moves the records of one invoice and keeps everything a reader finds.\<close>

lemma archive_storage_sel [simp]:
  "t_core (st_pers (archive_invoice_storage e i core s)) = (t_core (st_pers s))(i := None)"
  "t_core (st_inst (archive_invoice_storage e i core s)) = (t_core (st_inst s))(i \<mapsto> core)"
  "t_ext (st_pers (archive_invoice_storage e i core s)) = (t_ext (st_pers s))(i := None)"
  "t_ext (st_inst (archive_invoice_storage e i core s)) =
    (t_ext (st_inst s))(i \<mapsto> unwrap_or (or_else (t_ext (st_pers s) i) (t_ext (st_inst s) i)) default_ext)"
  "t_ext2 (st_pers (archive_invoice_storage e i core s)) = (t_ext2 (st_pers s))(i := None)"
  "t_ext2 (st_inst (archive_invoice_storage e i core s)) =
    (t_ext2 (st_inst s))(i \<mapsto> unwrap_or (or_else (t_ext2 (st_pers s) i) (t_ext2 (st_inst s) i)) default_ext2)"
  "t_compact (st_pers (archive_invoice_storage e i core s)) = (t_compact (st_pers s))(i := None)"
  "t_marker (st_pers (archive_invoice_storage e i core s)) = t_marker (st_pers s)"
  "t_marker (st_inst (archive_invoice_storage e i core s)) = (t_marker (st_inst s))(i \<mapsto> True)"
  "st_hot (archive_invoice_storage e i core s) = st_hot s" "st_meta (archive_invoice_storage e i core s) = st_meta s"
  "st_records (archive_invoice_storage e i core s) = st_records s"
  by (simp_all add: archive_invoice_storage_def Let_def)

lemma archive_storage_compact:
  "t_compact (st_inst (archive_invoice_storage e i core s)) = (t_compact (st_inst s))(i \<mapsto>
    unwrap_or (or_else (t_compact (st_pers s) i) (t_compact (st_inst s) i)) (to_compact (assemble core
      (unwrap_or (or_else (t_ext (st_pers s) i) (t_ext (st_inst s) i)) default_ext)
      (unwrap_or (or_else (t_ext2 (st_pers s) i) (t_ext2 (st_inst s) i)) default_ext2))))"
  by (simp add: archive_invoice_storage_def Let_def)

lemma shard_of_on [simp]:
  "(\<And>t. t_shards (f t) = t_shards t) \<Longrightarrow> shard_of (on_pers f s) = shard_of s"
  "(\<And>t. t_shards (f t) = t_shards t) \<Longrightarrow> shard_of (on_inst f s) = shard_of s"
  by (auto simp: shard_of_def fun_eq_iff)

lemma archive_audit_shards [simp]: "shard_of (archive_audit i s) = shard_of s"
  by (auto simp: shard_of_def fun_eq_iff)

lemma archive_storage_shards [simp]: "shard_of (archive_invoice_storage e i core s) = shard_of s"
  by (simp add: archive_invoice_storage_def Let_def)


section \<open>What a reader finds\<close>

definition invoice_part where
  "invoice_part s = (t_core (st_pers s), t_core (st_inst s), t_ext (st_pers s), t_ext (st_inst s),
    t_ext2 (st_pers s), t_ext2 (st_inst s), t_compact (st_pers s), t_compact (st_inst s),
    t_marker (st_pers s), t_marker (st_inst s), st_hot s, st_meta s, shard_of s)"

lemma invoice_part_frames [simp]:
  "invoice_part (append_audit_entry e i x y s) = invoice_part s" "invoice_part (store_emit ev s) = invoice_part s"
  "invoice_part (save_archival_record i r s) = invoice_part s" "invoice_part (save_archival_stats st s) = invoice_part s"
  by (simp_all add: invoice_part_def append_audit_entry_def store_emit_def save_archival_record_def
      save_archival_stats_def shard_of_def Let_def on_pers_def on_inst_def fun_eq_iff)

lemma record_archived_part: "record_archived e i x s = Inr s' \<Longrightarrow> invoice_part s' = invoice_part s"
  by (auto simp: record_archived_def result_simps Let_def)

text \<open>The invoice \<open>v\<close> is stored under \<open>i\<close>: a reader finds its records, a packed form in the persistent
  tier is its packed form, and the hot record agrees with it.\<close>

definition stored :: "nat \<Rightarrow> full_invoice \<Rightarrow> invoice_store \<Rightarrow> bool" where
  "stored i v s \<longleftrightarrow>
    (case invoice_split (v\<lparr>inv_payments := []\<rparr>) of
       (core, ext, ext2) \<Rightarrow>
         or_else (t_core (st_pers s) i) (t_core (st_inst s) i) = Some core
         \<and> or_else (t_ext (st_pers s) i) (t_ext (st_inst s) i) = Some ext
         \<and> or_else (t_ext2 (st_pers s) i) (t_ext2 (st_inst s) i) = Some ext2)
    \<and> (\<forall>c. t_compact (st_pers s) i = Some c \<longrightarrow> c = to_compact v)
    \<and> (case st_hot s i of
         None \<Rightarrow> False
       | Some h \<Rightarrow> hot_status h = inv_status v \<and> hot_funded h = inv_funded v \<and> hot_recipients h = inv_recipients v)"

lemma stored_cong: "invoice_part s' = invoice_part s \<Longrightarrow> stored i v s' = stored i v s"
  by (auto simp: stored_def invoice_part_def)

lemma split_payments:
  "invoice_split (v\<lparr>inv_payments := []\<rparr>) = (core, ext, ext2) \<Longrightarrow>
    invoice_split (v\<lparr>inv_payments := ps\<rparr>) = (core\<lparr>ic_payments := ps\<rparr>, ext, ext2)"
  by (auto simp: invoice_split_def)

lemma read_stored:
  assumes "stored i v s" and "fits_i128 (inv_funded v)" and "inv_deadline v \<le> u64_max"
  shows "read_invoice i s = Inr (v\<lparr>inv_payments := load_payments s i, inv_metadata_hash := st_meta s i\<rparr>)"
proof -
  obtain core ext ext2 where sp: "invoice_split (v\<lparr>inv_payments := []\<rparr>) = (core, ext, ext2)"
    by (cases "invoice_split (v\<lparr>inv_payments := []\<rparr>)")
  let ?ps = "load_payments s i"
  let ?w = "v\<lparr>inv_payments := ?ps\<rparr>"
  have sp': "invoice_split ?w = (core\<lparr>ic_payments := ?ps\<rparr>, ext, ext2)" by (rule split_payments [OF sp])
  have asm: "assemble (core\<lparr>ic_payments := ?ps\<rparr>) ext ext2 = ?w" by (rule assemble_split [OF sp'])
  have cp: "to_compact ?w = to_compact v" by (simp add: to_compact_def del: to_be_bytes.simps)
  have "\<exists>st. (case t_compact (st_pers s) i of
        Some compact \<Rightarrow> from_compact compact (core\<lparr>ic_payments := ?ps\<rparr>) ext ext2
      | None \<Rightarrow> Inr (assemble (core\<lparr>ic_payments := ?ps\<rparr>) ext ext2)) = (Inr (?w\<lparr>inv_status := st\<rparr>) :: full_invoice split_result)"
  proof (cases "t_compact (st_pers s) i")
    case None
    have "?w\<lparr>inv_status := inv_status v\<rparr> = ?w" by simp
    then show ?thesis using asm None by (intro exI [of _ "inv_status v"]) simp
  next
    case (Some c)
    then have "c = to_compact ?w" using assms(1) cp by (simp add: stored_def)
    moreover have "from_compact (to_compact ?w) (core\<lparr>ic_payments := ?ps\<rparr>) ext ext2 =
        (Inr (if inv_status ?w = PayoutInProgress then ?w\<lparr>inv_status := Pending\<rparr> else ?w) :: full_invoice split_result)"
      by (rule compact_roundtrip [OF sp']) (use assms(2,3) in simp_all)
    ultimately show ?thesis using Some
      by (intro exI [of _ "if inv_status v = PayoutInProgress then Pending else inv_status v"]) simp
  qed
  then obtain st where st: "(case t_compact (st_pers s) i of
        Some compact \<Rightarrow> from_compact compact (core\<lparr>ic_payments := ?ps\<rparr>) ext ext2
      | None \<Rightarrow> Inr (assemble (core\<lparr>ic_payments := ?ps\<rparr>) ext ext2)) = (Inr (?w\<lparr>inv_status := st\<rparr>) :: full_invoice split_result)" ..
  obtain h where h: "st_hot s i = Some h" "hot_status h = inv_status v" "hot_funded h = inv_funded v"
    "hot_recipients h = inv_recipients v"
    using assms(1) by (auto simp: stored_def split: option.splits)
  have "or_else (t_core (st_pers s) i) (t_core (st_inst s) i) = Some core"
    "or_else (t_ext (st_pers s) i) (t_ext (st_inst s) i) = Some ext"
    "or_else (t_ext2 (st_pers s) i) (t_ext2 (st_inst s) i) = Some ext2"
    using assms(1) sp by (simp_all add: stored_def)
  then show ?thesis using h st by (simp add: read_invoice_def Let_def)
qed

lemma load_payments_cong: "shard_of s' = shard_of s \<Longrightarrow> load_payments s' i = load_payments s i"
  by (simp add: load_payments_def)

lemma part_shards: "invoice_part s' = invoice_part s \<Longrightarrow> shard_of s' = shard_of s \<and> st_meta s' = st_meta s"
  by (simp add: invoice_part_def)

lemma archive_stored:
  assumes "stored i v s" and "or_else (t_core (st_pers s) i) (t_core (st_inst s) i) = Some core"
  shows "stored i v (archive_invoice_storage e i core s)"
  using assms by (auto simp: stored_def split: prod.splits)

lemma archive_stored_other: "stored j v s \<Longrightarrow> j \<noteq> i \<Longrightarrow> stored j v (archive_invoice_storage e i core s)"
  by (auto simp: stored_def split: prod.splits)

lemma maybe_archive_cases:
  assumes "maybe_archive_invoice e i s = Inr s'"
  obtains "s' = s"
  | core s1 where "\<not> is_archived i s" "or_else (t_core (st_pers s) i) (t_core (st_inst s) i) = Some core"
    "record_archived e i None (archive_invoice_storage e i core s) = Inr s1" "s' = store_emit (InvoiceArchived i) s1"
  using assms by (auto simp: maybe_archive_invoice_def result_simps split: if_splits)

lemma maybe_archive_stored:
  assumes "maybe_archive_invoice e i s = Inr s'" and "stored j v s"
  shows "stored j v s' \<and> shard_of s' = shard_of s \<and> st_meta s' = st_meta s"
  using assms(1)
proof (rule maybe_archive_cases)
  assume "s' = s"
  then show ?thesis using assms(2) by simp
next
  fix core s1
  assume core: "or_else (t_core (st_pers s) i) (t_core (st_inst s) i) = Some core"
    and "record_archived e i None (archive_invoice_storage e i core s) = Inr s1"
    and "s' = store_emit (InvoiceArchived i) s1"
  then have part: "invoice_part s' = invoice_part (archive_invoice_storage e i core s)"
    by (simp add: record_archived_part)
  have "stored j v (archive_invoice_storage e i core s)"
    using archive_stored archive_stored_other assms(2) core by (cases "j = i") auto
  then show ?thesis using stored_cong [OF part] part_shards [OF part] by simp
qed

lemma save_stored:
  assumes "save_stored_invoice e i v s = Inr s'"
  shows "stored i v s' \<and> shard_of s' = shard_of s \<and> st_meta s' = st_meta s"
proof -
  obtain core ext ext2 where sp: "invoice_split (v\<lparr>inv_payments := []\<rparr>) = (core, ext, ext2)"
    by (cases "invoice_split (v\<lparr>inv_payments := []\<rparr>)")
  show ?thesis using assms
    by (auto simp: save_stored_invoice_def sp result_simps Let_def stored_def save_compact_status_def put_invoice_def
        drop_invoice_def shard_of_def fun_eq_iff on_pers_def on_inst_def split: if_splits)
qed

lemma maybe_archive_ok:
  assumes "stored i v s" and "\<forall>r. st_records s i = Some r \<longrightarrow> ar_archive_count r < u32_max"
  shows "\<exists>s'. maybe_archive_invoice e i s = Inr s'"
proof -
  obtain core where "or_else (t_core (st_pers s) i) (t_core (st_inst s) i) = Some core"
    using assms(1) by (auto simp: stored_def)
  moreover obtain s' where "record_archived e i None (archive_invoice_storage e i core s) = Inr s'"
    using assms(2)
    by (cases "st_records s i")
      (auto simp: record_archived_def load_archival_record_def checked_nat_def Let_def rust_int)
  ultimately show ?thesis by (simp add: maybe_archive_invoice_def)
qed

text \<open>
  C32: What is saved is what is loaded: after \<open>save_invoice\<close>, every later load of the invoice succeeds
  (unless the archive counter is exhausted) and, in either storage tier and even when the load itself
  moves the invoice to the archive, returns the saved invoice in all its fields, with the payments of
  the shards and the stored metadata hash; in particular the status survives although the packed form
  cannot represent all of them.
\<close>

theorem load_after_save:
  assumes "save_stored_invoice e i v s = Inr s1" and "fits_i128 (inv_funded v)" and "inv_deadline v \<le> u64_max"
    and "\<forall>r. st_records s i = Some r \<longrightarrow> ar_archive_count r < u32_max"
  shows "\<exists>s2. load_invoice e' i s1 =
      Inr (v\<lparr>inv_payments := load_payments s i, inv_metadata_hash := st_meta s i\<rparr>, s2)
    \<and> load_payments s2 i = load_payments s i \<and> stored i v s2"
proof -
  note sv = save_stored [OF assms(1)]
  have "st_records s1 = st_records s"
    using assms(1) by (auto simp: save_stored_invoice_def result_simps Let_def save_compact_status_def split: prod.splits)
  then obtain s2 where ma: "maybe_archive_invoice e' i s1 = Inr s2"
    using maybe_archive_ok [of i v s1 e'] sv assms(4) by auto
  note ar = maybe_archive_stored [OF ma, of i v]
  have "read_invoice i s2 = Inr (v\<lparr>inv_payments := load_payments s2 i, inv_metadata_hash := st_meta s2 i\<rparr>)"
    using ar sv by (intro read_stored assms(2,3)) simp
  moreover have "load_payments s2 i = load_payments s i" using ar sv by (intro load_payments_cong) simp
  ultimately show ?thesis using ma ar sv by (simp add: load_invoice_def)
qed

definition empty_tier :: tier where
  "empty_tier = \<lparr>t_core = Map.empty, t_ext = Map.empty, t_ext2 = Map.empty, t_compact = Map.empty,
    t_shards = Map.empty, t_audit = Map.empty, t_created = Map.empty, t_marker = Map.empty\<rparr>"

definition empty_store :: invoice_store where
  "empty_store = \<lparr>st_pers = empty_tier, st_inst = empty_tier, st_hot = Map.empty, st_status = Map.empty,
    st_meta = Map.empty, st_records = Map.empty, st_policy = None, st_stats = None, st_after = None,
    st_quota = None, st_events = []\<rparr>"

definition store_demo_env :: "nat \<Rightarrow> store_env" where
  "store_demo_env t = \<lparr>timestamp = t, sequence = t, self_addr = 99, auth = (\<lambda>b. b = 2), xdr_core = (\<lambda>_. 100),
    xdr_ext = (\<lambda>_. 100), xdr_ext2 = (\<lambda>_. 100)\<rparr>"

lemma demo_save:
  "\<exists>s'. save_stored_invoice (store_demo_env 5) 1 (demo_invoice Released) empty_store = Inr s' \<and> st_pers s' =
    put_invoice 1 (demo_core Released) default_ext default_ext2 (to_compact (demo_invoice Released)) empty_tier
    \<and> st_inst s' = empty_tier \<and> st_records s' = Map.empty \<and> st_after s' = None \<and> st_policy s' = None"
proof -
  have "demo_invoice Released\<lparr>inv_payments := []\<rparr> = demo_invoice Released"
    "inv_amounts (demo_invoice Released) = [60, 40]"
    by (simp_all add: demo_invoice_def assemble_def demo_core_def)
  then show ?thesis
    by (simp add: save_stored_invoice_def measure_invoice_bytes_def checked_nat_def store_demo_env_def is_archived_def empty_store_def
        empty_tier_def DEFAULT_INVOICE_STORAGE_QUOTA_def rust_int save_compact_status_def on_pers_def Let_def
        del: to_be_bytes.simps)
qed

theorem load_after_save_witness:
  "\<exists>s1 s2. save_stored_invoice (store_demo_env 5) 1 (demo_invoice Released) empty_store = Inr s1
    \<and> load_invoice (store_demo_env 200000) 1 s1 =
      Inr ((demo_invoice Released)\<lparr>inv_payments := load_payments empty_store 1, inv_metadata_hash := None\<rparr>, s2)"
proof -
  obtain s1 where s1: "save_stored_invoice (store_demo_env 5) 1 (demo_invoice Released) empty_store = Inr s1"
    using demo_save by blast
  have "st_meta empty_store 1 = None" "st_records empty_store 1 = None" by (simp_all add: empty_store_def)
  then show ?thesis
    using load_after_save [OF s1, of "store_demo_env 200000"] s1 by (auto simp: rust_int)
qed


section \<open>Archival is transparent\<close>

text \<open>Copies of an invoice in the instance tier are current, and a shard lives in one tier.\<close>

definition settled :: "nat \<Rightarrow> full_invoice \<Rightarrow> invoice_store \<Rightarrow> bool" where
  "settled i v s \<longleftrightarrow> stored i v s
    \<and> (case invoice_split (v\<lparr>inv_payments := []\<rparr>) of
         (core, ext, ext2) \<Rightarrow>
           t_core (st_inst s) i \<in> {None, Some core} \<and> t_ext (st_inst s) i \<in> {None, Some ext}
           \<and> t_ext2 (st_inst s) i \<in> {None, Some ext2})
    \<and> t_compact (st_inst s) i \<in> {None, Some (to_compact v)}
    \<and> (\<forall>k. t_shards (st_pers s) (i, k) = None \<or> t_shards (st_inst s) (i, k) = None)
    \<and> (\<forall>r. st_records s i = Some r \<longrightarrow> ar_status r = Archived \<or> ar_status r = Purged \<longrightarrow> is_archived i s)"

definition view_part where
  "view_part s = (invoice_part s, t_shards (st_pers s), t_shards (st_inst s))"

lemma view_part_frames [simp]:
  "view_part (append_audit_entry e i x y s) = view_part s" "view_part (store_emit ev s) = view_part s"
  "view_part (save_archival_record i r s) = view_part s" "view_part (save_archival_stats st s) = view_part s"
  unfolding view_part_def
  by (simp_all add: append_audit_entry_def store_emit_def save_archival_record_def save_archival_stats_def Let_def
      on_pers_def on_inst_def invoice_part_def shard_of_def fun_eq_iff)

lemma records_frames [simp]:
  "st_records (append_audit_entry e i x y s) = st_records s" "st_records (store_emit ev s) = st_records s"
  "st_records (save_archival_stats st s) = st_records s"
  "st_records (save_archival_record i r s) = (st_records s)(i \<mapsto> r)"
  by (simp_all add: append_audit_entry_def store_emit_def save_archival_record_def save_archival_stats_def Let_def)

lemma record_archived_view:
  assumes "record_archived e i x s = Inr s'"
  shows "view_part s' = view_part s"
    and "\<exists>r. st_records s' = (st_records s)(i \<mapsto> r) \<and> ar_status r = Archived"
  using assms by (auto simp: record_archived_def result_simps Let_def)

lemma settled_frame:
  assumes "view_part s' = view_part s" and "settled i v s"
    and "\<forall>r. st_records s' i = Some r \<longrightarrow> ar_status r = Archived \<or> ar_status r = Purged \<longrightarrow> is_archived i s"
  shows "settled i v s'"
proof -
  have part: "invoice_part s' = invoice_part s" using assms(1) by (simp add: view_part_def)
  have "is_archived i s' = is_archived i s" using part by (simp add: is_archived_def invoice_part_def)
  then show ?thesis using assms part stored_cong [OF part]
    by (simp add: settled_def view_part_def invoice_part_def)
qed

lemma archive_shards_exclusive:
  assumes "\<forall>k. t_shards (st_pers s) (j, k) = None \<or> t_shards (st_inst s) (j, k) = None"
  shows "\<forall>k. t_shards (st_pers (fold (archive_shard i) ks s)) (j, k) = None
    \<or> t_shards (st_inst (fold (archive_shard i) ks s)) (j, k) = None"
  using assms
proof (induction ks arbitrary: s)
  case (Cons k ks)
  have "\<forall>l. t_shards (st_pers (archive_shard i k s)) (j, l) = None
      \<or> t_shards (st_inst (archive_shard i k s)) (j, l) = None"
    using Cons.prems by (auto simp: archive_shard_def split: option.splits)
  then show ?case using Cons.IH by simp
qed simp

lemma archive_storage_exclusive:
  assumes "\<forall>k. t_shards (st_pers s) (j, k) = None \<or> t_shards (st_inst s) (j, k) = None"
  shows "\<forall>k. t_shards (st_pers (archive_invoice_storage e i core s)) (j, k) = None
    \<or> t_shards (st_inst (archive_invoice_storage e i core s)) (j, k) = None"
proof -
  have "\<forall>k. t_shards (st_pers (fold (archive_shard i) ks (on_inst f (on_inst g s)))) (j, k) = None
      \<or> t_shards (st_inst (fold (archive_shard i) ks (on_inst f (on_inst g s)))) (j, k) = None"
    if "\<And>t. t_shards (f t) = t_shards t" "\<And>t. t_shards (g t) = t_shards t" for f g ks
    by (rule archive_shards_exclusive) (use assms that in simp)
  then show ?thesis unfolding archive_invoice_storage_def Let_def by simp
qed

lemma archive_settled:
  assumes st: "settled j v s" and core: "or_else (t_core (st_pers s) i) (t_core (st_inst s) i) = Some core"
  shows "settled j v (archive_invoice_storage e i core s)"
proof -
  let ?t = "archive_invoice_storage e i core s"
  have ex: "\<forall>k. t_shards (st_pers ?t) (j, k) = None \<or> t_shards (st_inst ?t) (j, k) = None"
    using st by (intro archive_storage_exclusive) (simp add: settled_def)
  have str: "stored j v ?t"
    using st core archive_stored [of i v s core e] archive_stored_other [of j v s i e core]
    by (cases "j = i") (simp_all add: settled_def)
  obtain c x y where sp: "invoice_split (v\<lparr>inv_payments := []\<rparr>) = (c, x, y)"
    by (cases "invoice_split (v\<lparr>inv_payments := []\<rparr>)")
  have cp: "t_compact (st_inst ?t) j \<in> {None, Some (to_compact v)}"
  proof (cases "j = i")
    case True
    have asm: "core = c" "assemble c x y = v\<lparr>inv_payments := []\<rparr>"
      using st core sp True assemble_split [OF sp] by (simp_all add: settled_def stored_def)
    have "to_compact (v\<lparr>inv_payments := []\<rparr>) = to_compact v" by (simp add: to_compact_def del: to_be_bytes.simps)
    then show ?thesis using st sp True asm
      by (cases "t_compact (st_pers s) i"; cases "t_compact (st_inst s) i")
        (simp_all add: settled_def stored_def archive_storage_compact)
  next
    case False
    then show ?thesis using st by (simp add: settled_def archive_storage_compact)
  qed
  have mk: "is_archived j s \<Longrightarrow> is_archived j ?t" by (auto simp: is_archived_def)
  show ?thesis unfolding settled_def
    using ex str cp mk st core sp by (cases "j = i") (auto simp: settled_def stored_def is_archived_def)
qed

text \<open>A state that keeps invoice \<open>i\<close> as it was in \<open>s0\<close>; only purging drops payments.\<close>

definition kept :: "nat \<Rightarrow> full_invoice \<Rightarrow> invoice_store \<Rightarrow> invoice_store \<Rightarrow> bool" where
  "kept i v s0 s \<longleftrightarrow> settled i v s \<and> st_meta s i = st_meta s0 i
    \<and> ((\<exists>r. st_records s i = Some r \<and> ar_status r = Purged) \<or> (\<forall>k. shard_of s i k = shard_of s0 i k))"

lemma kept_archive_step:
  assumes k: "kept j v s0 s" and core: "or_else (t_core (st_pers s) i) (t_core (st_inst s) i) = Some core"
    and na: "\<not> is_archived i s"
    and rec: "record_archived e i x (archive_invoice_storage e i core s) = Inr s1"
  shows "kept j v s0 (store_emit ev s1)"
proof -
  let ?t = "archive_invoice_storage e i core s"
  note rv = record_archived_view [OF rec]
  have vp: "view_part (store_emit ev s1) = view_part ?t" using rv(1) by simp
  have st: "settled j v ?t" using k core by (intro archive_settled) (simp_all add: kept_def)
  have arch: "is_archived i ?t" by (simp add: is_archived_def)
  have recs: "\<forall>r. st_records s j = Some r \<longrightarrow> ar_status r = Archived \<or> ar_status r = Purged \<longrightarrow> is_archived j ?t"
    using st by (simp add: settled_def)
  obtain r where r: "st_records s1 = (st_records s)(i \<mapsto> r)" using rv(2) by auto
  have "settled j v (store_emit ev s1)"
    by (rule settled_frame [OF vp st]) (use recs r arch in \<open>cases "j = i"; simp\<close>)
  moreover have "shard_of (store_emit ev s1) = shard_of s" "st_meta (store_emit ev s1) = st_meta s"
    using vp by (simp_all add: view_part_def invoice_part_def)
  moreover have "st_records (store_emit ev s1) j = Some r \<and> ar_status r = Purged"
    if "st_records s j = Some r" "ar_status r = Purged" for r
  proof -
    have "is_archived j s" using k that by (simp add: kept_def settled_def)
    then have "j \<noteq> i" using na by auto
    then show ?thesis using rv(2) that by auto
  qed
  ultimately show ?thesis using k by (auto simp: kept_def)
qed

lemma kept_maybe_archive:
  assumes "kept j v s0 s" and "maybe_archive_invoice e i s = Inr s'"
  shows "kept j v s0 s'"
  using assms(2)
proof (rule maybe_archive_cases)
  assume "s' = s"
  then show ?thesis using assms(1) by simp
next
  fix core s1
  assume "\<not> is_archived i s" "or_else (t_core (st_pers s) i) (t_core (st_inst s) i) = Some core"
    "record_archived e i None (archive_invoice_storage e i core s) = Inr s1" "s' = store_emit (InvoiceArchived i) s1"
  then show ?thesis using kept_archive_step [OF assms(1)] by simp
qed

lemma kept_sweep_one:
  assumes k: "kept j v s0 s" and "sweep_one e policy i xs s = Inr (ys, s')"
    and purge: "\<And>s'. purge_archived_invoice e i (self_addr e) s = Inr s' \<Longrightarrow> is_purge_eligible e i policy s \<Longrightarrow>
      kept j v s0 s'"
  shows "kept j v s0 s'"
proof (cases "is_archival_eligible e i s")
  case True
  with assms(2) obtain core s1 where "t_core (st_pers s) i = Some core"
    "record_archived e i (Some (self_addr e)) (archive_invoice_storage e i core s) = Inr s1"
    "s' = store_emit (InvoiceArchived i) s1"
    by (auto simp: sweep_one_def result_simps)
  moreover have "\<not> is_archived i s"
    using True by (auto simp: is_archival_eligible_def is_invoice_archived_def split: if_splits)
  ultimately show ?thesis using kept_archive_step [OF k, of i core e "Some (self_addr e)" s1] by simp
next
  case False
  then show ?thesis using assms(2) k purge by (auto simp: sweep_one_def result_simps split: if_splits)
qed

lemma kept_purge:
  assumes k: "kept j v s0 s" and "purge_archived_invoice e i a s = Inr s'" and el: "is_purge_eligible e i policy s"
  shows "kept j v s0 s'"
proof -
  let ?t = "fold (drop_shard i) [0..<SHARD_COUNT] s"
  from assms(2) obtain r where r: "st_records s i = Some r" and vp: "view_part s' = view_part ?t"
    and rs: "st_records s' = (st_records s)(i \<mapsto> r\<lparr>ar_status := Purged, ar_purged_at_ledger := Some (sequence e)\<rparr>)"
    by (auto simp: purge_archived_invoice_def result_simps Let_def load_archival_record_def)
  have ar: "ar_status r = Archived"
    using el r by (auto simp: is_purge_eligible_def load_archival_record_def split: if_splits)
  have drop: "t_shards (st_pers (fold (drop_shard i) ks u)) (l, m) =
        (if l = i \<and> m \<in> set ks then None else t_shards (st_pers u) (l, m))"
    "t_shards (st_inst (fold (drop_shard i) ks u)) (l, m) =
        (if l = i \<and> m \<in> set ks then None else t_shards (st_inst u) (l, m))" for ks l m and u
    by (induction ks arbitrary: u) (auto simp: drop_shard_def)
  have st: "settled j v ?t"
    using k by (simp add: kept_def settled_def stored_def is_archived_def drop)
  have arch: "i = j \<Longrightarrow> is_archived j ?t" using k r ar by (simp add: kept_def settled_def is_archived_def)
  have recs: "\<forall>r. st_records s j = Some r \<longrightarrow> ar_status r = Archived \<or> ar_status r = Purged \<longrightarrow> is_archived j ?t"
    using st by (simp add: settled_def)
  have "settled j v s'" by (rule settled_frame [OF vp st]) (use rs recs arch in \<open>cases "i = j"; simp\<close>)
  moreover have "st_meta s' = st_meta s" "shard_of s' = shard_of ?t"
    using vp by (simp_all add: view_part_def invoice_part_def)
  moreover have "j \<noteq> i \<Longrightarrow> shard_of ?t j m = shard_of s j m" for m by (simp add: shard_of_def drop)
  ultimately show ?thesis using k rs by (cases "j = i") (auto simp: kept_def)
qed

lemma kept_sweep_loop:
  assumes "kept j v s0 s" and "sweep_loop e policy stop n cursor xs s = Inr (c, ys, s')"
  shows "kept j v s0 s'"
  using assms
proof (induction n arbitrary: cursor xs s)
  case (Suc n)
  show ?case
  proof (cases "stop \<le> cursor")
    case False
    with Suc.prems(2) obtain zs s1 where one: "sweep_one e policy (Suc cursor) xs s = Inr (zs, s1)"
      and rest: "sweep_loop e policy stop n (Suc cursor) zs s1 = Inr (c, ys, s')"
      by (auto simp: result_simps)
    from kept_sweep_one [OF Suc.prems(1) one] kept_purge [OF Suc.prems(1)] have "kept j v s0 s1" by blast
    from Suc.IH [OF this rest] show ?thesis .
  qed (use Suc.prems in simp)
qed simp

lemma kept_purge_loop:
  assumes "kept j v s0 s" and "purge_loop e policy a ids xs s = Inr (ys, s')"
  shows "kept j v s0 s'"
  using assms
proof (induction ids arbitrary: xs s)
  case (Cons i ids)
  show ?case
  proof (cases "is_purge_eligible e i policy s")
    case True
    with Cons.prems(2) obtain s1 where s1: "purge_archived_invoice e i a s = Inr s1"
      and rest: "purge_loop e policy a ids (xs @ [i]) s1 = Inr (ys, s')"
      by (auto simp: result_simps)
    from Cons.IH [OF kept_purge [OF Cons.prems(1) s1 True] rest] show ?thesis .
  qed (use Cons in simp)
qed simp

lemma restore_shards_eq:
  "t_shards (st_pers (fold (restore_shard i) ks s)) (j, k) =
    (if j = i \<and> k \<in> set ks \<and> t_shards (st_inst s) (j, k) \<noteq> None then t_shards (st_inst s) (j, k)
     else t_shards (st_pers s) (j, k))"
  "t_shards (st_inst (fold (restore_shard i) ks s)) (j, k) =
    (if j = i \<and> k \<in> set ks then None else t_shards (st_inst s) (j, k))"
  by (induction ks arbitrary: s) (auto simp: restore_shard_def split: option.splits)

lemma restore_records_shards:
  "t_shards (st_pers (restore_records i core s)) (j, k) =
    (if j = i \<and> k < SHARD_COUNT \<and> t_shards (st_inst s) (j, k) \<noteq> None then t_shards (st_inst s) (j, k)
     else t_shards (st_pers s) (j, k))"
  "t_shards (st_inst (restore_records i core s)) (j, k) =
    (if j = i \<and> k < SHARD_COUNT then None else t_shards (st_inst s) (j, k))"
  by (auto simp: restore_records_def Let_def restore_shards_eq drop_invoice_def)

lemma restore_records_sel [simp]:
  "t_core (st_pers (restore_records i core s)) = (t_core (st_pers s))(i \<mapsto> core)"
  "t_core (st_inst (restore_records i core s)) = (t_core (st_inst s))(i := None)"
  "t_ext (st_pers (restore_records i core s)) = take_back i (t_ext (st_inst s)) (t_ext (st_pers s))"
  "t_ext (st_inst (restore_records i core s)) = (t_ext (st_inst s))(i := None)"
  "t_ext2 (st_pers (restore_records i core s)) = take_back i (t_ext2 (st_inst s)) (t_ext2 (st_pers s))"
  "t_ext2 (st_inst (restore_records i core s)) = (t_ext2 (st_inst s))(i := None)"
  "t_compact (st_pers (restore_records i core s)) = take_back i (t_compact (st_inst s)) (t_compact (st_pers s))"
  "t_compact (st_inst (restore_records i core s)) = (t_compact (st_inst s))(i := None)"
  "t_marker (st_pers (restore_records i core s)) = (t_marker (st_pers s))(i := None)"
  "t_marker (st_inst (restore_records i core s)) = (t_marker (st_inst s))(i := None)"
  "st_hot (restore_records i core s) = st_hot s" "st_meta (restore_records i core s) = st_meta s"
  "st_records (restore_records i core s) = st_records s"
  by (simp_all add: restore_records_def Let_def drop_invoice_def)

lemma take_back_at: "take_back i f g j = (if j = i then or_else (f i) (g i) else g j)"
  by (simp add: take_back_def split: option.splits)

lemma restore_stored:
  assumes "settled j v s" and core: "or_else (t_core (st_inst s) i) (t_core (st_pers s) i) = Some core"
  shows "stored j v (restore_records i core s)"
  using assms
  by (cases "t_core (st_inst s) i"; cases "t_ext (st_inst s) i"; cases "t_ext2 (st_inst s) i";
      cases "t_compact (st_inst s) i"; cases "j = i")
    (auto simp: settled_def stored_def take_back_at split: prod.splits)

lemma restore_shard_view:
  assumes "\<forall>k. t_shards (st_pers s) (j, k) = None \<or> t_shards (st_inst s) (j, k) = None"
  shows "shard_of (restore_records i core s) j k = shard_of s j k"
  using assms [rule_format, of k] by (auto simp: shard_of_def restore_records_shards)

lemma restore_archived_cases:
  assumes "restore_archived_invoice e a br caller i s = Inr s'"
  shows "\<exists>core r. or_else (t_core (st_inst s) i) (t_core (st_pers s) i) = Some core
    \<and> (\<forall>r. st_records s i = Some r \<longrightarrow> ar_status r \<noteq> Purged)
    \<and> view_part s' = view_part (restore_records i core s)
    \<and> st_records s' = (st_records s)(i \<mapsto> r) \<and> ar_status r = Restored"
proof -
  have np: "st_records s i = Some r \<Longrightarrow> ar_status r \<noteq> Purged" for r
    using assms by (auto simp: restore_archived_invoice_def result_simps load_archival_record_def)
  from assms obtain core r st where "or_else (t_core (st_inst s) i) (t_core (st_pers s) i) = Some core"
    and "s' = store_emit (InvoiceRestored i caller (sequence e)) (append_audit_entry e i ''restored'' caller
      (save_archival_stats st (save_archival_record i (r\<lparr>ar_status := Restored,
        ar_restored_at_ledger := Some (sequence e), ar_restored_by := Some caller\<rparr>) (restore_records i core s))))"
    by (simp add: restore_archived_invoice_def result_simps Let_def del: or_else_simps) blast
  then show ?thesis using np by auto
qed

lemma kept_restore:
  assumes k: "kept j v s0 s" and "restore_archived_invoice e a br caller i s = Inr s'"
  shows "kept j v s0 s'"
proof -
  from restore_archived_cases [OF assms(2)]
  obtain core r where core: "or_else (t_core (st_inst s) i) (t_core (st_pers s) i) = Some core"
    and np: "\<And>r. st_records s i = Some r \<Longrightarrow> ar_status r \<noteq> Purged"
    and vp: "view_part s' = view_part (restore_records i core s)"
    and rs: "st_records s' = (st_records s)(i \<mapsto> r)" "ar_status r = Restored"
    by blast
  let ?t = "restore_records i core s"
  have st: "settled j v s" using k by (simp add: kept_def)
  have ex: "\<forall>k. t_shards (st_pers s) (j, k) = None \<or> t_shards (st_inst s) (j, k) = None"
    using st by (simp add: settled_def)
  have part: "invoice_part s' = invoice_part ?t" using vp by (simp add: view_part_def)
  have str: "stored j v s'" using stored_cong [OF part] restore_stored [OF st core] by simp
  have ex': "\<forall>k. t_shards (st_pers s') (j, k) = None \<or> t_shards (st_inst s') (j, k) = None"
    using vp ex by (auto simp: view_part_def restore_records_shards)
  have mk: "j \<noteq> i \<Longrightarrow> is_archived j s' = is_archived j s"
    using part by (simp add: is_archived_def invoice_part_def)
  have copies: "t_core (st_inst s') j = (if j = i then None else t_core (st_inst s) j)"
    "t_ext (st_inst s') j = (if j = i then None else t_ext (st_inst s) j)"
    "t_ext2 (st_inst s') j = (if j = i then None else t_ext2 (st_inst s) j)"
    "t_compact (st_inst s') j = (if j = i then None else t_compact (st_inst s) j)"
    using part by (simp_all add: invoice_part_def)
  have "settled j v s'"
    using str ex' mk copies st rs by (cases "j = i") (auto simp: settled_def split: prod.splits)
  moreover have "shard_of s' j m = shard_of s j m" for m
    using part restore_shard_view [OF ex, of i core m] by (simp add: invoice_part_def)
  moreover have "st_meta s' = st_meta s" using part by (simp add: invoice_part_def)
  moreover have "st_records s' j = Some r" if "st_records s j = Some r" "ar_status r = Purged" for r
    using rs np that by (cases "j = i") auto
  ultimately show ?thesis using k by (auto simp: kept_def)
qed

datatype archive_call =
    ArLoad nat
  | ArSetAfter addr nat
  | ArSetPolicy addr archival_policy
  | ArSweep
  | ArRestore addr nat
  | ArPurge addr "nat list"

fun archive_exec ::
  "ledger_env \<times> admin_store \<times> breaker_store \<Rightarrow> archive_call \<Rightarrow> invoice_store \<Rightarrow> invoice_store split_result" where
  "archive_exec (e, a, br) (ArLoad i) s = bindr (load_invoice e i s) (\<lambda>(_, s'). Inr s')"
| "archive_exec (e, a, br) (ArSetAfter x n) s = set_archive_after_ledgers e a x n s"
| "archive_exec (e, a, br) (ArSetPolicy x p) s = set_archival_policy e a x p s"
| "archive_exec (e, a, br) ArSweep s = bindr (run_archival_sweep e a br s) (\<lambda>(_, s'). Inr s')"
| "archive_exec (e, a, br) (ArRestore x i) s = restore_archived_invoice e a br x i s"
| "archive_exec (e, a, br) (ArPurge x ids) s = bindr (purge_archived_invoices e a x ids s) (\<lambda>(_, s'). Inr s')"

lemma kept_frame:
  assumes "kept i v s0 s" and "view_part s' = view_part s" and "st_records s' = st_records s"
  shows "kept i v s0 s'"
proof -
  have "settled i v s'"
    by (rule settled_frame [OF assms(2)]) (use assms(1,3) in \<open>auto simp: kept_def settled_def\<close>)
  moreover have "shard_of s' = shard_of s" "st_meta s' = st_meta s"
    using assms(2) by (simp_all add: view_part_def invoice_part_def)
  ultimately show ?thesis using assms(1,3) by (simp add: kept_def)
qed

lemma kept_exec:
  assumes k: "kept i v s0 s" and "archive_exec ea c s = Inr s'"
  shows "kept i v s0 s'"
proof -
  obtain e a br where ea: "ea = (e, a, br)" by (cases ea)
  show ?thesis
  proof (cases c)
    case (ArLoad j)
    then show ?thesis using assms(2) kept_maybe_archive [OF k] by (auto simp: ea load_invoice_def result_simps)
  next
    case (ArSetAfter x n)
    then show ?thesis using assms(2)
      by (auto simp: ea set_archive_after_ledgers_def result_simps intro!: kept_frame [OF k])
        (simp add: view_part_def invoice_part_def shard_of_def fun_eq_iff)
  next
    case (ArSetPolicy x p)
    then show ?thesis using assms(2)
      by (auto simp: ea set_archival_policy_def result_simps intro!: kept_frame [OF k])
        (simp add: view_part_def invoice_part_def shard_of_def fun_eq_iff)
  next
    case ArSweep
    then obtain c ys s1 stats ev where "sweep_loop e (load_archival_policy s) (last_id a)
        (ap_max_batch (load_archival_policy s)) (as_sweep_cursor (load_archival_stats s)) [] s = Inr (c, ys, s1)"
      and s': "s' = store_emit ev (save_archival_stats stats s1)"
      using assms(2) by (auto simp: ea run_archival_sweep_def result_simps Let_def)
    then have "kept i v s0 s1" using kept_sweep_loop [OF k] by blast
    then show ?thesis unfolding s' by (rule kept_frame) simp_all
  next
    case (ArRestore x j)
    then show ?thesis using assms(2) kept_restore [OF k] by (simp add: ea)
  next
    case (ArPurge x ids)
    then show ?thesis using assms(2) kept_purge_loop [OF k] by (auto simp: ea purge_archived_invoices_def result_simps)
  qed
qed

text \<open>Whatever calls ran before, a settled invoice stays what it was.\<close>

interpretation archive_run: contract_machine archive_exec s0 "\<lambda>_. True"
  "\<lambda>s. kept i v s0 s0 \<longrightarrow> kept i v s0 s" for i v s0
  by unfold_locales (auto dest: kept_exec)

text \<open>C33: Archival is transparent.  Take any store in which an invoice is settled (each record in
  exactly one tier or equal in both, see \<^const>\<open>settled\<close>; this leaves out invoices that the explicit
  \<open>archive_invoice\<close> moved without a marker) and run any sequence of loads (which
  archive by themselves when due), sweeps, restores, purges and policy changes, with any outcome, at
  any time and by anybody.  A load afterwards still succeeds in finding the invoice and returns every
  field it had, with the same metadata, and with the same payments unless the archival record
  says that the invoice has been purged.\<close>

theorem archive_transparent:
  assumes "settled i v s0" and "fits_i128 (inv_funded v)" and "inv_deadline v \<le> u64_max"
  shows "\<exists>ps. read_invoice i (run archive_exec xs s0) =
      Inr (v\<lparr>inv_payments := ps, inv_metadata_hash := st_meta s0 i\<rparr>)
    \<and> (ps = load_payments s0 i
      \<or> (\<exists>r. st_records (run archive_exec xs s0) i = Some r \<and> ar_status r = Purged))"
proof -
  let ?s = "run archive_exec xs s0"
  have "kept i v s0 s0" using assms(1) by (simp add: kept_def)
  with archive_run.invar_run [of xs i v s0] have k: "kept i v s0 ?s" by (simp add: list_all_iff)
  then have "read_invoice i ?s = Inr (v\<lparr>inv_payments := load_payments ?s i, inv_metadata_hash := st_meta s0 i\<rparr>)"
    using read_stored [OF _ assms(2,3), of i ?s] by (simp add: kept_def settled_def)
  moreover have "load_payments ?s i = load_payments s0 i" if "\<forall>k. shard_of ?s i k = shard_of s0 i k"
    using that by (simp add: load_payments_def)
  ultimately show ?thesis using k by (auto simp: kept_def)
qed

theorem archive_transparent_witness:
  "\<exists>s1. save_stored_invoice (store_demo_env 5) 1 (demo_invoice Released) empty_store = Inr s1
    \<and> (\<forall>xs. \<exists>ps. read_invoice 1 (run archive_exec xs s1) =
      Inr ((demo_invoice Released)\<lparr>inv_payments := ps, inv_metadata_hash := st_meta s1 1\<rparr>))"
proof -
  obtain s1 where s1: "save_stored_invoice (store_demo_env 5) 1 (demo_invoice Released) empty_store = Inr s1"
    "st_inst s1 = empty_tier" "st_records s1 = Map.empty" "stored 1 (demo_invoice Released) s1"
    using demo_save save_stored(1) by blast
  then have "settled 1 (demo_invoice Released) s1"
    by (auto simp: settled_def empty_tier_def split: prod.splits)
  moreover have "fits_i128 (inv_funded (demo_invoice Released))" "inv_deadline (demo_invoice Released) \<le> u64_max"
    by (simp_all add: demo_invoice_def assemble_def demo_core_def rust_int)
  ultimately show ?thesis using s1(1) archive_transparent [of 1 "demo_invoice Released" s1] by blast
qed

text \<open>What one explicit archival does to the records.\<close>

definition archive_count_of :: "nat \<Rightarrow> invoice_store \<Rightarrow> nat" where
  "archive_count_of i s = unwrap_or (map_option ar_archive_count (st_records s i)) 0"

lemma archive_invoice_moves:
  assumes "archive_invoice e i s = Inr s'" and "t_marker (st_inst s) i = None"
  shows "t_ext (st_pers s') i = None" "t_ext2 (st_pers s') i = None" "t_marker (st_inst s') i = None"
    "t_ext (st_inst s') i = Some (unwrap_or (t_ext (st_pers s) i) default_ext)"
    "t_ext2 (st_inst s') i = Some (unwrap_or (t_ext2 (st_pers s) i) default_ext2)"
proof -
  from assms obtain core s1 where rec: "record_archived e i None (move_records i core s) = Inr s1"
    and s': "s' = store_emit (InvoiceArchived i) s1"
    by (auto simp: archive_invoice_def result_simps)
  have "view_part s' = view_part (move_records i core s)" using record_archived_view(1) [OF rec] s' by simp
  then have "invoice_part s' = invoice_part (move_records i core s)" by (simp add: view_part_def)
  then show "t_ext (st_pers s') i = None" "t_ext2 (st_pers s') i = None" "t_marker (st_inst s') i = None"
    "t_ext (st_inst s') i = Some (unwrap_or (t_ext (st_pers s) i) default_ext)"
    "t_ext2 (st_inst s') i = Some (unwrap_or (t_ext2 (st_pers s) i) default_ext2)"
    using assms(2) by (simp_all add: invoice_part_def move_records_def Let_def)
qed

lemma archive_invoice_ok:
  assumes "t_marker (st_inst s) i = None" and core: "or_else (t_core (st_pers s) i) (t_core (st_inst s) i) = Some core"
    and "ic_status core = Released \<or> ic_status core = Refunded" and "archive_count_of i s < u32_max"
  shows "\<exists>s'. archive_invoice e i s = Inr s' \<and> or_else (t_core (st_pers s') i) (t_core (st_inst s') i) = Some core
    \<and> archive_count_of i s' = Suc (archive_count_of i s)"
proof -
  have recs: "st_records (move_records i core s) = st_records s" by (simp add: move_records_def Let_def)
  obtain s1 where s1: "record_archived e i None (move_records i core s) = Inr s1"
    "st_records s1 i = Some r \<Longrightarrow> ar_archive_count r = Suc (archive_count_of i s)" "st_records s1 i \<noteq> None" for r
    using assms(4) recs
    by (auto simp: record_archived_def load_archival_record_def checked_nat_def archive_count_of_def Let_def)
  have "view_part (store_emit (InvoiceArchived i) s1) = view_part (move_records i core s)"
    using record_archived_view(1) [OF s1(1)] by simp
  then have "invoice_part (store_emit (InvoiceArchived i) s1) = invoice_part (move_records i core s)"
    by (simp add: view_part_def)
  then have "or_else (t_core (st_pers (store_emit (InvoiceArchived i) s1)) i)
      (t_core (st_inst (store_emit (InvoiceArchived i) s1)) i) = Some core"
    by (simp add: invoice_part_def move_records_def Let_def)
  moreover have "archive_invoice e i s = Inr (store_emit (InvoiceArchived i) s1)"
    using assms(1,3) core s1(1) by (simp add: archive_invoice_def)
  moreover have "archive_count_of i (store_emit (InvoiceArchived i) s1) = Suc (archive_count_of i s)"
    using s1(2,3) by (auto simp: archive_count_of_def)
  ultimately show ?thesis by blast
qed

lemma archive_invoice_core:
  assumes "archive_invoice e i s = Inr s'" and "t_marker (st_inst s) i = None"
  shows "\<exists>core. or_else (t_core (st_pers s') i) (t_core (st_inst s') i) = Some core
    \<and> (ic_status core = Released \<or> ic_status core = Refunded)"
    and "archive_count_of i s' = Suc (archive_count_of i s)"
proof -
  from assms obtain core where core: "or_else (t_core (st_pers s) i) (t_core (st_inst s) i) = Some core"
    and st: "ic_status core = Released \<or> ic_status core = Refunded"
    and rec: "is_ok (record_archived e i None (move_records i core s))"
    by (auto simp: archive_invoice_def result_simps)
  have "st_records (move_records i core s) = st_records s" by (simp add: move_records_def Let_def)
  then have "archive_count_of i s < u32_max"
    using rec
    by (auto simp: record_archived_def load_archival_record_def checked_nat_def archive_count_of_def is_ok_iff
        result_simps Let_def split: if_splits)
  from archive_invoice_ok [OF assms(2) core st this, of e] assms(1) st
  show "\<exists>core. or_else (t_core (st_pers s') i) (t_core (st_inst s') i) = Some core
      \<and> (ic_status core = Released \<or> ic_status core = Refunded)"
    "archive_count_of i s' = Suc (archive_count_of i s)" by auto
qed


text \<open>C35: a second \<open>archive_invoice\<close> on the same invoice loses data.  The call sets no archive marker and
  looks for the extension records in the persistent tier only, so after any successful first call a
  second one, by anybody at any time, succeeds as well (unless the \<open>u32\<close> archive count is used up) and
  replaces both archived extension records by the defaults: co-signers, tax, penalty and every
  other extension setting are lost.\<close>

theorem archive_twice_loses_ext:
  assumes "t_marker (st_inst s) i = None" and "archive_invoice e i s = Inr s1"
    and "Suc (archive_count_of i s) < u32_max"
  shows "t_ext (st_inst s1) i = Some (unwrap_or (t_ext (st_pers s) i) default_ext)
    \<and> t_ext2 (st_inst s1) i = Some (unwrap_or (t_ext2 (st_pers s) i) default_ext2)
    \<and> (\<exists>s2. archive_invoice e' i s1 = Inr s2
        \<and> or_else (t_ext (st_pers s2) i) (t_ext (st_inst s2) i) = Some default_ext
        \<and> or_else (t_ext2 (st_pers s2) i) (t_ext2 (st_inst s2) i) = Some default_ext2)"
proof -
  note first = archive_invoice_moves [OF assms(2,1)]
  obtain core where core: "or_else (t_core (st_pers s1) i) (t_core (st_inst s1) i) = Some core"
    "ic_status core = Released \<or> ic_status core = Refunded"
    using archive_invoice_core(1) [OF assms(2,1)] by blast
  have "archive_count_of i s1 < u32_max" using archive_invoice_core(2) [OF assms(2,1)] assms(3) by simp
  then obtain s2 where s2: "archive_invoice e' i s1 = Inr s2"
    using archive_invoice_ok [OF first(3) core] by blast
  with archive_invoice_moves [OF s2 first(3)] first show ?thesis by simp
qed

definition taxed_store :: invoice_store where
  "taxed_store = empty_store\<lparr>st_pers := put_invoice 2 (demo_core Released) (default_ext\<lparr>ie_tax_bps := 500\<rparr>)
    default_ext2 (to_compact (demo_invoice Released)) empty_tier\<rparr>"

theorem archive_twice_loses_ext_witness:
  "\<exists>s1 s2. archive_invoice (store_demo_env 5) 2 taxed_store = Inr s1 \<and> archive_invoice (store_demo_env 6) 2 s1 = Inr s2
    \<and> t_ext (st_inst s1) 2 = Some (default_ext\<lparr>ie_tax_bps := 500\<rparr>)
    \<and> or_else (t_ext (st_pers s2) 2) (t_ext (st_inst s2) 2) = Some default_ext"
proof -
  have start: "t_marker (st_inst taxed_store) 2 = None" "t_ext (st_pers taxed_store) 2 = Some (default_ext\<lparr>ie_tax_bps := 500\<rparr>)"
    "or_else (t_core (st_pers taxed_store) 2) (t_core (st_inst taxed_store) 2) = Some (demo_core Released)"
    "archive_count_of 2 taxed_store = 0" "ic_status (demo_core Released) = Released"
    by (simp_all add: taxed_store_def empty_store_def empty_tier_def put_invoice_def archive_count_of_def demo_core_def)
  then obtain s1 where s1: "archive_invoice (store_demo_env 5) 2 taxed_store = Inr s1"
    using archive_invoice_ok [of taxed_store 2 "demo_core Released" "store_demo_env 5"] by (auto simp: rust_int)
  have "Suc (archive_count_of 2 taxed_store) < u32_max" by (simp add: start(4) rust_int)
  from archive_twice_loses_ext [OF start(1) s1 this, of "store_demo_env 6"] s1 start(2)
  show ?thesis by auto
qed

end
