(* ===== verification/Insurance_Pool.thy ===== *)
theory Insurance_Pool
  imports Split_Error Token_Accounts
begin

text \<open>
  Model of the recipient insurance pool of the split contract (\<open>contracts/split/src/insurance_pool.rs\<close>):
  members fund a pool per token, recipients file claims, members vote on them with the weight of
  their contribution, and anybody settles a decided claim. The storage is one record with a map
  per key; transfers and events are appended to \<open>ip_log\<close>. Afterwards: the pool balance is backed by
  tokens and accounted for, and only a majority of the contributed weight moves money out.
\<close>

section \<open>Data\<close>

definition CLAIM_VOTING_LEDGERS :: nat where "CLAIM_VOTING_LEDGERS = 120960"

datatype claim_status = ClaimOpen | ClaimPaid | ClaimRejected

record insurance_claim =
  cl_id :: nat
  cl_token :: addr
  cl_claimant :: addr
  cl_amount :: int
  cl_reason :: string
  cl_invoice_id :: nat
  cl_approve_weight :: int
  cl_reject_weight :: int
  cl_voting_ends_ledger :: nat
  cl_status :: claim_status

datatype insurance_event =
    IpFunded addr addr int
  | IpClaimed nat addr addr int nat
  | IpVoted nat addr bool int
  | IpPaid nat addr int
  | IpRejected nat addr

record insurance_store =
  ip_balance :: "addr \<rightharpoonup> int"
  ip_contribution :: "addr \<Rightarrow> addr \<rightharpoonup> int"
  ip_total :: "addr \<rightharpoonup> int"
  ip_next_claim :: "nat option"
  ip_claims :: "nat \<rightharpoonup> insurance_claim"
  ip_votes :: "nat \<Rightarrow> addr \<rightharpoonup> bool"
  ip_log :: "insurance_event action list"

definition empty_pool :: insurance_store where
  "empty_pool = \<lparr>ip_balance = Map.empty, ip_contribution = (\<lambda>_. Map.empty), ip_total = Map.empty,
    ip_next_claim = None, ip_claims = Map.empty, ip_votes = (\<lambda>_. Map.empty), ip_log = []\<rparr>"

definition get_i128 :: "int option \<Rightarrow> int" where
  "get_i128 x = (case x of None \<Rightarrow> 0 | Some v \<Rightarrow> v)"

definition load_claim :: "insurance_store \<Rightarrow> nat \<Rightarrow> insurance_claim split_result" where
  "load_claim s i = ok_or (ip_claims s i) (Trap ''claim not found'')"

definition save_claim :: "nat \<Rightarrow> insurance_claim \<Rightarrow> insurance_store \<Rightarrow> insurance_store" where
  "save_claim i c s = s\<lparr>ip_claims := (ip_claims s)(i \<mapsto> c)\<rparr>"

definition ilog :: "insurance_event action \<Rightarrow> insurance_store \<Rightarrow> insurance_store" where
  "ilog x s = s\<lparr>ip_log := ip_log s @ [x]\<rparr>"


section \<open>Entry points\<close>

definition fund_insurance_pool ::
  "'x ledger_env_scheme \<Rightarrow> addr \<Rightarrow> addr \<Rightarrow> int \<Rightarrow> insurance_store \<Rightarrow> insurance_store split_result" where
  "fund_insurance_pool e member token amount s =
    bindr (require_auth e member) (\<lambda>_.
    bindr (ensure (0 < amount) (Trap ''amount must be positive'')) (\<lambda>_.
    let s1 = ilog (Sent token member (self_addr e) amount) s in
    bindr (arith (get_i128 (ip_balance s1 token) + amount)) (\<lambda>b.
    let s2 = s1\<lparr>ip_balance := (ip_balance s1)(token \<mapsto> b)\<rparr> in
    bindr (arith (get_i128 (ip_contribution s2 token member) + amount)) (\<lambda>c.
    let s3 = s2\<lparr>ip_contribution := (ip_contribution s2)(token := (ip_contribution s2 token)(member \<mapsto> c))\<rparr> in
    bindr (arith (get_i128 (ip_total s3 token) + amount)) (\<lambda>t.
    Inr (ilog (Event (IpFunded member token amount)) (s3\<lparr>ip_total := (ip_total s3)(token \<mapsto> t)\<rparr>)))))))"

definition file_insurance_claim ::
  "'x ledger_env_scheme \<Rightarrow> addr \<Rightarrow> addr \<Rightarrow> int \<Rightarrow> nat \<Rightarrow> string \<Rightarrow> insurance_store
    \<Rightarrow> (nat \<times> insurance_store) split_result" where
  "file_insurance_claim e claimant token amount invoice_id reason s =
    bindr (require_auth e claimant) (\<lambda>_.
    bindr (ensure (0 < amount) (Trap ''amount must be positive'')) (\<lambda>_.
    bindr (ensure (amount \<le> get_i128 (ip_balance s token)) (Trap ''claim exceeds pool balance'')) (\<lambda>_.
    let i = (case ip_next_claim s of None \<Rightarrow> 1 | Some n \<Rightarrow> n) in
    bindr (ok_or (checked_nat u64_max (i + 1)) (Trap ''arithmetic overflow'')) (\<lambda>n.
    bindr (ok_or (checked_nat u32_max (sequence e + CLAIM_VOTING_LEDGERS)) (Trap ''arithmetic overflow'')) (\<lambda>ends.
    let c = \<lparr>cl_id = i, cl_token = token, cl_claimant = claimant, cl_amount = amount, cl_reason = reason,
          cl_invoice_id = invoice_id, cl_approve_weight = 0, cl_reject_weight = 0,
          cl_voting_ends_ledger = ends, cl_status = ClaimOpen\<rparr>
    in Inr (i, ilog (Event (IpClaimed i claimant token amount invoice_id))
         (save_claim i c (s\<lparr>ip_next_claim := Some n\<rparr>))))))))"

definition vote_insurance_claim ::
  "'x ledger_env_scheme \<Rightarrow> addr \<Rightarrow> nat \<Rightarrow> bool \<Rightarrow> insurance_store \<Rightarrow> insurance_store split_result" where
  "vote_insurance_claim e voter i approve s =
    bindr (require_auth e voter) (\<lambda>_.
    bindr (load_claim s i) (\<lambda>c.
    bindr (ensure (cl_status c = ClaimOpen) (Trap ''claim not open'')) (\<lambda>_.
    bindr (ensure (sequence e \<le> cl_voting_ends_ledger c) (Trap ''voting period ended'')) (\<lambda>_.
    let weight = get_i128 (ip_contribution s (cl_token c) voter) in
    bindr (ensure (0 < weight) (Trap ''not a pool member'')) (\<lambda>_.
    bindr (ensure (ip_votes s i voter = None) (Trap ''already voted'')) (\<lambda>_.
    let s1 = s\<lparr>ip_votes := (ip_votes s)(i := (ip_votes s i)(voter \<mapsto> approve))\<rparr> in
    bindr (if approve
           then bindr (arith (cl_approve_weight c + weight)) (\<lambda>w. Inr (c\<lparr>cl_approve_weight := w\<rparr>))
           else bindr (arith (cl_reject_weight c + weight)) (\<lambda>w. Inr (c\<lparr>cl_reject_weight := w\<rparr>))) (\<lambda>c'.
    Inr (ilog (Event (IpVoted i voter approve weight)) (save_claim i c' s1)))))))))"

definition pay_claim ::
  "'x ledger_env_scheme \<Rightarrow> nat \<Rightarrow> insurance_claim \<Rightarrow> insurance_store \<Rightarrow> (insurance_claim \<times> insurance_store) split_result" where
  "pay_claim e i c s =
    (let balance = get_i128 (ip_balance s (cl_token c)) in
     bindr (ensure (cl_amount c \<le> balance) (Trap ''claim exceeds pool balance'')) (\<lambda>_.
     bindr (arith (balance - cl_amount c)) (\<lambda>b.
     let s1 = s\<lparr>ip_balance := (ip_balance s)(cl_token c \<mapsto> b)\<rparr>;
         s2 = ilog (Sent (cl_token c) (self_addr e) (cl_claimant c) (cl_amount c)) s1
     in Inr (c\<lparr>cl_status := ClaimPaid\<rparr>, ilog (Event (IpPaid i (cl_claimant c) (cl_amount c))) s2))))"

definition execute_insurance_claim ::
  "'x ledger_env_scheme \<Rightarrow> nat \<Rightarrow> insurance_store \<Rightarrow> insurance_store split_result" where
  "execute_insurance_claim e i s =
    bindr (load_claim s i) (\<lambda>c.
    bindr (ensure (cl_status c = ClaimOpen) (Trap ''claim not open'')) (\<lambda>_.
    let total = get_i128 (ip_total s (cl_token c)) in
    bindr (arith (cl_approve_weight c * 2)) (\<lambda>approve2.
    bindr (if total < approve2 then pay_claim e i c s
           else bindr (arith (cl_reject_weight c * 2)) (\<lambda>reject2.
             if total \<le> reject2 \<or> cl_voting_ends_ledger c < sequence e
             then Inr (c\<lparr>cl_status := ClaimRejected\<rparr>, ilog (Event (IpRejected i (cl_claimant c))) s)
             else Inl (Trap ''claim undecided''))) (\<lambda>(c', s1).
    Inr (save_claim i c' s1)))))"

datatype insurance_call =
    IpFund addr addr int
  | IpFile addr addr int nat string
  | IpVote addr nat bool
  | IpExecute nat

fun insurance_exec :: "ledger_env \<Rightarrow> insurance_call \<Rightarrow> insurance_store \<Rightarrow> insurance_store split_result" where
  "insurance_exec e (IpFund m t n) s = fund_insurance_pool e m t n s"
| "insurance_exec e (IpFile a t n k r) s = bindr (file_insurance_claim e a t n k r s) (\<lambda>(_, s'). Inr s')"
| "insurance_exec e (IpVote v i b) s = vote_insurance_claim e v i b s"
| "insurance_exec e (IpExecute i) s = execute_insurance_claim e i s"


section \<open>Accounting\<close>

definition ip_next :: "insurance_store \<Rightarrow> nat" where
  "ip_next s = (case ip_next_claim s of None \<Rightarrow> 1 | Some n \<Rightarrow> n)"

definition paid_out :: "addr \<Rightarrow> insurance_claim option \<Rightarrow> int" where
  "paid_out t x = (case x of None \<Rightarrow> 0
    | Some c \<Rightarrow> if cl_token c = t \<and> cl_status c = ClaimPaid then cl_amount c else 0)"

definition claims_paid :: "addr \<Rightarrow> insurance_store \<Rightarrow> int" where
  "claims_paid t s = (\<Sum>i<ip_next s. paid_out t (ip_claims s i))"

text \<open>The contributions of those who voted \<open>b\<close> on a claim.\<close>

definition camp :: "insurance_store \<Rightarrow> addr \<Rightarrow> nat \<Rightarrow> bool \<Rightarrow> int" where
  "camp s t i b = (\<Sum>v | ip_votes s i v = Some b. get_i128 (ip_contribution s t v))"

definition claim_ok :: "insurance_store \<Rightarrow> addr \<Rightarrow> nat \<Rightarrow> insurance_claim \<Rightarrow> bool" where
  "claim_ok s a i c \<longleftrightarrow> i < ip_next s \<and> cl_id c = i \<and> 0 < cl_amount c \<and> cl_claimant c \<noteq> a
    \<and> 0 \<le> cl_approve_weight c \<and> cl_approve_weight c \<le> camp s (cl_token c) i True
    \<and> 0 \<le> cl_reject_weight c \<and> cl_reject_weight c \<le> camp s (cl_token c) i False
    \<and> (\<forall>v. ip_votes s i v \<noteq> None \<longrightarrow> ip_contribution s (cl_token c) v \<noteq> None)"

definition pool_ok :: "addr \<Rightarrow> insurance_store \<Rightarrow> bool" where
  "pool_ok a s \<longleftrightarrow>
    (\<forall>i c. ip_claims s i = Some c \<longrightarrow> claim_ok s a i c)
    \<and> (\<forall>i. ip_claims s i = None \<longrightarrow> ip_votes s i = Map.empty)
    \<and> (\<forall>t. finite (dom (ip_contribution s t)) \<and> (\<forall>m v. ip_contribution s t m = Some v \<longrightarrow> 0 < v)
        \<and> get_i128 (ip_total s t) = deposit_sum (ip_contribution s t)
        \<and> get_i128 (ip_balance s t) = inflow a t (ip_log s)
        \<and> get_i128 (ip_balance s t) + claims_paid t s = get_i128 (ip_total s t)
        \<and> 0 \<le> get_i128 (ip_balance s t))"


lemma get_i128_simps [simp]: "get_i128 None = 0" "get_i128 (Some x) = x"
  by (simp_all add: get_i128_def)

lemma pool_okD:
  assumes "pool_ok a s"
  shows "ip_claims s i = Some c \<Longrightarrow> claim_ok s a i c" "ip_claims s i = None \<Longrightarrow> ip_votes s i = Map.empty"
    "finite (dom (ip_contribution s t))" "ip_contribution s t m = Some v \<Longrightarrow> 0 < v"
    "get_i128 (ip_total s t) = deposit_sum (ip_contribution s t)"
    "get_i128 (ip_balance s t) = inflow a t (ip_log s)"
    "get_i128 (ip_balance s t) + claims_paid t s = get_i128 (ip_total s t)"
    "0 \<le> get_i128 (ip_balance s t)"
  using assms unfolding pool_ok_def by blast+

lemma pool_ok_empty: "pool_ok a empty_pool"
  by (simp add: pool_ok_def empty_pool_def claims_paid_def ip_next_def paid_out_def)

lemma contribution_nonneg: "pool_ok a s \<Longrightarrow> 0 \<le> get_i128 (ip_contribution s t m)"
  using pool_okD(4) [of a s t m] by (cases "ip_contribution s t m") (auto intro: less_imp_le)

lemma voters_finite:
  assumes "pool_ok a s" and "ip_claims s i = Some c"
  shows "finite {v. ip_votes s i v = Some b}"
proof -
  have "{v. ip_votes s i v = Some b} \<subseteq> dom (ip_contribution s (cl_token c))"
    using pool_okD(1) [OF assms] by (auto simp: claim_ok_def)
  then show ?thesis using pool_okD(3) [OF assms(1)] by (rule finite_subset)
qed

lemma fund_pool_ok:
  assumes ok: "pool_ok (self_addr e) s" and na: "\<not> auth e (self_addr e)"
    and "fund_insurance_pool e m t n s = Inr s'"
  shows "pool_ok (self_addr e) s'"
proof -
  note d = pool_okD [OF ok]
  let ?D = "ip_contribution s t"
  have n: "0 < n" "m \<noteq> self_addr e" and s': "s' = s\<lparr>ip_balance := (ip_balance s)(t \<mapsto> get_i128 (ip_balance s t) + n),
      ip_contribution := (ip_contribution s)(t := ?D(m \<mapsto> get_i128 (?D m) + n)),
      ip_total := (ip_total s)(t \<mapsto> get_i128 (ip_total s t) + n),
      ip_log := ip_log s @ [Sent t m (self_addr e) n, Event (IpFunded m t n)]\<rparr>"
    using assms(3) na by (auto simp: fund_insurance_pool_def result_simps Let_def ilog_def)
  have next_eq: "ip_next s' = ip_next s" by (simp add: s' ip_next_def)
  have camp: "camp s u i b \<le> camp s' u i b" for u i b
    using n contribution_nonneg [OF ok] by (auto simp: camp_def s' intro!: sum_mono)
  have paid: "claims_paid u s' = claims_paid u s" for u by (simp add: claims_paid_def next_eq) (simp add: s')
  have claims: "claim_ok s' (self_addr e) i c" if "ip_claims s' i = Some c" for i c
    using d(1) [of i c] that camp [of "cl_token c" i True] camp [of "cl_token c" i False]
    by (auto simp: claim_ok_def next_eq) (auto simp: s')
  have total: "deposit_sum (?D(m \<mapsto> get_i128 (?D m) + n)) = deposit_sum ?D + n"
    using deposit_sum_upd [OF d(3), of t m "get_i128 (?D m) + n"] by (simp add: get_i128_def split: option.splits)
  show ?thesis unfolding pool_ok_def
    using claims d paid total n contribution_nonneg [OF ok, of t m] by (auto simp: s' add_nonneg_pos)
qed


lemma file_claim_ok:
  assumes ok: "pool_ok (self_addr e) s" and na: "\<not> auth e (self_addr e)"
    and "file_insurance_claim e a t n k r s = Inr (i, s')"
  shows "pool_ok (self_addr e) s'"
proof -
  note d = pool_okD [OF ok]
  define c where "c = \<lparr>cl_id = i, cl_token = t, cl_claimant = a, cl_amount = n, cl_reason = r, cl_invoice_id = k,
      cl_approve_weight = 0, cl_reject_weight = 0, cl_voting_ends_ledger = sequence e + CLAIM_VOTING_LEDGERS,
      cl_status = ClaimOpen\<rparr>"
  have i: "i = ip_next s" and pre: "auth e a" "0 < n"
    and s': "s' = ilog (Event (IpClaimed i a t n k)) (save_claim i c (s\<lparr>ip_next_claim := Some (i + 1)\<rparr>))"
    using assms(3)
    by (auto simp: file_insurance_claim_def result_simps Let_def checked_nat_def c_def simp flip: ip_next_def split: if_splits)
  have c: "cl_id c = i" "0 < cl_amount c" "cl_claimant c \<noteq> self_addr e" "cl_status c = ClaimOpen"
    "cl_approve_weight c = 0" "cl_reject_weight c = 0"
    using pre na by (auto simp: c_def)
  have nxt: "ip_next s' = i + 1" by (simp add: s' ip_next_def ilog_def save_claim_def)
  have new: "ip_claims s i = None" using d(1) [of i] i by (cases "ip_claims s i") (auto simp: claim_ok_def)
  have same: "ip_balance s' = ip_balance s" "ip_contribution s' = ip_contribution s" "ip_total s' = ip_total s"
    "ip_votes s' = ip_votes s" "inflow x y (ip_log s') = inflow x y (ip_log s)" "ip_claims s' = (ip_claims s)(i \<mapsto> c)" for x y
    by (simp_all add: s' ilog_def save_claim_def)
  have camp: "camp s' u j b = camp s u j b" for u j b by (simp add: camp_def same)
  have "claims_paid u s' = claims_paid u s" for u
  proof -
    have "(\<Sum>j<i. paid_out u (ip_claims s' j)) = (\<Sum>j<i. paid_out u (ip_claims s j))"
      by (rule sum.cong) (auto simp: same)
    then show ?thesis using i c by (simp add: claims_paid_def nxt same paid_out_def)
  qed
  moreover have "claim_ok s' (self_addr e) j r" if "ip_claims s' j = Some r" for j r
    using that d(1) [of j r] d(2) [OF new] c i
    by (cases "j = i") (auto simp: claim_ok_def camp same nxt, auto simp: camp_def)
  ultimately show ?thesis unfolding pool_ok_def using d by (auto simp: same)
qed

definition tally :: "insurance_claim \<Rightarrow> bool \<Rightarrow> int \<Rightarrow> insurance_claim" where
  "tally c b w = (if b then c\<lparr>cl_approve_weight := cl_approve_weight c + w\<rparr>
    else c\<lparr>cl_reject_weight := cl_reject_weight c + w\<rparr>)"

lemma tally_sel [simp]:
  "cl_token (tally c b w) = cl_token c" "cl_status (tally c b w) = cl_status c" "cl_id (tally c b w) = cl_id c"
  "cl_amount (tally c b w) = cl_amount c" "cl_claimant (tally c b w) = cl_claimant c"
  "cl_approve_weight (tally c b w) = cl_approve_weight c + (if b then w else 0)"
  "cl_reject_weight (tally c b w) = cl_reject_weight c + (if b then 0 else w)"
  by (simp_all add: tally_def)

lemma vote_cases:
  assumes "vote_insurance_claim e v i b s = Inr s'"
  shows "\<exists>c w. ip_claims s i = Some c \<and> cl_status c = ClaimOpen \<and> ip_votes s i v = None
    \<and> ip_contribution s (cl_token c) v = Some w \<and> 0 < w
    \<and> s' = s\<lparr>ip_votes := (ip_votes s)(i := (ip_votes s i)(v \<mapsto> b)), ip_claims := (ip_claims s)(i \<mapsto> tally c b w),
        ip_log := ip_log s @ [Event (IpVoted i v b w)]\<rparr>"
proof -
  from assms obtain c where c: "ip_claims s i = Some c" "cl_status c = ClaimOpen" "ip_votes s i v = None"
    "0 < get_i128 (ip_contribution s (cl_token c) v)"
    by (auto simp: vote_insurance_claim_def load_claim_def result_simps Let_def)
  then obtain w where "ip_contribution s (cl_token c) v = Some w" "0 < w"
    by (cases "ip_contribution s (cl_token c) v") auto
  with c assms show ?thesis
    by (auto simp: vote_insurance_claim_def load_claim_def result_simps Let_def ilog_def save_claim_def tally_def
        split: if_splits)
qed

lemma camp_vote:
  assumes ok: "pool_ok a s" and "ip_claims s i = Some c" and "ip_votes s i v = None"
    and "ip_votes s' = (ip_votes s)(i := (ip_votes s i)(v \<mapsto> b))" and "ip_contribution s' = ip_contribution s"
  shows "camp s' t j b' = camp s t j b' + (if j = i \<and> b' = b then get_i128 (ip_contribution s t v) else 0)"
proof (cases "j = i \<and> b' = b")
  case True
  then have "{w. ip_votes s' j w = Some b'} = insert v {w. ip_votes s i w = Some b}" by (auto simp: assms(4))
  then show ?thesis using True assms(3,5) voters_finite [OF ok assms(2)] by (simp add: camp_def)
next
  case False
  then have "{w. ip_votes s' j w = Some b'} = {w. ip_votes s j w = Some b'}" using assms(3) by (auto simp: assms(4))
  then show ?thesis using False assms(5) by (auto simp: camp_def)
qed

lemma vote_ok:
  assumes ok: "pool_ok a s" and "vote_insurance_claim e v i b s = Inr s'"
  shows "pool_ok a s'"
proof -
  obtain c w where c: "ip_claims s i = Some c" "cl_status c = ClaimOpen" "ip_votes s i v = None"
      "ip_contribution s (cl_token c) v = Some w" "0 < w"
    and s': "s' = s\<lparr>ip_votes := (ip_votes s)(i := (ip_votes s i)(v \<mapsto> b)), ip_claims := (ip_claims s)(i \<mapsto> tally c b w),
      ip_log := ip_log s @ [Event (IpVoted i v b w)]\<rparr>"
    using vote_cases [OF assms(2)] by blast
  note d = pool_okD [OF ok]
  have nxt: "ip_next s' = ip_next s" by (simp add: s' ip_next_def)
  have camp: "camp s' t j b' = camp s t j b' + (if j = i \<and> b' = b then get_i128 (ip_contribution s t v) else 0)" for t j b'
    by (rule camp_vote [OF ok c(1,3)]) (simp_all add: s')
  have "claims_paid t s' = claims_paid t s" for t
    unfolding claims_paid_def nxt by (rule sum.cong) (auto simp: s' c paid_out_def)
  moreover have "claim_ok s' a j r" if "ip_claims s' j = Some r" for j r
  proof (cases "j = i")
    case True
    then have r: "r = tally c b w" using that by (simp add: s')
    have "\<forall>x. ip_votes s' i x \<noteq> None \<longrightarrow> ip_contribution s' (cl_token c) x \<noteq> None"
      using d(1) [OF c(1)] c(4) by (simp add: s' claim_ok_def)
    then show ?thesis using True d(1) [OF c(1)] c(4,5) by (cases b) (simp_all add: r claim_ok_def nxt camp)
  next
    case False
    then have "ip_claims s j = Some r" using that by (simp add: s')
    then have "claim_ok s a j r" by (rule d(1))
    moreover have "ip_votes s' j = ip_votes s j" "ip_contribution s' = ip_contribution s" using False by (simp_all add: s')
    ultimately show ?thesis using False by (simp add: claim_ok_def nxt camp)
  qed
  ultimately show ?thesis unfolding pool_ok_def using d by (auto simp: s')
qed

lemma execute_cases:
  assumes "execute_insurance_claim e i s = Inr s'"
  shows "\<exists>c. ip_claims s i = Some c \<and> cl_status c = ClaimOpen
    \<and> (get_i128 (ip_total s (cl_token c)) < 2 * cl_approve_weight c \<and> cl_amount c \<le> get_i128 (ip_balance s (cl_token c))
        \<and> s' = s\<lparr>ip_balance := (ip_balance s)(cl_token c \<mapsto> get_i128 (ip_balance s (cl_token c)) - cl_amount c),
            ip_claims := (ip_claims s)(i \<mapsto> c\<lparr>cl_status := ClaimPaid\<rparr>),
            ip_log := ip_log s @ [Sent (cl_token c) (self_addr e) (cl_claimant c) (cl_amount c),
              Event (IpPaid i (cl_claimant c) (cl_amount c))]\<rparr>
      \<or> 2 * cl_approve_weight c \<le> get_i128 (ip_total s (cl_token c))
        \<and> (get_i128 (ip_total s (cl_token c)) \<le> 2 * cl_reject_weight c \<or> cl_voting_ends_ledger c < sequence e)
        \<and> s' = s\<lparr>ip_claims := (ip_claims s)(i \<mapsto> c\<lparr>cl_status := ClaimRejected\<rparr>),
            ip_log := ip_log s @ [Event (IpRejected i (cl_claimant c))]\<rparr>)"
proof -
  from assms obtain c where "ip_claims s i = Some c" "cl_status c = ClaimOpen"
    by (auto simp: execute_insurance_claim_def load_claim_def result_simps Let_def)
  with assms show ?thesis
    by (auto simp: execute_insurance_claim_def load_claim_def pay_claim_def result_simps Let_def ilog_def save_claim_def
        mult.commute split: if_splits)
qed

lemma claims_paid_upd:
  assumes "ip_claims s i = Some c" and "i < ip_next s" and "ip_claims s' = (ip_claims s)(i \<mapsto> c')"
    and "ip_next_claim s' = ip_next_claim s"
  shows "claims_paid t s' = claims_paid t s - paid_out t (Some c) + paid_out t (Some c')"
proof -
  have nxt: "ip_next s' = ip_next s" by (simp add: ip_next_def assms(4))
  show ?thesis unfolding claims_paid_def nxt
    using sum_slot_change [OF assms(2), of "\<lambda>j. paid_out t (ip_claims s' j)" "\<lambda>j. paid_out t (ip_claims s j)"] assms(1)
    by (simp add: assms(3))
qed

lemma execute_ok:
  assumes ok: "pool_ok (self_addr e) s" and "execute_insurance_claim e i s = Inr s'"
  shows "pool_ok (self_addr e) s'"
proof -
  note d = pool_okD [OF ok]
  from execute_cases [OF assms(2)] obtain c c' where c: "ip_claims s i = Some c" "cl_status c = ClaimOpen"
    and s': "ip_claims s' = (ip_claims s)(i \<mapsto> c')" "ip_votes s' = ip_votes s" "ip_contribution s' = ip_contribution s"
      "ip_total s' = ip_total s" "ip_next_claim s' = ip_next_claim s"
    and c': "c' = c\<lparr>cl_status := ClaimRejected\<rparr> \<and> ip_balance s' = ip_balance s
        \<and> ip_log s' = ip_log s @ [Event (IpRejected i (cl_claimant c))]
      \<or> c' = c\<lparr>cl_status := ClaimPaid\<rparr> \<and> cl_amount c \<le> get_i128 (ip_balance s (cl_token c))
        \<and> ip_balance s' = (ip_balance s)(cl_token c \<mapsto> get_i128 (ip_balance s (cl_token c)) - cl_amount c)
        \<and> ip_log s' = ip_log s @ [Sent (cl_token c) (self_addr e) (cl_claimant c) (cl_amount c),
              Event (IpPaid i (cl_claimant c) (cl_amount c))]"
    by auto
  note ck = d(1) [OF c(1)]
  have lt: "i < ip_next s" using ck by (simp add: claim_ok_def)
  have nxt: "ip_next s' = ip_next s" by (simp add: ip_next_def s')
  have camp: "camp s' = camp s" by (simp add: camp_def fun_eq_iff s')
  have paid: "claims_paid t s' = claims_paid t s + (if t = cl_token c \<and> cl_status c' = ClaimPaid then cl_amount c else 0)" for t
    using claims_paid_upd [OF c(1) lt s'(1,5), of t] c(2) c' by (auto simp: paid_out_def)
  have claims: "claim_ok s' (self_addr e) j r" if "ip_claims s' j = Some r" for j r
    using that ck d(1) [of j r] c' by (cases "j = i") (auto simp: s' claim_ok_def nxt camp)
  have money: "get_i128 (ip_balance s' t) = inflow (self_addr e) t (ip_log s')
      \<and> get_i128 (ip_balance s' t) + claims_paid t s' = get_i128 (ip_total s' t) \<and> 0 \<le> get_i128 (ip_balance s' t)" for t
    using c' d(6-8) [of t] ck by (auto simp: paid claim_ok_def s')
  have votes: "ip_votes s' j = Map.empty" if "ip_claims s' j = None" for j
    using that d(2) [of j] by (simp add: s' split: if_splits)
  have con: "finite (dom (ip_contribution s' t))" "ip_contribution s' t m = Some v \<Longrightarrow> 0 < v"
    "get_i128 (ip_total s' t) = deposit_sum (ip_contribution s' t)" for t m v
    using d(3) [of t] d(4) [of t m v] d(5) [of t] by (simp_all add: s')
  show ?thesis unfolding pool_ok_def using claims money votes con by blast
qed

definition pool_env_ok :: "addr \<Rightarrow> 'x ledger_env_scheme \<Rightarrow> bool" where
  "pool_env_ok a e \<longleftrightarrow> self_addr e = a \<and> \<not> auth e a"

lemma insurance_exec_ok:
  assumes "pool_env_ok a e" and "pool_ok a s" and "insurance_exec e c s = Inr s'"
  shows "pool_ok a s'"
proof -
  have a: "a = self_addr e" "\<not> auth e (self_addr e)" using assms(1) by (simp_all add: pool_env_ok_def)
  show ?thesis using assms(2,3) a(2) unfolding a(1)
    by (cases c) (auto simp: result_simps intro: fund_pool_ok file_claim_ok vote_ok execute_ok)
qed

interpretation insurance: contract_machine insurance_exec empty_pool "pool_env_ok a" "pool_ok a" for a
  by unfold_locales (auto intro: pool_ok_empty insurance_exec_ok)



text \<open>Closed claims stay as they are, whoever calls what: claim ids are never given out twice.\<close>

definition claim_ids_ok :: "insurance_store \<Rightarrow> bool" where
  "claim_ids_ok s \<longleftrightarrow> (\<forall>i c. ip_claims s i = Some c \<longrightarrow> i < ip_next s)"

definition closed_kept :: "insurance_store \<Rightarrow> insurance_store \<Rightarrow> bool" where
  "closed_kept s s' \<longleftrightarrow> (\<forall>i c. ip_claims s i = Some c \<and> cl_status c \<noteq> ClaimOpen \<longrightarrow> ip_claims s' i = Some c)"

lemma execute_claims:
  assumes "claim_ids_ok s" and "execute_insurance_claim e i s = Inr s'"
  shows "claim_ids_ok s' \<and> closed_kept s s'"
proof -
  from execute_cases [OF assms(2)] obtain c c' where c: "ip_claims s i = Some c" "cl_status c = ClaimOpen"
    and s': "ip_claims s' = (ip_claims s)(i \<mapsto> c')" "ip_next_claim s' = ip_next_claim s" by auto
  then show ?thesis using assms(1) by (auto simp: claim_ids_ok_def closed_kept_def ip_next_def split: if_splits)
qed

lemma insurance_exec_claims:
  assumes "claim_ids_ok s" and "insurance_exec e c s = Inr s'"
  shows "claim_ids_ok s' \<and> closed_kept s s'"
proof (cases c)
  case (IpExecute i)
  then show ?thesis using assms execute_claims by simp
next
  case (IpFile a t n k r)
  then obtain d where "ip_claims s' = (ip_claims s)(ip_next s \<mapsto> d)" "ip_next s' = ip_next s + 1"
    using assms(2)
    by (auto simp: file_insurance_claim_def save_claim_def ilog_def ip_next_def checked_nat_def result_simps
        Let_def split: if_splits)
  then show ?thesis using assms(1) by (fastforce simp: claim_ids_ok_def closed_kept_def less_Suc_eq split: if_splits)
next
  case (IpVote v i b)
  then obtain d d' where "ip_claims s i = Some d" "cl_status d = ClaimOpen"
    "ip_claims s' = (ip_claims s)(i \<mapsto> d')" "ip_next s' = ip_next s"
    using assms(2)
    by (auto simp: vote_insurance_claim_def load_claim_def save_claim_def ilog_def ip_next_def result_simps Let_def)
  then show ?thesis using assms(1) by (auto simp: claim_ids_ok_def closed_kept_def split: if_splits)
next
  case (IpFund m t n)
  then have "ip_claims s' = ip_claims s" "ip_next s' = ip_next s"
    using assms(2) by (auto simp: fund_insurance_pool_def ilog_def ip_next_def result_simps Let_def)
  then show ?thesis using assms(1) by (simp add: claim_ids_ok_def closed_kept_def)
qed

interpretation insurance_claims: evolving_machine insurance_exec empty_pool "\<lambda>_. True" claim_ids_ok closed_kept
proof unfold_locales
  show "claim_ids_ok empty_pool" by (simp add: claim_ids_ok_def empty_pool_def)
qed (auto simp: insurance_exec_claims, auto simp: closed_kept_def)

lemma closed_claim_final:
  fixes e :: ledger_env
  assumes "claim_ids_ok s" and "ip_claims s i = Some c" and "cl_status c \<noteq> ClaimOpen"
  shows "ip_claims (run insurance_exec ys s) i = Some c"
    and "\<not> is_ok (execute_insurance_claim e i (run insurance_exec ys s))"
proof -
  have "closed_kept s (run insurance_exec ys s)"
    by (rule insurance_claims.evol_run_from [OF assms(1)]) (simp add: list_all_iff)
  then show kept: "ip_claims (run insurance_exec ys s) i = Some c" using assms(2,3) by (simp add: closed_kept_def)
  then show "\<not> is_ok (execute_insurance_claim e i (run insurance_exec ys s))"
    using assms(3) by (simp add: execute_insurance_claim_def load_claim_def)
qed


section \<open>Properties\<close>

lemma insurance_run_ok: "list_all (\<lambda>(e, c). pool_env_ok a e) xs \<Longrightarrow> pool_ok a (run insurance_exec xs empty_pool)"
  by (rule insurance.invar_run)

text \<open>C37: The insurance pool is solvent and accounted for.  In every run in which the contract does not sign
  for itself, the recorded balance of a token is exactly what the pool operations have brought into
  the contract, it is never negative, the total is the sum of the contributions of the members, and the
  balance is that total less the amounts of the paid claims.\<close>

theorem insurance_solvent:
  assumes "list_all (\<lambda>(e, c). pool_env_ok a e) xs" and "s = run insurance_exec xs empty_pool"
  shows "get_i128 (ip_balance s t) = inflow a t (ip_log s) \<and> 0 \<le> get_i128 (ip_balance s t)
    \<and> get_i128 (ip_total s t) = deposit_sum (ip_contribution s t)
    \<and> get_i128 (ip_balance s t) = deposit_sum (ip_contribution s t)
        - (\<Sum>i<ip_next s. case ip_claims s i of None \<Rightarrow> 0
            | Some c \<Rightarrow> if cl_token c = t \<and> cl_status c = ClaimPaid then cl_amount c else 0)"
proof -
  have ok: "pool_ok a s" unfolding assms(2) by (rule insurance_run_ok [OF assms(1)])
  show ?thesis using pool_okD(5-8) [OF ok, of t] by (simp add: claims_paid_def paid_out_def)
qed

definition ip_demo_env :: "nat \<Rightarrow> ledger_env" where
  "ip_demo_env n = \<lparr>timestamp = n, sequence = n, self_addr = 99, auth = (\<lambda>a. a \<noteq> 99)\<rparr>"

definition ip_demo :: "(ledger_env \<times> insurance_call) list" where
  "ip_demo = map (Pair (ip_demo_env 5)) [IpFund 2 9 600, IpFund 3 9 400, IpFile 4 9 300 7 ''loss'',
     IpVote 2 1 True, IpVote 3 1 False, IpVote 2 1 True]"

lemma ip_demo_env_ok: "list_all (\<lambda>(e, c). pool_env_ok 99 e) ip_demo" "pool_env_ok 99 (ip_demo_env n)"
  by (simp_all add: ip_demo_def ip_demo_env_def pool_env_ok_def)

lemmas pool_eval = empty_pool_def ip_demo_env_def fund_insurance_pool_def file_insurance_claim_def vote_insurance_claim_def
  execute_insurance_claim_def pay_claim_def load_claim_def save_claim_def ilog_def checked_nat_def arith_def
  CLAIM_VOTING_LEDGERS_def rust_int Let_def

theorem insurance_solvent_witness:
  "get_i128 (ip_balance (run insurance_exec (ip_demo @ [(ip_demo_env 6, IpExecute 1)]) empty_pool) 9) = 700
    \<and> inflow 99 9 (ip_log (run insurance_exec (ip_demo @ [(ip_demo_env 6, IpExecute 1)]) empty_pool)) = 700"
proof -
  let ?s = "run insurance_exec (ip_demo @ [(ip_demo_env 6, IpExecute 1)]) empty_pool"
  have "get_i128 (ip_balance ?s 9) = 700" by (simp add: ip_demo_def pool_eval)
  moreover have "list_all (\<lambda>(e, c). pool_env_ok 99 e) (ip_demo @ [(ip_demo_env 6, IpExecute 1)])"
    using ip_demo_env_ok by simp
  ultimately show ?thesis using insurance_solvent [of 99 "ip_demo @ [(ip_demo_env 6, IpExecute 1)]" ?s 9] by simp
qed

lemma camps_le_total:
  assumes ok: "pool_ok a s" and c: "ip_claims s i = Some c"
  shows "camp s (cl_token c) i True + camp s (cl_token c) i False \<le> deposit_sum (ip_contribution s (cl_token c))"
proof -
  let ?D = "ip_contribution s (cl_token c)" and ?V = "\<lambda>b. {v. ip_votes s i v = Some b}"
  have "(\<Sum>v\<in>?V True. get_i128 (?D v)) + (\<Sum>v\<in>?V False. get_i128 (?D v)) = (\<Sum>v\<in>?V True \<union> ?V False. get_i128 (?D v))"
    using voters_finite [OF ok c] by (intro sum.union_disjoint [symmetric]) auto
  also have "?V True \<union> ?V False \<subseteq> dom ?D"
    using pool_okD(1) [OF ok c] by (auto simp: claim_ok_def)
  then have "(\<Sum>v\<in>?V True \<union> ?V False. get_i128 (?D v)) \<le> (\<Sum>v\<in>dom ?D. get_i128 (?D v))"
    using pool_okD(3) [OF ok] contribution_nonneg [OF ok] by (intro sum_mono2) auto
  also have "\<dots> = deposit_sum ?D" unfolding deposit_sum_def by (rule sum.cong) auto
  finally show ?thesis by (simp add: camp_def)
qed

text \<open>C36: Only a majority pays.  When settling a claim pays it, the members who approved it, each
  counted once, hold more than half of all contributions to the token's pool at that moment and
  those who rejected it less than half; exactly the claimed amount moves, from the pool to the
  claimant.  A claim that settling rejects was rejected by at least half of the weight of the pool
  or its voting period is over.  In both cases the claim keeps its outcome and can never be settled
  again, whatever calls follow.\<close>

theorem insurance_majority:
  assumes "list_all (\<lambda>(e, c). pool_env_ok a e) xs" and "s = run insurance_exec xs empty_pool"
    and "ip_claims s i = Some c" and "execute_insurance_claim e i s = Inr s'"
  shows "deposit_sum (ip_contribution s (cl_token c)) < 2 * (\<Sum>v | ip_votes s i v = Some True. get_i128 (ip_contribution s (cl_token c) v))
      \<and> 2 * (\<Sum>v | ip_votes s i v = Some False. get_i128 (ip_contribution s (cl_token c) v)) < deposit_sum (ip_contribution s (cl_token c))
      \<and> ip_log s' = ip_log s @ [Sent (cl_token c) (self_addr e) (cl_claimant c) (cl_amount c),
          Event (IpPaid i (cl_claimant c) (cl_amount c))]
      \<and> ip_claims s' i = Some (c\<lparr>cl_status := ClaimPaid\<rparr>)
      \<and> (\<forall>ys (e' :: ledger_env). ip_claims (run insurance_exec ys s') i = Some (c\<lparr>cl_status := ClaimPaid\<rparr>)
          \<and> \<not> is_ok (execute_insurance_claim e' i (run insurance_exec ys s')))
    \<or> ip_log s' = ip_log s @ [Event (IpRejected i (cl_claimant c))] \<and> ip_claims s' i = Some (c\<lparr>cl_status := ClaimRejected\<rparr>)
      \<and> (deposit_sum (ip_contribution s (cl_token c)) \<le> 2 * (\<Sum>v | ip_votes s i v = Some False. get_i128 (ip_contribution s (cl_token c) v))
        \<or> cl_voting_ends_ledger c < sequence e)
      \<and> (\<forall>ys (e' :: ledger_env). ip_claims (run insurance_exec ys s') i = Some (c\<lparr>cl_status := ClaimRejected\<rparr>)
          \<and> \<not> is_ok (execute_insurance_claim e' i (run insurance_exec ys s')))"
proof -
  have ok: "pool_ok a s" unfolding assms(2) by (rule insurance_run_ok [OF assms(1)])
  note ck = pool_okD(1) [OF ok assms(3)] and le = camps_le_total [OF ok assms(3)]
  have "claim_ids_ok s" unfolding assms(2) by (rule insurance_claims.invar_run) (simp add: list_all_iff)
  then have ids: "claim_ids_ok s'" using execute_claims assms(4) by blast
  let ?T = "deposit_sum (ip_contribution s (cl_token c))" and ?A = "camp s (cl_token c) i True" and ?R = "camp s (cl_token c) i False"
  have w: "cl_approve_weight c \<le> ?A" "cl_reject_weight c \<le> ?R" and t: "get_i128 (ip_total s (cl_token c)) = ?T"
    using ck pool_okD(5) [OF ok] by (simp_all add: claim_ok_def)
  from execute_cases [OF assms(4)] assms(3) consider
      (paid) "?T < 2 * cl_approve_weight c" "ip_claims s' i = Some (c\<lparr>cl_status := ClaimPaid\<rparr>)"
        "ip_log s' = ip_log s @ [Sent (cl_token c) (self_addr e) (cl_claimant c) (cl_amount c), Event (IpPaid i (cl_claimant c) (cl_amount c))]"
    | (rejected) "?T \<le> 2 * cl_reject_weight c \<or> cl_voting_ends_ledger c < sequence e"
        "ip_claims s' i = Some (c\<lparr>cl_status := ClaimRejected\<rparr>)" "ip_log s' = ip_log s @ [Event (IpRejected i (cl_claimant c))]"
    by (auto simp: t)
  then show ?thesis
  proof cases
    case paid
    then have "?T < 2 * ?A \<and> 2 * ?R < ?T" using w le by linarith
    then show ?thesis using paid closed_claim_final [OF ids paid(2)] by (simp add: camp_def)
  next
    case rejected
    then have "?T \<le> 2 * ?R \<or> cl_voting_ends_ledger c < sequence e" using w by linarith
    then show ?thesis using rejected closed_claim_final [OF ids rejected(2)] by (simp add: camp_def)
  qed
qed

theorem insurance_majority_witness:
  "\<exists>s'. execute_insurance_claim (ip_demo_env 6) 1 (run insurance_exec ip_demo empty_pool) = Inr s'
    \<and> 1000 < 2 * (\<Sum>v | ip_votes (run insurance_exec ip_demo empty_pool) 1 v = Some True.
        get_i128 (ip_contribution (run insurance_exec ip_demo empty_pool) 9 v))"
proof -
  let ?s = "run insurance_exec ip_demo empty_pool"
  obtain s' c where s': "execute_insurance_claim (ip_demo_env 6) 1 ?s = Inr s'" and c: "ip_claims ?s 1 = Some c" "cl_token c = 9"
    and "ip_claims s' 1 = Some (c\<lparr>cl_status := ClaimPaid\<rparr>)" "deposit_sum (ip_contribution ?s 9) = 1000"
    by (simp add: ip_demo_def pool_eval deposit_sum_def)
  moreover have "c\<lparr>cl_status := ClaimPaid\<rparr> \<noteq> c\<lparr>cl_status := ClaimRejected\<rparr>" by (metis claim_status.distinct(5) insurance_claim.select_convs(10) insurance_claim.surjective insurance_claim.update_convs(10))
  ultimately show ?thesis using insurance_majority [OF ip_demo_env_ok(1) refl c(1) s'] by auto
qed

end
