(* ===== verification/Mentorship.thy ===== *)
theory Mentorship
  imports Token_Accounts
begin

text \<open>
  Model of the mentorship contract (\<open>contracts/mentorship/src/lib.rs\<close>, \<open>types.rs\<close>, \<open>errors.rs\<close>): mentors
  register with a capacity and a revenue share, mentees request programs, and a program runs for a
  fixed term during which the mentee routes a share of its earnings to the mentor. The storage is one
  record with a map per key family; transfers and events are appended to the log \<open>ms_log\<close>.
  Afterwards: every stored record is well-formed, and the slots of a mentor and the locks of the
  mentor/mentee pairs count exactly the running programs.
\<close>

section \<open>Data\<close>

datatype mentorship_error =
    MsAlreadyInitialized | MsNotInitialized | MsNotAdmin | MentorAlreadyRegistered | MentorNotFound
  | MentorUnavailable | InvalidRevenueShare | InvalidCapacity | MentorAtCapacity | SelfMentorship
  | DuplicateProgram | ProgramNotFound | InvalidProgramState | MsUnauthorized | InvalidDuration
  | MsInvalidAmount | ProgramExpired | ProgramNotMatured | InvalidRating | AlreadyRated | MsOverflow

type_synonym 'a mentor_result = "(mentorship_error, 'a) result"

datatype program_status = Requested | Running | Completed | MCancelled | Declined

record mentor_profile =
  mp_mentor :: addr
  mp_expertise :: string
  mp_revenue_share_bps :: nat
  mp_max_mentees :: nat
  mp_active_mentees :: nat
  mp_completed_programs :: nat
  mp_rating_sum :: nat
  mp_rating_count :: nat
  mp_available :: bool
  mp_suspended :: bool
  mp_registered_at :: nat

record mentorship_program =
  pg_id :: nat
  pg_mentor :: addr
  pg_mentee :: addr
  pg_status :: program_status
  pg_revenue_share_bps :: nat
  pg_duration_ledgers :: nat
  pg_requested_at :: nat
  pg_start_ledger :: nat
  pg_end_ledger :: nat
  pg_sessions :: nat
  pg_total_shared :: int
  pg_rated :: bool

datatype mentor_event =
    MeRegistered addr string nat nat
  | MeUpdated addr nat nat bool
  | MeSuspended addr bool
  | MeStatus string nat addr addr program_status
  | MeSession nat nat
  | MeShared nat addr int int
  | MeRated nat addr nat

record mentor_state =
  ms_admin :: "addr option"
  ms_counter :: "nat option"
  ms_mentors :: "addr \<rightharpoonup> mentor_profile"
  ms_programs :: "nat \<rightharpoonup> mentorship_program"
  ms_mentor_programs :: "addr \<Rightarrow> nat list"
  ms_mentee_programs :: "addr \<Rightarrow> nat list"
  ms_open_pair :: "addr \<times> addr \<rightharpoonup> nat"
  ms_log :: "mentor_event action list"

definition empty_mentorship :: mentor_state where
  "empty_mentorship = \<lparr>ms_admin = None, ms_counter = None, ms_mentors = Map.empty, ms_programs = Map.empty,
    ms_mentor_programs = (\<lambda>_. []), ms_mentee_programs = (\<lambda>_. []), ms_open_pair = Map.empty, ms_log = []\<rparr>"

definition MS_BPS_DENOMINATOR :: int where "MS_BPS_DENOMINATOR = 10000"
definition MAX_REVENUE_SHARE_BPS :: nat where "MAX_REVENUE_SHARE_BPS = 3000"
definition MAX_MENTEES_PER_MENTOR :: nat where "MAX_MENTEES_PER_MENTOR = 50"
definition MIN_DURATION_LEDGERS :: nat where "MIN_DURATION_LEDGERS = 17280"
definition MAX_DURATION_LEDGERS :: nat where "MAX_DURATION_LEDGERS = 6307200"
definition MAX_RATING :: nat where "MAX_RATING = 5"

lemmas ms_consts = MS_BPS_DENOMINATOR_def MAX_REVENUE_SHARE_BPS_def MAX_MENTEES_PER_MENTOR_def
  MIN_DURATION_LEDGERS_def MAX_DURATION_LEDGERS_def MAX_RATING_def


section \<open>Helpers\<close>

definition mlog :: "mentor_event action \<Rightarrow> mentor_state \<Rightarrow> mentor_state" where
  "mlog x s = s\<lparr>ms_log := ms_log s @ [x]\<rparr>"

definition emit_program_status :: "string \<Rightarrow> mentorship_program \<Rightarrow> mentor_state \<Rightarrow> mentor_state" where
  "emit_program_status action p = mlog (Event (MeStatus action (pg_id p) (pg_mentor p) (pg_mentee p) (pg_status p)))"

definition ms_require_admin :: "'x ledger_env_scheme \<Rightarrow> addr \<Rightarrow> mentor_state \<Rightarrow> unit mentor_result" where
  "ms_require_admin e admin s =
    bindr (ok_or (ms_admin s) (Err MsNotInitialized)) (\<lambda>stored.
    if stored \<noteq> admin then Inl (Err MsNotAdmin) else require_auth e admin)"

definition load_mentor :: "mentor_state \<Rightarrow> addr \<Rightarrow> mentor_profile mentor_result" where
  "load_mentor s m = ok_or (ms_mentors s m) (Err MentorNotFound)"

definition save_mentor :: "mentor_profile \<Rightarrow> mentor_state \<Rightarrow> mentor_state" where
  "save_mentor p s = s\<lparr>ms_mentors := (ms_mentors s)(mp_mentor p \<mapsto> p)\<rparr>"

definition load_program :: "mentor_state \<Rightarrow> nat \<Rightarrow> mentorship_program mentor_result" where
  "load_program s i = ok_or (ms_programs s i) (Err ProgramNotFound)"

definition save_program :: "mentorship_program \<Rightarrow> mentor_state \<Rightarrow> mentor_state" where
  "save_program p s = s\<lparr>ms_programs := (ms_programs s)(pg_id p \<mapsto> p)\<rparr>"

definition push_id :: "addr \<Rightarrow> nat \<Rightarrow> (addr \<Rightarrow> nat list) \<Rightarrow> (addr \<Rightarrow> nat list)" where
  "push_id a i f = f(a := f a @ [i])"

definition validate_terms :: "nat \<Rightarrow> nat \<Rightarrow> unit mentor_result" where
  "validate_terms share_bps max_mentees =
    (if MAX_REVENUE_SHARE_BPS < share_bps then Inl (Err InvalidRevenueShare)
     else if max_mentees = 0 \<or> MAX_MENTEES_PER_MENTOR < max_mentees then Inl (Err InvalidCapacity)
     else Inr ())"

definition release_slot :: "mentorship_program \<Rightarrow> bool \<Rightarrow> mentor_state \<Rightarrow> mentor_state mentor_result" where
  "release_slot p was_active s =
    bindr (if was_active then
             bindr (load_mentor s (pg_mentor p)) (\<lambda>profile.
             Inr (save_mentor (profile\<lparr>mp_active_mentees := mp_active_mentees profile - 1\<rparr>) s))
           else Inr s) (\<lambda>s1.
    Inr (s1\<lparr>ms_open_pair := (ms_open_pair s1)((pg_mentor p, pg_mentee p) := None)\<rparr>))"


section \<open>Entry points\<close>

definition ms_initialize :: "addr \<Rightarrow> mentor_state \<Rightarrow> mentor_state mentor_result" where
  "ms_initialize admin s =
    (if ms_admin s \<noteq> None then Inl (Err MsAlreadyInitialized)
     else Inr (s\<lparr>ms_admin := Some admin, ms_counter := Some 0\<rparr>))"

definition register_mentor ::
  "'x ledger_env_scheme \<Rightarrow> addr \<Rightarrow> string \<Rightarrow> nat \<Rightarrow> nat \<Rightarrow> mentor_state \<Rightarrow> mentor_state mentor_result" where
  "register_mentor e mentor expertise share_bps max_mentees s =
    bindr (require_auth e mentor) (\<lambda>_.
    if ms_admin s = None then Inl (Err MsNotInitialized)
    else if ms_mentors s mentor \<noteq> None then Inl (Err MentorAlreadyRegistered)
    else
      bindr (validate_terms share_bps max_mentees) (\<lambda>_.
      Inr (mlog (Event (MeRegistered mentor expertise share_bps max_mentees))
        (save_mentor \<lparr>mp_mentor = mentor, mp_expertise = expertise, mp_revenue_share_bps = share_bps,
           mp_max_mentees = max_mentees, mp_active_mentees = 0, mp_completed_programs = 0, mp_rating_sum = 0,
           mp_rating_count = 0, mp_available = True, mp_suspended = False, mp_registered_at = timestamp e\<rparr> s))))"

definition update_mentor ::
  "'x ledger_env_scheme \<Rightarrow> addr \<Rightarrow> nat \<Rightarrow> nat \<Rightarrow> bool \<Rightarrow> mentor_state \<Rightarrow> mentor_state mentor_result" where
  "update_mentor e mentor share_bps max_mentees available s =
    bindr (require_auth e mentor) (\<lambda>_.
    bindr (load_mentor s mentor) (\<lambda>profile.
    bindr (validate_terms share_bps max_mentees) (\<lambda>_.
    if max_mentees < mp_active_mentees profile then Inl (Err InvalidCapacity)
    else Inr (mlog (Event (MeUpdated mentor share_bps max_mentees available))
      (save_mentor (profile\<lparr>mp_revenue_share_bps := share_bps, mp_max_mentees := max_mentees,
         mp_available := available\<rparr>) s)))))"

definition set_mentor_suspended ::
  "'x ledger_env_scheme \<Rightarrow> addr \<Rightarrow> addr \<Rightarrow> bool \<Rightarrow> mentor_state \<Rightarrow> mentor_state mentor_result" where
  "set_mentor_suspended e admin mentor suspended s =
    bindr (ms_require_admin e admin s) (\<lambda>_.
    bindr (load_mentor s mentor) (\<lambda>profile.
    Inr (mlog (Event (MeSuspended mentor suspended)) (save_mentor (profile\<lparr>mp_suspended := suspended\<rparr>) s))))"

definition request_mentorship ::
  "'x ledger_env_scheme \<Rightarrow> addr \<Rightarrow> addr \<Rightarrow> nat \<Rightarrow> mentor_state \<Rightarrow> (nat \<times> mentor_state) mentor_result" where
  "request_mentorship e mentee mentor duration s =
    bindr (require_auth e mentee) (\<lambda>_.
    if mentee = mentor then Inl (Err SelfMentorship)
    else if \<not> (MIN_DURATION_LEDGERS \<le> duration \<and> duration \<le> MAX_DURATION_LEDGERS) then Inl (Err InvalidDuration)
    else
      bindr (load_mentor s mentor) (\<lambda>profile.
      if \<not> mp_available profile \<or> mp_suspended profile then Inl (Err MentorUnavailable)
      else if ms_open_pair s (mentor, mentee) \<noteq> None then Inl (Err DuplicateProgram)
      else
        bindr (ok_or (ms_counter s) (Err MsNotInitialized)) (\<lambda>i.
        bindr (ok_or (checked_nat u64_max (i + 1)) (Err MsOverflow)) (\<lambda>next_id.
        let p = \<lparr>pg_id = i, pg_mentor = mentor, pg_mentee = mentee, pg_status = Requested,
              pg_revenue_share_bps = mp_revenue_share_bps profile, pg_duration_ledgers = duration,
              pg_requested_at = timestamp e, pg_start_ledger = 0, pg_end_ledger = 0, pg_sessions = 0,
              pg_total_shared = 0, pg_rated = False\<rparr>;
            s1 = save_program p (s\<lparr>ms_counter := Some next_id\<rparr>);
            s2 = s1\<lparr>ms_open_pair := (ms_open_pair s1)((mentor, mentee) \<mapsto> i),
              ms_mentor_programs := push_id mentor i (ms_mentor_programs s1),
              ms_mentee_programs := push_id mentee i (ms_mentee_programs s1)\<rparr>
        in Inr (i, emit_program_status ''requested'' p s2)))))"

definition accept_mentorship ::
  "'x ledger_env_scheme \<Rightarrow> addr \<Rightarrow> nat \<Rightarrow> mentor_state \<Rightarrow> mentor_state mentor_result" where
  "accept_mentorship e mentor i s =
    bindr (require_auth e mentor) (\<lambda>_.
    bindr (load_program s i) (\<lambda>p.
    if pg_mentor p \<noteq> mentor then Inl (Err MsUnauthorized)
    else if pg_status p \<noteq> Requested then Inl (Err InvalidProgramState)
    else
      bindr (load_mentor s mentor) (\<lambda>profile.
      if mp_suspended profile then Inl (Err MentorUnavailable)
      else if mp_max_mentees profile \<le> mp_active_mentees profile then Inl (Err MentorAtCapacity)
      else
        bindr (ok_or (checked_nat u32_max (sequence e + pg_duration_ledgers p)) (Err MsOverflow)) (\<lambda>end_ledger.
        bindr (ok_or (checked_nat u32_max (mp_active_mentees profile + 1)) (Trap ''arithmetic overflow'')) (\<lambda>active.
        let p' = p\<lparr>pg_status := Running, pg_revenue_share_bps := mp_revenue_share_bps profile,
              pg_start_ledger := sequence e, pg_end_ledger := end_ledger\<rparr>
        in Inr (emit_program_status ''accepted'' p'
             (save_program p' (save_mentor (profile\<lparr>mp_active_mentees := active\<rparr>) s))))))))"

definition decline_mentorship ::
  "'x ledger_env_scheme \<Rightarrow> addr \<Rightarrow> nat \<Rightarrow> mentor_state \<Rightarrow> mentor_state mentor_result" where
  "decline_mentorship e mentor i s =
    bindr (require_auth e mentor) (\<lambda>_.
    bindr (load_program s i) (\<lambda>p.
    if pg_mentor p \<noteq> mentor then Inl (Err MsUnauthorized)
    else if pg_status p \<noteq> Requested then Inl (Err InvalidProgramState)
    else
      (let p' = p\<lparr>pg_status := Declined\<rparr> in
       bindr (release_slot p' False s) (\<lambda>s1.
       Inr (emit_program_status ''declined'' p' (save_program p' s1))))))"

definition log_session ::
  "'x ledger_env_scheme \<Rightarrow> addr \<Rightarrow> nat \<Rightarrow> mentor_state \<Rightarrow> (nat \<times> mentor_state) mentor_result" where
  "log_session e mentor i s =
    bindr (require_auth e mentor) (\<lambda>_.
    bindr (load_program s i) (\<lambda>p.
    if pg_mentor p \<noteq> mentor then Inl (Err MsUnauthorized)
    else if pg_status p \<noteq> Running then Inl (Err InvalidProgramState)
    else
      bindr (ok_or (checked_nat u32_max (pg_sessions p + 1)) (Err MsOverflow)) (\<lambda>sessions.
      Inr (sessions, mlog (Event (MeSession i sessions)) (save_program (p\<lparr>pg_sessions := sessions\<rparr>) s)))))"

definition share_earnings ::
  "'x ledger_env_scheme \<Rightarrow> addr \<Rightarrow> nat \<Rightarrow> addr \<Rightarrow> int \<Rightarrow> mentor_state \<Rightarrow> (int \<times> mentor_state) mentor_result" where
  "share_earnings e mentee i token gross s =
    bindr (require_auth e mentee) (\<lambda>_.
    if gross \<le> 0 then Inl (Err MsInvalidAmount)
    else
      bindr (load_program s i) (\<lambda>p.
      if pg_mentee p \<noteq> mentee then Inl (Err MsUnauthorized)
      else if pg_status p \<noteq> Running then Inl (Err InvalidProgramState)
      else if pg_end_ledger p < sequence e then Inl (Err ProgramExpired)
      else
        bindr (ok_or (checked_i128 (gross * int (pg_revenue_share_bps p))) (Err MsOverflow)) (\<lambda>product.
        let share = product sdiv MS_BPS_DENOMINATOR;
            s1 = (if 0 < share then mlog (Sent token mentee (pg_mentor p) share) s else s)
        in bindr (ok_or (checked_i128 (pg_total_shared p + share)) (Err MsOverflow)) (\<lambda>total.
           Inr (share, mlog (Event (MeShared i token gross share))
             (save_program (p\<lparr>pg_total_shared := total\<rparr>) s1))))))"

definition complete_program ::
  "'x ledger_env_scheme \<Rightarrow> addr \<Rightarrow> nat \<Rightarrow> mentor_state \<Rightarrow> mentor_state mentor_result" where
  "complete_program e caller i s =
    bindr (require_auth e caller) (\<lambda>_.
    bindr (load_program s i) (\<lambda>p.
    if pg_status p \<noteq> Running then Inl (Err InvalidProgramState)
    else if caller = pg_mentor p \<and> sequence e < pg_end_ledger p then Inl (Err ProgramNotMatured)
    else if caller \<noteq> pg_mentor p \<and> caller \<noteq> pg_mentee p then Inl (Err MsUnauthorized)
    else
      (let p' = p\<lparr>pg_status := Completed\<rparr> in
       bindr (release_slot p' True s) (\<lambda>s1.
       bindr (load_mentor s1 (pg_mentor p')) (\<lambda>profile.
       Inr (emit_program_status ''completed'' p' (save_program p'
         (save_mentor (profile\<lparr>mp_completed_programs := sat_add u32_max (mp_completed_programs profile) 1\<rparr>) s1))))))))"

definition cancel_program ::
  "'x ledger_env_scheme \<Rightarrow> addr \<Rightarrow> nat \<Rightarrow> mentor_state \<Rightarrow> mentor_state mentor_result" where
  "cancel_program e caller i s =
    bindr (require_auth e caller) (\<lambda>_.
    bindr (load_program s i) (\<lambda>p.
    if caller \<noteq> pg_mentor p \<and> caller \<noteq> pg_mentee p then Inl (Err MsUnauthorized)
    else
      bindr (case pg_status p of Requested \<Rightarrow> Inr False | Running \<Rightarrow> Inr True | _ \<Rightarrow> Inl (Err InvalidProgramState))
        (\<lambda>was_active.
      let p' = p\<lparr>pg_status := MCancelled\<rparr> in
      bindr (release_slot p' was_active s) (\<lambda>s1.
      Inr (emit_program_status ''cancelled'' p' (save_program p' s1))))))"

definition rate_mentor ::
  "'x ledger_env_scheme \<Rightarrow> addr \<Rightarrow> nat \<Rightarrow> nat \<Rightarrow> mentor_state \<Rightarrow> mentor_state mentor_result" where
  "rate_mentor e mentee i rating s =
    bindr (require_auth e mentee) (\<lambda>_.
    if rating = 0 \<or> MAX_RATING < rating then Inl (Err InvalidRating)
    else
      bindr (load_program s i) (\<lambda>p.
      if pg_mentee p \<noteq> mentee then Inl (Err MsUnauthorized)
      else if pg_status p \<noteq> Completed then Inl (Err InvalidProgramState)
      else if pg_rated p then Inl (Err AlreadyRated)
      else
        bindr (load_mentor s (pg_mentor p)) (\<lambda>profile.
        bindr (ok_or (checked_nat u32_max (mp_rating_sum profile + rating)) (Err MsOverflow)) (\<lambda>total.
        bindr (ok_or (checked_nat u32_max (mp_rating_count profile + 1)) (Err MsOverflow)) (\<lambda>n.
        Inr (mlog (Event (MeRated i (pg_mentor p) rating)) (save_program (p\<lparr>pg_rated := True\<rparr>)
          (save_mentor (profile\<lparr>mp_rating_sum := total, mp_rating_count := n\<rparr>) s))))))))"

text \<open>The average is computed in \<open>u32\<close>, which traps when the scaled sum does not fit.\<close>

definition get_mentor_rating :: "mentor_state \<Rightarrow> addr \<Rightarrow> nat mentor_result" where
  "get_mentor_rating s m =
    (case ms_mentors s m of
       Some p \<Rightarrow> if 0 < mp_rating_count p
         then bindr (ok_or (checked_nat u32_max (mp_rating_sum p * 100)) (Trap ''arithmetic overflow''))
           (\<lambda>x. Inr (x div mp_rating_count p))
         else Inr 0
     | None \<Rightarrow> Inr 0)"

datatype mentor_call =
    MsInitialize addr
  | MsRegister addr string nat nat
  | MsUpdate addr nat nat bool
  | MsSuspend addr addr bool
  | MsRequest addr addr nat
  | MsAccept addr nat
  | MsDecline addr nat
  | MsSession addr nat
  | MsShare addr nat addr int
  | MsComplete addr nat
  | MsCancel addr nat
  | MsRate addr nat nat

fun mentor_exec :: "ledger_env \<Rightarrow> mentor_call \<Rightarrow> mentor_state \<Rightarrow> mentor_state mentor_result" where
  "mentor_exec e (MsInitialize a) s = ms_initialize a s"
| "mentor_exec e (MsRegister m x b n) s = register_mentor e m x b n s"
| "mentor_exec e (MsUpdate m b n av) s = update_mentor e m b n av s"
| "mentor_exec e (MsSuspend a m b) s = set_mentor_suspended e a m b s"
| "mentor_exec e (MsRequest p m d) s = bindr (request_mentorship e p m d s) (\<lambda>(_, s'). Inr s')"
| "mentor_exec e (MsAccept m i) s = accept_mentorship e m i s"
| "mentor_exec e (MsDecline m i) s = decline_mentorship e m i s"
| "mentor_exec e (MsSession m i) s = bindr (log_session e m i s) (\<lambda>(_, s'). Inr s')"
| "mentor_exec e (MsShare p i t n) s = bindr (share_earnings e p i t n s) (\<lambda>(_, s'). Inr s')"
| "mentor_exec e (MsComplete c i) s = complete_program e c i s"
| "mentor_exec e (MsCancel c i) s = cancel_program e c i s"
| "mentor_exec e (MsRate p i r) s = rate_mentor e p i r s"


section \<open>Well-formed states\<close>

definition ms_next :: "mentor_state \<Rightarrow> nat" where
  "ms_next s = (case ms_counter s of None \<Rightarrow> 0 | Some n \<Rightarrow> n)"

text \<open>The number of stored programs of a mentor with a property.\<close>

definition slot_bit :: "(mentorship_program \<Rightarrow> bool) \<Rightarrow> addr \<Rightarrow> mentorship_program option \<Rightarrow> int" where
  "slot_bit P m x = (case x of None \<Rightarrow> 0 | Some p \<Rightarrow> of_bool (pg_mentor p = m \<and> P p))"

definition programs_of :: "(mentorship_program \<Rightarrow> bool) \<Rightarrow> addr \<Rightarrow> mentor_state \<Rightarrow> int" where
  "programs_of P m s = (\<Sum>i<ms_next s. slot_bit P m (ms_programs s i))"

definition open_program :: "mentorship_program \<Rightarrow> bool" where
  "open_program p \<longleftrightarrow> pg_status p = Requested \<or> pg_status p = Running"

definition running :: "mentorship_program \<Rightarrow> bool" where
  "running p \<longleftrightarrow> pg_status p = Running"

definition program_ok :: "mentorship_program \<Rightarrow> bool" where
  "program_ok p \<longleftrightarrow> pg_mentor p \<noteq> pg_mentee p \<and> pg_revenue_share_bps p \<le> MAX_REVENUE_SHARE_BPS
    \<and> MIN_DURATION_LEDGERS \<le> pg_duration_ledgers p \<and> pg_duration_ledgers p \<le> MAX_DURATION_LEDGERS
    \<and> (pg_status p = Running \<or> pg_status p = Completed \<longrightarrow> pg_end_ledger p = pg_start_ledger p + pg_duration_ledgers p)
    \<and> pg_end_ledger p \<le> u32_max \<and> pg_sessions p \<le> u32_max
    \<and> 0 \<le> pg_total_shared p \<and> pg_total_shared p \<le> i128_max
    \<and> (pg_status p = Requested \<or> pg_status p = Declined \<longrightarrow> pg_sessions p = 0 \<and> pg_total_shared p = 0)
    \<and> (pg_rated p \<longrightarrow> pg_status p = Completed)"

definition profile_ok :: "mentor_profile \<Rightarrow> bool" where
  "profile_ok q \<longleftrightarrow> mp_revenue_share_bps q \<le> MAX_REVENUE_SHARE_BPS \<and> 0 < mp_max_mentees q
    \<and> mp_max_mentees q \<le> MAX_MENTEES_PER_MENTOR \<and> mp_active_mentees q \<le> mp_max_mentees q
    \<and> mp_rating_count q \<le> mp_rating_sum q \<and> mp_rating_sum q \<le> MAX_RATING * mp_rating_count q
    \<and> mp_rating_sum q \<le> u32_max \<and> mp_completed_programs q \<le> u32_max"

definition ms_ok :: "mentor_state \<Rightarrow> bool" where
  "ms_ok s \<longleftrightarrow>
    (\<forall>i p. ms_programs s i = Some p \<longrightarrow>
      i < ms_next s \<and> pg_id p = i \<and> ms_mentors s (pg_mentor p) \<noteq> None \<and> program_ok p)
    \<and> (\<forall>m q. ms_mentors s m = Some q \<longrightarrow> mp_mentor q = m \<and> profile_ok q
        \<and> int (mp_active_mentees q) = programs_of running m s
        \<and> int (mp_rating_count q) = programs_of pg_rated m s)
    \<and> (\<forall>m x i. ms_open_pair s (m, x) = Some i \<longleftrightarrow>
        (\<exists>p. ms_programs s i = Some p \<and> pg_mentor p = m \<and> pg_mentee p = x \<and> open_program p))
    \<and> (ms_admin s = None \<longleftrightarrow> ms_counter s = None)
    \<and> (ms_admin s = None \<longrightarrow> ms_mentors s = Map.empty)
    \<and> ms_next s \<le> u64_max"

lemma slot_bit_simps [simp]:
  "slot_bit P m None = 0" "slot_bit P m (Some p) = of_bool (pg_mentor p = m \<and> P p)"
  by (simp_all add: slot_bit_def)

lemma ms_okD:
  assumes "ms_ok s"
  shows "ms_programs s i = Some p \<Longrightarrow> i < ms_next s" "ms_programs s i = Some p \<Longrightarrow> pg_id p = i"
    "ms_programs s i = Some p \<Longrightarrow> ms_mentors s (pg_mentor p) \<noteq> None" "ms_programs s i = Some p \<Longrightarrow> program_ok p"
    "ms_mentors s m = Some q \<Longrightarrow> mp_mentor q = m" "ms_mentors s m = Some q \<Longrightarrow> profile_ok q"
    "ms_mentors s m = Some q \<Longrightarrow> int (mp_active_mentees q) = programs_of running m s"
    "ms_mentors s m = Some q \<Longrightarrow> int (mp_rating_count q) = programs_of pg_rated m s"
    "ms_open_pair s (m, x) = Some i \<longleftrightarrow>
      (\<exists>p. ms_programs s i = Some p \<and> pg_mentor p = m \<and> pg_mentee p = x \<and> open_program p)"
    "ms_admin s = None \<longleftrightarrow> ms_counter s = None" "ms_admin s = None \<Longrightarrow> ms_mentors s m = None"
    "ms_next s \<le> u64_max"
  using assms by (simp_all add: ms_ok_def)

lemma ms_ok_empty: "ms_ok empty_mentorship"
  by (simp add: ms_ok_def empty_mentorship_def ms_next_def)

text \<open>An operation on one existing program and its mentor.\<close>

lemma ms_ok_program:
  assumes ok: "ms_ok s" and old: "ms_programs s i = Some p" "ms_mentors s (pg_mentor p) = Some q"
    and prog: "ms_programs s' = (ms_programs s)(i \<mapsto> p')" and mentor: "ms_mentors s' = (ms_mentors s)(pg_mentor p \<mapsto> q')"
    and cnt: "ms_counter s' = ms_counter s" and adm: "ms_admin s' = ms_admin s"
    and pair: "ms_open_pair s' = (if open_program p \<and> \<not> open_program p'
      then (ms_open_pair s)((pg_mentor p, pg_mentee p) := None) else ms_open_pair s)"
    and same: "pg_id p' = pg_id p" "pg_mentor p' = pg_mentor p" "pg_mentee p' = pg_mentee p" "mp_mentor q' = mp_mentor q"
    and mono: "open_program p' \<Longrightarrow> open_program p"
    and new: "program_ok p'" "profile_ok q'"
    and act: "int (mp_active_mentees q') = int (mp_active_mentees q) - of_bool (running p) + of_bool (running p')"
    and rat: "int (mp_rating_count q') = int (mp_rating_count q) - of_bool (pg_rated p) + of_bool (pg_rated p')"
  shows "ms_ok s'"
proof -
  note d = ms_okD [OF ok]
  have nxt: "ms_next s' = ms_next s" by (simp add: ms_next_def cnt)
  have lt: "i < ms_next s" using d(1) old(1) by blast
  have cnt': "programs_of P m s' = programs_of P m s - slot_bit P m (Some p) + slot_bit P m (Some p')" for P m
    unfolding programs_of_def nxt
    using sum_slot_change [OF lt, of "\<lambda>j. slot_bit P m (ms_programs s' j)" "\<lambda>j. slot_bit P m (ms_programs s j)"]
    by (simp add: prog old(1))
  have progs: "j < ms_next s' \<and> pg_id r = j \<and> ms_mentors s' (pg_mentor r) \<noteq> None \<and> program_ok r"
    if "ms_programs s' j = Some r" for j r
    using that d(1-4) [of j] d(1-4) [OF old(1)] new(1) same by (cases "j = i") (auto simp: prog mentor nxt)
  have mentors: "mp_mentor r = m \<and> profile_ok r \<and> int (mp_active_mentees r) = programs_of running m s'
      \<and> int (mp_rating_count r) = programs_of pg_rated m s'" if "ms_mentors s' m = Some r" for m r
    using that d(5-8) [OF old(2)] d(5-8) [of m r] new(2) same act rat by (cases "m = pg_mentor p") (auto simp: mentor cnt')
  have lock: "ms_open_pair s (pg_mentor p, pg_mentee p) = Some j \<longleftrightarrow> j = i" if "open_program p" for j
    using d(9) old(1) that by (metis option.inject)
  have pairs: "ms_open_pair s' (m, x) = Some j \<longleftrightarrow>
      (\<exists>r. ms_programs s' j = Some r \<and> pg_mentor r = m \<and> pg_mentee r = x \<and> open_program r)" for m x j
  proof (cases "open_program p \<and> \<not> open_program p'")
    case True
    show ?thesis
    proof (cases "m = pg_mentor p \<and> x = pg_mentee p")
      case key: True
      have "\<not> (ms_programs s' j = Some r \<and> pg_mentor r = m \<and> pg_mentee r = x \<and> open_program r)" for r
        using True key lock [of j] d(9) [of m x j] by (cases "j = i") (auto simp: prog)
      moreover have "ms_open_pair s' (m, x) = None" using True key by (simp add: pair)
      ultimately show ?thesis by auto
    next
      case False
      then have "ms_open_pair s' (m, x) = ms_open_pair s (m, x)" using True by (auto simp: pair)
      then show ?thesis using False d(9) [of m x j] old(1) same by (cases "j = i") (auto simp: prog)
    qed
  next
    case False
    then have "open_program p' = open_program p" using mono by blast
    then show ?thesis using False d(9) [of m x j] old(1) same by (cases "j = i") (auto simp: pair prog)
  qed
  have "ms_admin s \<noteq> None" using d(11) old(2) by fastforce
  then show ?thesis unfolding ms_ok_def
    using progs mentors pairs d(10,12) by (auto simp: adm cnt nxt)
qed

text \<open>An operation on a mentor profile alone.\<close>

lemma ms_ok_mentor:
  assumes ok: "ms_ok s" and mentor: "ms_mentors s' = (ms_mentors s)(m \<mapsto> q')" and adm: "ms_admin s \<noteq> None"
    and frame: "ms_programs s' = ms_programs s" "ms_counter s' = ms_counter s" "ms_admin s' = ms_admin s"
      "ms_open_pair s' = ms_open_pair s"
    and new: "mp_mentor q' = m" "profile_ok q'"
    and act: "int (mp_active_mentees q') = programs_of running m s"
    and rat: "int (mp_rating_count q') = programs_of pg_rated m s"
  shows "ms_ok s'"
proof -
  have "programs_of P x s' = programs_of P x s" "ms_next s' = ms_next s" for P x
    by (simp_all add: programs_of_def ms_next_def frame)
  then show ?thesis using ok new act rat adm unfolding ms_ok_def by (auto simp: mentor frame)
qed



section \<open>Every operation keeps the invariant\<close>

lemma program_mentor:
  assumes "ms_ok s" and "ms_programs s i = Some p"
  obtains q where "ms_mentors s (pg_mentor p) = Some q"
  using ms_okD(3) [OF assms] by blast

lemma programs_of_unknown: "ms_ok s \<Longrightarrow> ms_mentors s m = None \<Longrightarrow> programs_of P m s = 0"
  unfolding programs_of_def
  by (rule sum.neutral) (auto simp: slot_bit_def dest: ms_okD(3) split: option.splits)

lemma open_program_upd [simp]:
  "open_program (p\<lparr>pg_status := st\<rparr>) \<longleftrightarrow> st = Requested \<or> st = Running"
  "open_program (p\<lparr>pg_sessions := n\<rparr>) = open_program p" "open_program (p\<lparr>pg_total_shared := x\<rparr>) = open_program p"
  "open_program (p\<lparr>pg_rated := b\<rparr>) = open_program p"
  "open_program (p\<lparr>pg_status := st, pg_revenue_share_bps := b', pg_start_ledger := k, pg_end_ledger := l\<rparr>) \<longleftrightarrow>
    st = Requested \<or> st = Running"
  by (simp_all add: open_program_def)

lemma save_sel [simp]:
  "ms_programs (mlog x s) = ms_programs s" "ms_mentors (mlog x s) = ms_mentors s" "ms_admin (mlog x s) = ms_admin s"
  "ms_counter (mlog x s) = ms_counter s" "ms_open_pair (mlog x s) = ms_open_pair s"
  "ms_programs (emit_program_status a p s) = ms_programs s" "ms_mentors (emit_program_status a p s) = ms_mentors s"
  "ms_admin (emit_program_status a p s) = ms_admin s" "ms_counter (emit_program_status a p s) = ms_counter s"
  "ms_open_pair (emit_program_status a p s) = ms_open_pair s"
  "ms_programs (save_mentor q s) = ms_programs s" "ms_mentors (save_mentor q s) = (ms_mentors s)(mp_mentor q \<mapsto> q)"
  "ms_admin (save_mentor q s) = ms_admin s" "ms_counter (save_mentor q s) = ms_counter s"
  "ms_open_pair (save_mentor q s) = ms_open_pair s"
  "ms_programs (save_program p s) = (ms_programs s)(pg_id p \<mapsto> p)" "ms_mentors (save_program p s) = ms_mentors s"
  "ms_admin (save_program p s) = ms_admin s" "ms_counter (save_program p s) = ms_counter s"
  "ms_open_pair (save_program p s) = ms_open_pair s"
  by (simp_all add: mlog_def emit_program_status_def save_mentor_def save_program_def)

lemma ms_initialize_ok:
  assumes ok: "ms_ok s" and "ms_initialize a s = Inr s'"
  shows "ms_ok s'"
proof -
  note d = ms_okD [OF ok]
  have s': "s' = s\<lparr>ms_admin := Some a, ms_counter := Some 0\<rparr>" and none: "ms_admin s = None"
    using assms(2) by (auto simp: ms_initialize_def split: if_splits)
  have m: "ms_mentors s m = None" for m using d(11) none by simp
  have p: "ms_programs s i = None" for i using d(3) m by (cases "ms_programs s i") auto
  have "ms_open_pair s (x, y) = None" for x y using d(9) [of x y] p by (cases "ms_open_pair s (x, y)") auto
  then show ?thesis using m p by (simp add: s' ms_ok_def ms_next_def)
qed

lemma register_mentor_ok:
  assumes ok: "ms_ok s" and "register_mentor e m x b n s = Inr s'"
  shows "ms_ok s'"
proof -
  have "ms_mentors s m = None" "ms_admin s \<noteq> None" "validate_terms b n = Inr ()"
    using assms(2) by (auto simp: register_mentor_def result_simps split: if_splits)
  then show ?thesis using assms(2) programs_of_unknown [OF ok, of m]
    by (intro ms_ok_mentor [OF ok, of s' m])
      (auto simp: register_mentor_def result_simps profile_ok_def validate_terms_def split: if_splits)
qed

lemma update_mentor_ok:
  assumes ok: "ms_ok s" and "update_mentor e m b n av s = Inr s'"
  shows "ms_ok s'"
proof -
  obtain q where q: "ms_mentors s m = Some q" "validate_terms b n = Inr ()" "mp_active_mentees q \<le> n"
    and s': "s' = mlog (Event (MeUpdated m b n av)) (save_mentor (q\<lparr>mp_revenue_share_bps := b, mp_max_mentees := n,
         mp_available := av\<rparr>) s)"
    using assms(2) by (auto simp: update_mentor_def load_mentor_def result_simps split: if_splits)
  have "ms_admin s \<noteq> None" using ms_okD(11) [OF ok] q by fastforce
  then show ?thesis using q ms_okD(5-8) [OF ok q(1)]
    by (intro ms_ok_mentor [OF ok, of s' m "q\<lparr>mp_revenue_share_bps := b, mp_max_mentees := n, mp_available := av\<rparr>"])
      (auto simp: s' profile_ok_def validate_terms_def split: if_splits)
qed

lemma set_mentor_suspended_ok:
  assumes ok: "ms_ok s" and "set_mentor_suspended e a m b s = Inr s'"
  shows "ms_ok s'"
proof -
  obtain q where q: "ms_mentors s m = Some q"
    and s': "s' = mlog (Event (MeSuspended m b)) (save_mentor (q\<lparr>mp_suspended := b\<rparr>) s)"
    using assms(2) by (auto simp: set_mentor_suspended_def load_mentor_def result_simps)
  have "ms_admin s \<noteq> None" using ms_okD(11) [OF ok] q by fastforce
  then show ?thesis using ms_okD(5-8) [OF ok q]
    by (intro ms_ok_mentor [OF ok, of s' m "q\<lparr>mp_suspended := b\<rparr>"]) (auto simp: s' profile_ok_def)
qed

lemma request_mentorship_ok:
  assumes ok: "ms_ok s" and "request_mentorship e x m dur s = Inr (i, s')"
  shows "ms_ok s'"
proof -
  note d = ms_okD [OF ok]
  obtain q p where q: "ms_mentors s m = Some q" and i: "ms_counter s = Some i" "i + 1 \<le> u64_max"
    and free: "ms_open_pair s (m, x) = None" and ne: "x \<noteq> m"
    and s': "ms_programs s' = (ms_programs s)(i \<mapsto> p)" "ms_mentors s' = ms_mentors s" "ms_admin s' = ms_admin s"
      "ms_counter s' = Some (i + 1)" "ms_open_pair s' = (ms_open_pair s)((m, x) \<mapsto> i)"
    and p: "pg_id p = i" "pg_mentor p = m" "pg_mentee p = x" "pg_status p = Requested" "\<not> pg_rated p"
      "pg_revenue_share_bps p = mp_revenue_share_bps q" "pg_sessions p = 0" "pg_total_shared p = 0" "pg_end_ledger p = 0"
      "pg_duration_ledgers p = dur" "MIN_DURATION_LEDGERS \<le> dur" "dur \<le> MAX_DURATION_LEDGERS"
    using assms(2)
    by (auto simp: request_mentorship_def load_mentor_def result_simps checked_nat_def Let_def split: if_splits)
  have nxt: "ms_next s = i" "ms_next s' = i + 1" using i s' by (simp_all add: ms_next_def)
  have new: "ms_programs s i = None" using d(1) [of i] nxt by (cases "ms_programs s i") auto
  have pok: "program_ok p" using p ne d(6) [OF q] by (simp add: program_ok_def profile_ok_def)
  have sums: "programs_of P y s' = programs_of P y s + slot_bit P y (Some p)" for P y
  proof -
    have "(\<Sum>j<i. slot_bit P y (ms_programs s' j)) = (\<Sum>j<i. slot_bit P y (ms_programs s j))"
      by (rule sum.cong) (auto simp: s')
    then show ?thesis by (simp add: programs_of_def nxt s')
  qed
  have "j < ms_next s' \<and> pg_id r = j \<and> ms_mentors s' (pg_mentor r) \<noteq> None \<and> program_ok r"
    if "ms_programs s' j = Some r" for j r
    using that d(1-4) [of j r] p q pok nxt by (cases "j = i") (auto simp: s')
  moreover have "mp_mentor r = y \<and> profile_ok r \<and> int (mp_active_mentees r) = programs_of running y s'
      \<and> int (mp_rating_count r) = programs_of pg_rated y s'" if "ms_mentors s' y = Some r" for y r
    using that d(5-8) [of y r] p by (simp add: s' sums running_def)
  moreover have "ms_open_pair s' (y, z) = Some j \<longleftrightarrow>
      (\<exists>r. ms_programs s' j = Some r \<and> pg_mentor r = y \<and> pg_mentee r = z \<and> open_program r)" for y z j
    using d(9) [of y z j] d(9) [of m x j] p new free
    by (cases "j = i"; cases "y = m \<and> z = x") (auto simp: s' open_program_def)
  moreover have "ms_admin s \<noteq> None" using d(10) i by simp
  ultimately show ?thesis unfolding ms_ok_def using i nxt by (auto simp: s')
qed


lemma accept_mentorship_ok:
  assumes ok: "ms_ok s" and "accept_mentorship e m i s = Inr s'"
  shows "ms_ok s'"
proof -
  obtain p q where p: "ms_programs s i = Some p" "pg_mentor p = m" "pg_status p = Requested"
    and q: "ms_mentors s m = Some q" "mp_active_mentees q < mp_max_mentees q"
    and fits: "sequence e + pg_duration_ledgers p \<le> u32_max"
    and s': "s' = (let p' = p\<lparr>pg_status := Running, pg_revenue_share_bps := mp_revenue_share_bps q,
        pg_start_ledger := sequence e, pg_end_ledger := sequence e + pg_duration_ledgers p\<rparr>
      in emit_program_status ''accepted'' p' (save_program p' (save_mentor (q\<lparr>mp_active_mentees := mp_active_mentees q + 1\<rparr>) s)))"
    using assms(2)
    by (auto simp: accept_mentorship_def load_program_def load_mentor_def result_simps checked_nat_def Let_def split: if_splits)
  note d = ms_okD(2,4) [OF ok p(1)] ms_okD(5,6) [OF ok q(1)]
  show ?thesis
    by (rule ms_ok_program [OF ok p(1), of q s' "p\<lparr>pg_status := Running, pg_revenue_share_bps := mp_revenue_share_bps q,
          pg_start_ledger := sequence e, pg_end_ledger := sequence e + pg_duration_ledgers p\<rparr>"
          "q\<lparr>mp_active_mentees := mp_active_mentees q + 1\<rparr>"])
      (use p q fits d in \<open>simp_all add: s' Let_def program_ok_def profile_ok_def running_def open_program_def\<close>)
qed

lemma release_slot_eq:
  "ms_mentors s (pg_mentor p) = Some q \<Longrightarrow> release_slot p act s =
    Inr ((if act then save_mentor (q\<lparr>mp_active_mentees := mp_active_mentees q - 1\<rparr>) s else s)
      \<lparr>ms_open_pair := (ms_open_pair s)((pg_mentor p, pg_mentee p) := None)\<rparr>)"
  by (simp add: release_slot_def load_mentor_def)

lemma running_active:
  assumes ok: "ms_ok s" and p: "ms_programs s i = Some p" "pg_status p = Running" and q: "ms_mentors s (pg_mentor p) = Some q"
  shows "0 < mp_active_mentees q"
proof -
  have "(\<Sum>j<ms_next s. slot_bit running (pg_mentor p) (ms_programs s j)) =
      slot_bit running (pg_mentor p) (ms_programs s i)
      + (\<Sum>j\<in>{..<ms_next s} - {i}. slot_bit running (pg_mentor p) (ms_programs s j))"
    using ms_okD(1) [OF ok p(1)] by (intro sum.remove) auto
  moreover have "0 \<le> (\<Sum>j\<in>{..<ms_next s} - {i}. slot_bit running (pg_mentor p) (ms_programs s j))"
    by (rule sum_nonneg) (simp add: slot_bit_def split: option.splits)
  ultimately show ?thesis using ms_okD(7) [OF ok q] p by (simp add: programs_of_def running_def)
qed

text \<open>Closing an open program: it leaves the open states and gives its slot back.\<close>

lemma close_program_ok:
  assumes ok: "ms_ok s" and p: "ms_programs s i = Some p" "open_program p" and q: "ms_mentors s (pg_mentor p) = Some q"
    and st: "st \<noteq> Requested" "st \<noteq> Running" "pg_status p = Requested \<longrightarrow> st \<noteq> Completed" "st = Declined \<longrightarrow> pg_status p = Requested"
    and s': "ms_programs s' = (ms_programs s)(i \<mapsto> p\<lparr>pg_status := st\<rparr>)" "ms_admin s' = ms_admin s" "ms_counter s' = ms_counter s"
      "ms_open_pair s' = (ms_open_pair s)((pg_mentor p, pg_mentee p) := None)"
      "ms_mentors s' = (ms_mentors s)(pg_mentor p \<mapsto> q\<lparr>mp_active_mentees := mp_active_mentees q - of_bool (running p),
        mp_completed_programs := c\<rparr>)" and c: "c \<le> u32_max"
  shows "ms_ok s'"
proof -
  have act: "running p \<Longrightarrow> 0 < mp_active_mentees q" using running_active [OF ok p(1) _ q] by (simp add: running_def)
  then have actd: "int (mp_active_mentees q - of_bool (running p)) = int (mp_active_mentees q) - of_bool (running p)"
    by (cases "running p") (simp_all add: Suc_le_eq of_nat_diff)
  note d = ms_okD(4) [OF ok p(1)] ms_okD(6) [OF ok q]
  have nr: "\<not> pg_rated p" using d(1) p(2) by (auto simp: program_ok_def open_program_def)
  have pok: "program_ok (p\<lparr>pg_status := st\<rparr>)"
    using d(1) nr p(2) st by (auto simp: program_ok_def open_program_def)
  have qok: "profile_ok (q\<lparr>mp_active_mentees := mp_active_mentees q - of_bool (running p), mp_completed_programs := c\<rparr>)"
    using d(2) c by (auto simp: profile_ok_def)
  have nrun: "\<not> running (p\<lparr>pg_status := st\<rparr>)" using st by (simp add: running_def)
  show ?thesis
    by (rule ms_ok_program [OF ok p(1) q s'(1) s'(5) s'(3,2)])
      (use p s' st nr pok qok nrun actd in simp_all)
qed


lemma decline_mentorship_ok:
  assumes ok: "ms_ok s" and "decline_mentorship e m i s = Inr s'"
  shows "ms_ok s'"
proof -
  obtain p where p: "ms_programs s i = Some p" "pg_status p = Requested"
    and r: "bindr (release_slot (p\<lparr>pg_status := Declined\<rparr>) False s) (\<lambda>s1.
      Inr (emit_program_status ''declined'' (p\<lparr>pg_status := Declined\<rparr>) (save_program (p\<lparr>pg_status := Declined\<rparr>) s1))) = Inr s'"
    using assms(2) by (auto simp: decline_mentorship_def load_program_def result_simps Let_def split: if_splits)
  obtain q where q: "ms_mentors s (pg_mentor p) = Some q" using program_mentor [OF ok p(1)] .
  have "mp_completed_programs q \<le> u32_max" using ms_okD(6) [OF ok q] by (simp add: profile_ok_def)
  moreover have "(ms_mentors s)(pg_mentor p \<mapsto> q) = ms_mentors s" using q by auto
  ultimately show ?thesis using r ms_okD(2) [OF ok p(1)] ms_okD(5) [OF ok q] p
    by (intro close_program_ok [OF ok p(1) _ q, of Declined s' "mp_completed_programs q"])
      (auto simp: open_program_def running_def release_slot_def)
qed

lemma cancel_program_ok:
  assumes ok: "ms_ok s" and "cancel_program e a i s = Inr s'"
  shows "ms_ok s'"
proof -
  obtain p where p: "ms_programs s i = Some p" "open_program p"
    and r: "bindr (release_slot (p\<lparr>pg_status := MCancelled\<rparr>) (running p) s) (\<lambda>s1.
      Inr (emit_program_status ''cancelled'' (p\<lparr>pg_status := MCancelled\<rparr>) (save_program (p\<lparr>pg_status := MCancelled\<rparr>) s1))) = Inr s'"
    using assms(2)
    by (auto simp: cancel_program_def load_program_def result_simps Let_def open_program_def running_def
        split: if_splits program_status.splits)
  obtain q where q: "ms_mentors s (pg_mentor p) = Some q" using program_mentor [OF ok p(1)] .
  have "mp_completed_programs q \<le> u32_max" using ms_okD(6) [OF ok q] by (simp add: profile_ok_def)
  moreover have "(ms_mentors s)(pg_mentor p \<mapsto> q) = ms_mentors s" using q by auto
  moreover have "mp_mentor q = pg_mentor p" using ms_okD(5) [OF ok q] .
  ultimately show ?thesis using r ms_okD(2) [OF ok p(1)] p q
    by (intro close_program_ok [OF ok p q, of MCancelled s' "mp_completed_programs q"])
      (auto simp: release_slot_eq split: if_splits)
qed

lemma complete_program_cases:
  assumes ok: "ms_ok s" and p: "ms_programs s i = Some p" and q: "ms_mentors s (pg_mentor p) = Some q"
    and "complete_program e a i s = Inr s'"
  shows "pg_status p = Running" "a = pg_mentor p \<or> a = pg_mentee p"
    "ms_programs s' = (ms_programs s)(i \<mapsto> p\<lparr>pg_status := Completed\<rparr>)" "ms_admin s' = ms_admin s" "ms_counter s' = ms_counter s"
    "ms_open_pair s' = (ms_open_pair s)((pg_mentor p, pg_mentee p) := None)"
    "ms_mentors s' = (ms_mentors s)(pg_mentor p \<mapsto> q\<lparr>mp_active_mentees := mp_active_mentees q - of_bool (running p),
      mp_completed_programs := sat_add u32_max (mp_completed_programs q) 1\<rparr>)"
  using assms(4) p q ms_okD(2) [OF ok p] ms_okD(5) [OF ok q]
  by (auto simp: complete_program_def load_program_def load_mentor_def result_simps Let_def release_slot_eq running_def
      split: if_splits)

lemma complete_program_ok:
  assumes ok: "ms_ok s" and c: "complete_program e a i s = Inr s'"
  shows "ms_ok s'"
proof -
  obtain p where p: "ms_programs s i = Some p"
    using c by (auto simp: complete_program_def load_program_def result_simps)
  obtain q where q: "ms_mentors s (pg_mentor p) = Some q" using program_mentor [OF ok p] .
  note cc = complete_program_cases [OF ok p q c]
  show ?thesis
    by (rule close_program_ok [OF ok p _ q _ _ _ _ cc(3-7)]) (use cc in \<open>simp_all add: open_program_def sat_add_def\<close>)
qed

text \<open>Changing a program without its status, and its mentor without its slots.\<close>

lemma touch_program_ok:
  assumes ok: "ms_ok s" and p: "ms_programs s i = Some p" and q: "ms_mentors s (pg_mentor p) = Some q"
    and s': "ms_programs s' = (ms_programs s)(i \<mapsto> p')" "ms_mentors s' = (ms_mentors s)(pg_mentor p \<mapsto> q')"
      "ms_admin s' = ms_admin s" "ms_counter s' = ms_counter s" "ms_open_pair s' = ms_open_pair s"
    and same: "pg_id p' = pg_id p" "pg_mentor p' = pg_mentor p" "pg_mentee p' = pg_mentee p" "pg_status p' = pg_status p"
      "mp_mentor q' = mp_mentor q" "mp_active_mentees q' = mp_active_mentees q"
    and new: "program_ok p'" "profile_ok q'"
      "int (mp_rating_count q') = int (mp_rating_count q) - of_bool (pg_rated p) + of_bool (pg_rated p')"
  shows "ms_ok s'"
  by (rule ms_ok_program [OF ok p q s'(1,2,4,3)])
    (use s' same new in \<open>auto simp: open_program_def running_def\<close>)

lemma log_session_ok:
  assumes ok: "ms_ok s" and "log_session e m i s = Inr (n, s')"
  shows "ms_ok s'"
proof -
  obtain p where p: "ms_programs s i = Some p" "pg_status p = Running" "pg_sessions p + 1 \<le> u32_max"
    and s': "s' = mlog (Event (MeSession i (pg_sessions p + 1))) (save_program (p\<lparr>pg_sessions := pg_sessions p + 1\<rparr>) s)"
    using assms(2) by (auto simp: log_session_def load_program_def result_simps checked_nat_def split: if_splits)
  obtain q where q: "ms_mentors s (pg_mentor p) = Some q" using program_mentor [OF ok p(1)] .
  show ?thesis
    by (rule touch_program_ok [OF ok p(1) q, of s' "p\<lparr>pg_sessions := pg_sessions p + 1\<rparr>" q])
      (use p q ms_okD(2,4) [OF ok p(1)] ms_okD(6) [OF ok q] in \<open>auto simp: s' program_ok_def\<close>)
qed

lemma share_earnings_cases:
  assumes "share_earnings e x i t gross s = Inr (share, s')"
  obtains p where "auth e x" "0 < gross" "ms_programs s i = Some p" "pg_mentee p = x" "pg_status p = Running"
    "sequence e \<le> pg_end_ledger p" "share = gross * int (pg_revenue_share_bps p) div 10000"
    "fits_i128 (pg_total_shared p + share)"
    "s' = mlog (Event (MeShared i t gross share)) (save_program (p\<lparr>pg_total_shared := pg_total_shared p + share\<rparr>)
      (if 0 < share then mlog (Sent t x (pg_mentor p) share) s else s))"
  using assms
  by (auto simp: share_earnings_def load_program_def result_simps Let_def ms_consts split: if_splits intro: that)

lemma share_earnings_ok:
  assumes ok: "ms_ok s" and "share_earnings e x i t gross s = Inr (share, s')"
  shows "ms_ok s'"
  using assms(2)
proof (rule share_earnings_cases)
  fix p
  assume p: "ms_programs s i = Some p" "pg_status p = Running" "0 < gross"
    and sh: "share = gross * int (pg_revenue_share_bps p) div 10000" "fits_i128 (pg_total_shared p + share)"
    and s': "s' = mlog (Event (MeShared i t gross share)) (save_program (p\<lparr>pg_total_shared := pg_total_shared p + share\<rparr>)
      (if 0 < share then mlog (Sent t x (pg_mentor p) share) s else s))"
  obtain q where q: "ms_mentors s (pg_mentor p) = Some q" using program_mentor [OF ok p(1)] .
  have "0 \<le> share" using p sh by (simp add: pos_imp_zdiv_nonneg_iff)
  then show ?thesis using p q sh ms_okD(2,4) [OF ok p(1)] ms_okD(6) [OF ok q]
    by (intro touch_program_ok [OF ok p(1) q, of s' "p\<lparr>pg_total_shared := pg_total_shared p + share\<rparr>" q])
      (auto simp: s' program_ok_def fits_i128_def)
qed

lemma rate_mentor_ok:
  assumes ok: "ms_ok s" and "rate_mentor e x i r s = Inr s'"
  shows "ms_ok s'"
proof -
  obtain p q where p: "ms_programs s i = Some p" "pg_status p = Completed" "\<not> pg_rated p"
    and q: "ms_mentors s (pg_mentor p) = Some q" and r: "0 < r" "r \<le> 5" "mp_rating_sum q + r \<le> u32_max"
    and s': "s' = mlog (Event (MeRated i (pg_mentor p) r)) (save_program (p\<lparr>pg_rated := True\<rparr>)
      (save_mentor (q\<lparr>mp_rating_sum := mp_rating_sum q + r, mp_rating_count := mp_rating_count q + 1\<rparr>) s))"
    using assms(2)
    by (auto simp: rate_mentor_def load_program_def load_mentor_def result_simps checked_nat_def ms_consts split: if_splits)
  show ?thesis
    by (rule touch_program_ok [OF ok p(1) q, of s' "p\<lparr>pg_rated := True\<rparr>"
          "q\<lparr>mp_rating_sum := mp_rating_sum q + r, mp_rating_count := mp_rating_count q + 1\<rparr>"])
      (use p r ms_okD(2,4) [OF ok p(1)] ms_okD(5,6) [OF ok q] in
        \<open>simp_all add: s' program_ok_def profile_ok_def MAX_RATING_def\<close>)
qed

lemma mentor_exec_ok:
  assumes "ms_ok s" and "mentor_exec e c s = Inr s'"
  shows "ms_ok s'"
  using assms
  by (cases c) (auto simp: result_simps intro: ms_initialize_ok register_mentor_ok update_mentor_ok
      set_mentor_suspended_ok request_mentorship_ok accept_mentorship_ok decline_mentorship_ok log_session_ok
      share_earnings_ok complete_program_ok cancel_program_ok rate_mentor_ok)

interpretation mentorship: contract_machine mentor_exec empty_mentorship "\<lambda>_. True" ms_ok
  by unfold_locales (auto intro: ms_ok_empty mentor_exec_ok)

lemma mentorship_run_ok: "ms_ok (run mentor_exec xs empty_mentorship)"
  using mentorship.invar_run [of xs] by (simp add: list_all_iff case_prod_beta)



section \<open>Properties\<close>

text \<open>C39: Every state that any sequence of calls can reach is well-formed: programs are stored under their own
  number below the counter and belong to a registered mentor other than the mentee, with a share of at
  most 30 percent, a legal duration, an end ledger that is start plus duration while and after the
  term runs, non-negative earnings within \<open>i128\<close>, and a rating only after completion; profiles are
  stored under their own address with legal terms, at most as many active mentees as their capacity,
  and a rating sum between one and five times the number of ratings; every counter fits its width.\<close>

theorem mentorship_wf: "ms_ok (run mentor_exec xs empty_mentorship)"
  by (rule mentorship_run_ok)

lemma programs_of_card:
  assumes "ms_ok s"
  shows "programs_of P m s = int (card {i. \<exists>p. ms_programs s i = Some p \<and> pg_mentor p = m \<and> P p})"
proof -
  have "programs_of P m s = (\<Sum>i<ms_next s. of_bool (\<exists>p. ms_programs s i = Some p \<and> pg_mentor p = m \<and> P p))"
    unfolding programs_of_def by (rule sum.cong) (auto simp: slot_bit_def split: option.splits)
  also have "\<dots> = int (card ({..<ms_next s} \<inter> {i. \<exists>p. ms_programs s i = Some p \<and> pg_mentor p = m \<and> P p}))"
    by simp
  also have "{..<ms_next s} \<inter> {i. \<exists>p. ms_programs s i = Some p \<and> pg_mentor p = m \<and> P p}
      = {i. \<exists>p. ms_programs s i = Some p \<and> pg_mentor p = m \<and> P p}"
    using ms_okD(1) [OF assms] by auto
  finally show ?thesis .
qed

text \<open>C38: Slots and locks are exact.  In every reachable state the slot counter of a mentor is the number of
  its running programs and never exceeds its capacity of at most 50, the number of its ratings is
  the number of its rated programs, and a mentor and a mentee have at most one open program
  with each other, which is the one their lock names.\<close>

theorem mentor_slots_exact:
  assumes "ms_mentors (run mentor_exec xs empty_mentorship) m = Some q"
  shows "mp_active_mentees q = card {i. \<exists>p. ms_programs (run mentor_exec xs empty_mentorship) i = Some p
      \<and> pg_mentor p = m \<and> pg_status p = Running}
    \<and> mp_active_mentees q \<le> mp_max_mentees q \<and> mp_max_mentees q \<le> 50
    \<and> mp_rating_count q = card {i. \<exists>p. ms_programs (run mentor_exec xs empty_mentorship) i = Some p
      \<and> pg_mentor p = m \<and> pg_rated p}
    \<and> (\<forall>x. {i. \<exists>p. ms_programs (run mentor_exec xs empty_mentorship) i = Some p
        \<and> pg_mentor p = m \<and> pg_mentee p = x \<and> open_program p}
      = set_option (ms_open_pair (run mentor_exec xs empty_mentorship) (m, x)))"
proof -
  let ?s = "run mentor_exec xs empty_mentorship"
  have ok: "ms_ok ?s" by (rule mentorship_run_ok)
  have "int (mp_active_mentees q) = int (card {i. \<exists>p. ms_programs ?s i = Some p \<and> pg_mentor p = m \<and> running p})"
    "int (mp_rating_count q) = int (card {i. \<exists>p. ms_programs ?s i = Some p \<and> pg_mentor p = m \<and> pg_rated p})"
    using ms_okD(7,8) [OF ok assms] programs_of_card [OF ok] by simp_all
  moreover have "{i. \<exists>p. ms_programs ?s i = Some p \<and> pg_mentor p = m \<and> pg_mentee p = x \<and> open_program p}
      = set_option (ms_open_pair ?s (m, x))" for x
    by (simp add: set_eq_iff ms_okD(9) [OF ok])
  ultimately show ?thesis using ms_okD(6) [OF ok assms]
    by (simp add: running_def profile_ok_def MAX_MENTEES_PER_MENTOR_def)
qed

definition ms_demo_env :: ledger_env where
  "ms_demo_env = \<lparr>timestamp = 7, sequence = 100, self_addr = 99, auth = (\<lambda>_. True)\<rparr>"

definition ms_demo :: "(ledger_env \<times> mentor_call) list" where
  "ms_demo = map (Pair ms_demo_env) [MsInitialize 2, MsRegister 3 ''dev'' 500 2, MsRequest 4 3 20000,
     MsRequest 5 3 20000, MsAccept 3 0, MsShare 4 0 9 1000, MsDecline 3 1]"

lemmas mentor_eval = empty_mentorship_def ms_demo_env_def ms_initialize_def register_mentor_def request_mentorship_def
  accept_mentorship_def decline_mentorship_def share_earnings_def load_mentor_def load_program_def save_mentor_def
  save_program_def mlog_def emit_program_status_def validate_terms_def release_slot_def push_id_def checked_nat_def
  checked_i128_def ms_consts rust_int Let_def

theorem mentor_slots_exact_witness:
  "\<exists>q. ms_mentors (run mentor_exec ms_demo empty_mentorship) 3 = Some q \<and> mp_active_mentees q = 1
    \<and> 1 = card {i. \<exists>p. ms_programs (run mentor_exec ms_demo empty_mentorship) i = Some p
        \<and> pg_mentor p = 3 \<and> pg_status p = Running}"
proof -
  have "map_option mp_active_mentees (ms_mentors (run mentor_exec ms_demo empty_mentorship) 3) = Some 1"
    by (simp add: ms_demo_def mentor_eval)
  then have "\<exists>q. ms_mentors (run mentor_exec ms_demo empty_mentorship) 3 = Some q \<and> mp_active_mentees q = 1"
    by auto
  then show ?thesis using mentor_slots_exact [of ms_demo 3] by auto
qed

end
