(* ===== verification/Spec2Isabelle.thy ===== *)
theory Spec2Isabelle
  imports Distribution Escrow_Guards Split_Rules Charity_Split Tax_Strategy Velocity Invoice_Store Insurance_Pool Mentorship
begin

text \<open>
  \<^bold>\<open>StellarSplit: verified models of the contracts\<close>

  The repository is a Rust workspace of Soroban smart contracts that collect payments towards invoices
  and split them among recipients. The main contract is \<open>contracts/split\<close> (one large \<open>lib.rs\<close> with its
  modules); around it stand small contracts with their own storage: \<open>invoice-escrow\<close>,
  \<open>charity-split\<close>, \<open>tax-strategy\<close>, \<open>mentorship\<close> and others. Contracts do not share state; they interact
  through token transfers, oracles and their callers. Inside the split contract the modules share
  the error enum, the admin records and the pause switches.

  \<^bold>\<open>How code becomes definitions\<close>

  \<^item> A struct is a record, an enum a datatype, with the fields and variants of the source; the storage
    of a contract is one record with a map per family of storage keys.
  \<^item> An entry point is one definition from the ledger environment, its arguments and the state to
    a result: a typed error, a trap (\<open>panic!\<close>, \<open>assert!\<close>, \<open>expect\<close>, a missing authorisation, an
    overflow) or the return value and the new state. Its guards come in the order of the code. The host
    rolls back failing calls, so these have no new state (\<open>Soroban_Base\<close>).
  \<^item> \<open>i128\<close> is \<open>int\<close> and \<open>u32\<close>/\<open>u64\<close> are \<open>nat\<close>, with range checks where the code checks or traps, and
    with saturation and truncation written out where the code saturates or casts.
  \<^item> Token transfers and events are appended to a log in the state; the balance of a contract is the
    net inflow of its log (\<open>Token_Accounts\<close>). A transfer that the token contract refuses traps and
    aborts the call, so it never shows in a log and leaves no new state; \<open>Charity_Split\<close>, which states
    that refunds can be claimed, has the token's answer as a parameter (\<open>transfer_ok\<close>), the other
    models describe the calls whose transfers are accepted.
  \<^item> A loop is structural recursion or a fold over the list or range it visits, so every model is
    total; no fuel is needed anywhere.
  \<^item> The authorisations, the clock, the price oracles of the escrow, the token of the charity contract and
    the encoded size of a record are fields of the environment, which the theorems quantify over.

  \<^bold>\<open>The theories\<close>

  \<^item> \<open>Soroban_Base\<close> results, Rust integers, environment, runs of a contract, and the interfaces
    \<open>contract_machine\<close> (an invariant kept by every call holds in every run), \<open>evolving_machine\<close> (a
    preorder kept by every call) and \<open>refined_machine\<close> (every call makes a step of an abstract machine).
    Every contract model interprets one of them on its own definitions.
  \<^item> \<open>Token_Accounts\<close> logs, net inflow, sums of contributions and of numbered slots.
  \<^item> \<open>Split_Error\<close>, \<open>Fixed_Point\<close>, \<open>Distribution\<close> (\<open>split/src/error.rs\<close>, \<open>math.rs\<close>, \<open>calc.rs\<close>): fixed-point
    numbers, overflow-safe products, decimals; the largest-remainder distribution over its fixed slot
    array, fees and breakdowns. Shares are exact, fair and bounded; conversions invert each other.
  \<^item> \<open>Escrow_Model\<close>, \<open>Escrow_Funds\<close>, \<open>Escrow_Safety\<close>, \<open>Escrow_Guards\<close> (\<open>invoice-escrow/src\<close>): every entry
    point of the escrow; solvency for every token; what a stored invoice can become; co-signer votes;
    guards of release and refund; the admin handover; the blacklist; deposits a closed invoice locks.
  \<^item> \<open>Split_Rules\<close> (\<open>split/src/split_rules.rs\<close>): validated rule sets never distribute more than was funded,
    the selected rule is the best matching one, and unconditional rules always evaluate.
  \<^item> \<open>Charity_Split\<close> (\<open>charity-split/src\<close>): exact split, solvency, and refunds: the contract
    always holds what a cancelled invoice owes, so a token that pays out what is held pays every claim.
  \<^item> \<open>Tax_Strategy\<close> (\<open>tax-strategy/src\<close>): income is routed completely and within the limits, the bracket
    loop computes the marginal tax, period totals stay consistent.
  \<^item> \<open>Split_Admin\<close>, \<open>Velocity\<close>, \<open>Circuit_Breaker\<close> (\<open>split/src/migrations.rs\<close>, \<open>velocity.rs\<close>, \<open>lib.rs\<close>): admin
    guards and migrations, velocity limits over sliding spans that never lock a payer out, and the circuit breaker as a refinement
    of a three-mode state machine.
  \<^item> \<open>Invoice_Data\<close>, \<open>Invoice_Store\<close> (\<open>split/src/types.rs\<close>, \<open>lib.rs\<close>): the invoice with all its fields, its
    three stored records and packed form, saving and loading in two storage tiers, archival, restore
    and purge. What is saved is what is loaded, and archival does not change what a reader sees.
  \<^item> \<open>Insurance_Pool\<close> (\<open>split/src/insurance_pool.rs\<close>): the pool is solvent and only a majority of the
    contributed weight moves money, once per claim.
  \<^item> \<open>Mentorship\<close> (\<open>mentorship/src\<close>): reachable states are well-formed, slots and pair locks are exact.

  \<^bold>\<open>Environment hypotheses\<close>

  Solvency theorems assume that the contract does not sign calls in its own name and keeps one
  address (\<open>escrow_env_ok\<close>, \<open>charity_env_ok\<close>, \<open>pool_env_ok\<close>). That charity refunds can be claimed
  assumes of the token that it pays out transfers the contract's balance covers (\<open>token_pays_out\<close>).
  The witnesses instantiate these hypotheses.

  \<^bold>\<open>Not modelled\<close>

  \<^item> Of \<open>split/src/lib.rs\<close>: the invoice life cycle around the stored invoice (creation, \<open>_pay\<close>,
    \<open>_release_full\<close>, refunds, auctions, streams, disputes, subscriptions, groups). These functions call
    swap, stream, receipt and notification contracts that are not part of the repository and
    touch most storage keys of the contract.
  \<^item> Views and counters without decisions (\<open>stats\<close>, \<open>analytics\<close>, \<open>monitoring\<close>, \<open>audit_logging\<close>,
    \<open>webhooks\<close>), in-memory helpers (\<open>pool\<close>, \<open>compression\<close>, \<open>aggregation\<close>), and modules that
    \<open>lib.rs\<close> does not declare and the compiler never sees.
  \<^item> \<open>sort_recipients\<close> of \<open>calc.rs\<close>: its order is the key order of the host's \<open>Map\<close>.
  \<^item> Time-to-live extensions, which change no stored value, and everything under \<open>tests\<close> and \<open>fuzz\<close>.
\<close>

end
